theory Spec2Isabelle
  imports Complex_Main "HOL-Library.Log_Nat" "HOL-Library.Multiset" "HOL-Library.Sublist"
begin

section \<open>JavaScript values used by \<open>src/index.js\<close>\<close>

subsection \<open>Strings\<close>

text \<open>
  A JavaScript string is a sequence of UTF-16 code units. The Korean literals of the
  source are written here by their code units; \<open>str\<close> embeds an ASCII literal.
\<close>

type_synonym jstring = "nat list"

definition str :: "string \<Rightarrow> jstring" where
  "str s = map of_char s"

definition COMMA :: nat where "COMMA = 44"
definition NEWLINE :: nat where "NEWLINE = 10"

text \<open>U+C870 (the unit of 10000 times the small unit) and U+C5B5 (the small unit).\<close>

definition JO :: nat where "JO = 51312"
definition EOK :: nat where "EOK = 50613"

text \<open>\<open>WhiteSpace\<close> and \<open>LineTerminator\<close> code units, as stripped by \<open>trim\<close> and \<open>parseInt\<close>.\<close>

definition is_ws :: "nat \<Rightarrow> bool" where
  "is_ws c = (c \<in> set [9, 10, 11, 12, 13, 32, 160, 5760, 8192, 8193, 8194, 8195, 8196,
                        8197, 8198, 8199, 8200, 8201, 8202, 8232, 8233, 8239, 8287,
                        12288, 65279])"

definition is_digit :: "nat \<Rightarrow> bool" where
  "is_digit c = (48 \<le> c \<and> c \<le> 57)"

text \<open>\<open>s.trim()\<close>\<close>

definition trim :: "jstring \<Rightarrow> jstring" where
  "trim s = rev (dropWhile is_ws (rev (dropWhile is_ws s)))"

text \<open>\<open>s.split(sep)\<close> for a separator of one code unit; \<open>''''.split(sep)\<close> is \<open>['''']\<close>.\<close>

fun split_on :: "nat \<Rightarrow> jstring \<Rightarrow> jstring list" where
  "split_on sep [] = [[]]"
| "split_on sep (c # cs) =
     (if c = sep then [] # split_on sep cs
      else (case split_on sep cs of p # ps \<Rightarrow> (c # p) # ps | [] \<Rightarrow> [[c]]))"

text \<open>\<open>s.replace(/c/g, '''')\<close> and \<open>s.replace(c, '''')\<close> (first occurrence only).\<close>

definition replace_all :: "nat \<Rightarrow> jstring \<Rightarrow> jstring" where
  "replace_all c s = filter (\<lambda>x. x \<noteq> c) s"

definition replace_first :: "nat \<Rightarrow> jstring \<Rightarrow> jstring" where
  "replace_first c s = remove1 c s"

definition str_includes :: "jstring \<Rightarrow> nat \<Rightarrow> bool" where
  "str_includes s c = (c \<in> set s)"

subsection \<open>Numbers\<close>

text \<open>
  A JavaScript Number is an IEEE 754 double: not-a-number, an infinity, or a finite value,
  kept here as the rational it denotes. The sign of zero is not kept: the modelled code
  never divides by a zero and never prints one, so \<open>-0\<close> and \<open>+0\<close> behave alike there.
\<close>

datatype jsnum = NaN | NInf | Fin rat | PInf

definition round_half_even :: "rat \<Rightarrow> int" where
  "round_half_even x =
     (let f = \<lfloor>x\<rfloor>; d = x - of_int f
      in if d < 1 / 2 then f else if 1 / 2 < d then f + 1
         else if even f then f else f + 1)"

text \<open>
  The binary exponent \<open>e\<close> of a positive rational, \<open>2 powi e \<le> a < 2 powi (e + 1)\<close>,
  found from the bit lengths of its numerator and denominator.
\<close>

definition binary_exponent :: "rat \<Rightarrow> int" where
  "binary_exponent a =
     (let k = bitlen (fst (quotient_of a)) - bitlen (snd (quotient_of a))
      in if 2 powi k \<le> a then k else k - 1)"

text \<open>
  Rounding of an exact result to the nearest double, ties to even: 53 significant bits,
  gradual underflow (the last place is never below \<open>2 powi - 1074\<close>), overflow to an
  infinity from \<open>2 powi 1024\<close>.
\<close>

definition round_at :: "int \<Rightarrow> rat \<Rightarrow> rat" where
  "round_at e a =
     (let u = 2 powi (max (e - 52) (- 1074))
      in of_int (round_half_even (a / u)) * u)"

definition fl :: "rat \<Rightarrow> jsnum" where
  "fl q =
     (if q = 0 then Fin 0
      else
        let r = round_at (binary_exponent \<bar>q\<bar>) \<bar>q\<bar>
        in if 2 powi 1024 \<le> r then (if q < 0 then NInf else PInf)
           else Fin (if q < 0 then - r else r))"

text \<open>
  Every finite double is an integer multiple of the least subnormal \<open>2 powi - 1074\<close>;
  \<open>wf_num\<close> says so of a Number of the model.
\<close>

definition on_grid :: "rat \<Rightarrow> bool" where
  "on_grid x = (of_int \<lfloor>x * 2 powi 1074\<rfloor> = x * 2 powi 1074)"

definition wf_num :: "jsnum \<Rightarrow> bool" where
  "wf_num a = (case a of Fin x \<Rightarrow> on_grid x | _ \<Rightarrow> True)"

fun js_neg :: "jsnum \<Rightarrow> jsnum" where
  "js_neg NaN = NaN"
| "js_neg NInf = PInf"
| "js_neg PInf = NInf"
| "js_neg (Fin x) = Fin (- x)"

fun js_add :: "jsnum \<Rightarrow> jsnum \<Rightarrow> jsnum" where
  "js_add (Fin x) (Fin y) = fl (x + y)"
| "js_add NaN b = NaN"
| "js_add a NaN = NaN"
| "js_add PInf NInf = NaN"
| "js_add NInf PInf = NaN"
| "js_add (Fin x) b = b"
| "js_add a b = a"

definition js_sub :: "jsnum \<Rightarrow> jsnum \<Rightarrow> jsnum" where
  "js_sub a b = js_add a (js_neg b)"

fun js_mul :: "jsnum \<Rightarrow> jsnum \<Rightarrow> jsnum" where
  "js_mul (Fin x) (Fin y) = fl (x * y)"
| "js_mul NaN b = NaN"
| "js_mul a NaN = NaN"
| "js_mul (Fin x) b = (if x = 0 then NaN else if 0 < x then b else js_neg b)"
| "js_mul a (Fin y) = (if y = 0 then NaN else if 0 < y then a else js_neg a)"
| "js_mul PInf b = b"
| "js_mul NInf b = js_neg b"

fun js_div :: "jsnum \<Rightarrow> jsnum \<Rightarrow> jsnum" where
  "js_div (Fin x) (Fin y) =
     (if y = 0 then (if x = 0 then NaN else if 0 < x then PInf else NInf)
      else fl (x / y))"
| "js_div NaN b = NaN"
| "js_div a NaN = NaN"
| "js_div (Fin x) b = Fin 0"
| "js_div a (Fin y) = (if y < 0 then js_neg a else a)"
| "js_div a b = NaN"

text \<open>\<open>a <= b\<close>; every comparison with \<open>NaN\<close> is false.\<close>

fun js_le :: "jsnum \<Rightarrow> jsnum \<Rightarrow> bool" where
  "js_le (Fin x) (Fin y) = (x \<le> y)"
| "js_le NaN b = False"
| "js_le a NaN = False"
| "js_le NInf b = True"
| "js_le a PInf = True"
| "js_le a b = False"

definition js_ge :: "jsnum \<Rightarrow> jsnum \<Rightarrow> bool" where
  "js_ge a b = js_le b a"

definition js_lt :: "jsnum \<Rightarrow> jsnum \<Rightarrow> bool" where
  "js_lt a b = (js_le a b \<and> a \<noteq> b)"

definition js_gt :: "jsnum \<Rightarrow> jsnum \<Rightarrow> bool" where
  "js_gt a b = js_lt b a"

definition isNaN :: "jsnum \<Rightarrow> bool" where
  "isNaN a = (a = NaN)"

text \<open>\<open>a || 0\<close> on a Number: \<open>NaN\<close> and zero are falsy.\<close>

definition or_zero :: "jsnum \<Rightarrow> jsnum" where
  "or_zero a = (if a = NaN \<or> a = Fin 0 then Fin 0 else a)"

subsection \<open>\<open>parseInt(s, 10)\<close>\<close>

definition digits_val :: "jstring \<Rightarrow> nat" where
  "digits_val ds = foldl (\<lambda>a c. 10 * a + (c - 48)) 0 ds"

text \<open>
  Leading white space is skipped, one sign is read, then the longest run of decimal
  digits; no digit gives \<open>NaN\<close>, and what follows the digits is ignored. The radix is
  given as 10, so no \<open>0x\<close> prefix is recognised.
\<close>

definition parseInt :: "jstring \<Rightarrow> jsnum" where
  "parseInt s =
     (let t = dropWhile is_ws s;
          neg = (t \<noteq> [] \<and> hd t = 45);
          u = (if t \<noteq> [] \<and> (hd t = 43 \<or> hd t = 45) then tl t else t);
          ds = takeWhile is_digit u
      in if ds = [] then NaN
         else fl (of_int ((if neg then - 1 else 1) * int (digits_val ds))))"

subsection \<open>\<open>parseFloat(s)\<close>\<close>

text \<open>The optional \<open>ExponentPart\<close>: \<open>e\<close> or \<open>E\<close>, one sign, at least one digit.\<close>

definition exponent_part :: "jstring \<Rightarrow> int" where
  "exponent_part r =
     (if r \<noteq> [] \<and> (hd r = 101 \<or> hd r = 69) then
        let r1 = tl r;
            neg = (r1 \<noteq> [] \<and> hd r1 = 45);
            r2 = (if r1 \<noteq> [] \<and> (hd r1 = 43 \<or> hd r1 = 45) then tl r1 else r1);
            ds = takeWhile is_digit r2
        in if ds = [] then 0 else (if neg then - 1 else 1) * int (digits_val ds)
      else 0)"

text \<open>
  Leading white space is skipped and the longest prefix that is a decimal literal
  (\<open>Infinity\<close>, or digits with an optional fraction and exponent, after one optional sign)
  is converted; no such prefix gives \<open>NaN\<close>.
\<close>

definition parseFloat :: "jstring \<Rightarrow> jsnum" where
  "parseFloat s =
     (let t = dropWhile is_ws s;
          neg = (t \<noteq> [] \<and> hd t = 45);
          u = (if t \<noteq> [] \<and> (hd t = 43 \<or> hd t = 45) then tl t else t)
      in if prefix (str ''Infinity'') u then (if neg then NInf else PInf)
         else
           let ip = takeWhile is_digit u;
               r1 = dropWhile is_digit u;
               dot = (r1 \<noteq> [] \<and> hd r1 = 46);
               fp = (if dot then takeWhile is_digit (tl r1) else []);
               r2 = (if dot then dropWhile is_digit (tl r1) else r1);
               m = of_nat (digits_val (ip @ fp)) * 10 powi (exponent_part r2 - int (length fp))
           in if ip = [] \<and> fp = [] then NaN
              else fl (if neg then - m else m))"

section \<open>\<open>parseMarketCapToBillions\<close>\<close>

datatype jsvalue = JUndefined | JNull | JBoolean bool | JNumber jsnum | JString jstring

definition parseMarketCapToBillions :: "jsvalue \<Rightarrow> jsnum" where
  "parseMarketCapToBillions marketCapStr =
     (case marketCapStr of
        JString m \<Rightarrow>
          if m = [] then Fin 0
          else
            let s = replace_all COMMA m in
            if str_includes s JO then
              let parts = split_on JO s;
                  totalBillions = js_add (Fin 0) (js_mul (parseInt (parts ! 0)) (Fin 10000))
              in if parts ! 1 \<noteq> [] \<and> str_includes (parts ! 1) EOK
                 then js_add totalBillions (parseInt (replace_first EOK (parts ! 1)))
                 else totalBillions
            else if str_includes s EOK then js_add (Fin 0) (parseInt (replace_first EOK s))
            else Fin 0
      | _ \<Rightarrow> Fin 0)"

section \<open>Configuration and snapshots\<close>

text \<open>
  \<open>process.env\<close>: a variable that is not set reads as \<open>undefined\<close>, which \<open>parseInt\<close> and
  \<open>parseFloat\<close> convert to the string \<open>undefined\<close> before parsing.
\<close>

type_synonym environment = "string \<Rightarrow> jstring option"

definition to_string :: "jstring option \<Rightarrow> jstring" where
  "to_string v = (case v of None \<Rightarrow> str ''undefined'' | Some x \<Rightarrow> x)"

text \<open>\<open>!v\<close> on an environment value: \<open>undefined\<close> and the empty string are falsy.\<close>

definition falsy :: "jstring option \<Rightarrow> bool" where
  "falsy v = (v = None \<or> v = Some [])"

text \<open>The object that \<open>page.evaluate\<close> returns (lines 183-212).\<close>

record stockData =
  name :: jstring
  currentPrice :: jstring
  targetPrice :: jstring
  marketCap :: jstring

text \<open>An entry of \<open>results\<close>, \<open>{ code, ...stockData }\<close>, and one of \<open>notificationBatch\<close>.\<close>

record row = stockData +
  code :: jstring

record candidate = row +
  gap :: jsnum

definition mk_row :: "jstring \<Rightarrow> stockData \<Rightarrow> row" where
  "mk_row c d = \<lparr>name = name d, currentPrice = currentPrice d, targetPrice = targetPrice d,
                 marketCap = marketCap d, code = c\<rparr>"

definition mk_candidate :: "jstring \<Rightarrow> stockData \<Rightarrow> jsnum \<Rightarrow> candidate" where
  "mk_candidate c d g = \<lparr>name = name d, currentPrice = currentPrice d,
                         targetPrice = targetPrice d, marketCap = marketCap d,
                         code = c, gap = g\<rparr>"

text \<open>The sentinels of the source, as UTF-16 code units.\<close>

definition NAME_UNAVAILABLE :: jstring where
  "NAME_UNAVAILABLE = [51333, 47785, 47749, 32, 50630, 51020]"

definition CURRENT_UNAVAILABLE :: jstring where
  "CURRENT_UNAVAILABLE = [54788, 51116, 44032, 32, 50630, 51020]"

definition TARGET_UNAVAILABLE :: jstring where
  "TARGET_UNAVAILABLE = [47785, 54364, 51452, 44032, 32, 50630, 51020]"

definition MARKETCAP_UNAVAILABLE :: jstring where
  "MARKETCAP_UNAVAILABLE = [49884, 52509, 32, 50630, 51020]"

definition ERROR_SENTINEL :: jstring where
  "ERROR_SENTINEL = [50724, 47448, 32, 48156, 49373]"

section \<open>Gap analysis (lines 224-242 of \<open>scrapeStockData\<close>)\<close>

definition gap_of :: "jsnum \<Rightarrow> jsnum \<Rightarrow> jsnum" where
  "gap_of current target = js_mul (js_div (js_sub target current) target) (Fin 100)"

definition analyse :: "environment \<Rightarrow> jstring \<Rightarrow> stockData \<Rightarrow> candidate list \<Rightarrow> candidate list" where
  "analyse ev c d notificationBatch =
     (let gapPercentage = parseFloat (to_string (ev ''PRICE_GAP_PERCENTAGE'')) in
      if \<not> isNaN gapPercentage then
        let current = parseInt (replace_all COMMA (currentPrice d));
            target = parseInt (replace_all COMMA (targetPrice d));
            minMarketCap = or_zero (parseInt (to_string (ev ''MIN_MARKET_CAP_BILLIONS'')));
            marketCapInBillions = parseMarketCapToBillions (JString (marketCap d))
        in if \<not> isNaN current \<and> \<not> isNaN target \<and> js_gt target (Fin 0) then
             let gap = gap_of current target in
             if js_ge gap gapPercentage \<and> js_ge marketCapInBillions minMarketCap
             then notificationBatch @ [mk_candidate c d gap]
             else notificationBatch
           else notificationBatch
      else notificationBatch)"

section \<open>The world outside the program\<close>

text \<open>
  Everything the run reads from outside is an oracle of the \<open>world\<close>: the calendar, the
  environment, the results of the file-system calls on \<open>skip-list.txt\<close> (a rejected call
  carries its \<open>error.code\<close>), the browser, the random delays, the clock and the Slack
  client. What the run does to the outside is recorded as a trace of events; \<open>Sleep ms\<close>
  is a call of \<open>sleep\<close>.
\<close>

datatype exn = FsError string | TypeError | BrowserError | SlackError

text \<open>
  The outcome of lines 146-212 for one code: \<open>browser.newPage()\<close> rejected (no page
  exists), a later step rejected (navigation, the 30 second wait for the marker, the
  extraction), or the extracted fields.
\<close>

datatype fetch_result = NewPageFailed | PageFailed | Extracted stockData

record message =
  channel :: jstring
  title :: jstring
  items :: "candidate list"

datatype event =
    Unlink
  | ReadFile
  | Launch
  | Fetch jstring
  | AppendFile jstring
  | ClosePage
  | Sleep nat
  | CloseBrowser
  | PostMessage message

record world =
  getDay :: nat
  getDate :: nat
  env :: environment
  unlink_result :: "string option"
  readFile_result :: "string + jstring"
  launch_ok :: bool
  fetch :: "nat \<Rightarrow> jstring \<Rightarrow> fetch_result"
  appendFile_result :: "nat \<Rightarrow> string option"
  page_close_ok :: "nat \<Rightarrow> bool"
  getRandomDelay :: "nat \<Rightarrow> nat"
  browser_close_ok :: bool
  getKSTTimestamp :: "nat \<Rightarrow> jstring"
  postMessage_ok :: "nat \<Rightarrow> bool"

record state =
  trace :: "event list"
  results :: "row list"
  notificationBatch :: "candidate list"

definition init_state :: state where
  "init_state = \<lparr>trace = [], results = [], notificationBatch = []\<rparr>"

definition emit :: "event \<Rightarrow> state \<Rightarrow> state" where
  "emit e s = s\<lparr>trace := trace s @ [e]\<rparr>"

section \<open>\<open>sendSlackNotification\<close> (lines 47-80)\<close>

text \<open>\<open>String(n)\<close> for a length.\<close>

fun show_nat :: "nat \<Rightarrow> jstring" where
  "show_nat n = (if n < 10 then [48 + n] else show_nat (n div 10) @ [48 + n mod 10])"

declare show_nat.simps [simp del]

text \<open>The label of line 63 between the time stamp and the count, and the counter word.\<close>

definition TITLE_LABEL :: jstring where
  "TITLE_LABEL = [55357, 56520, 32, 47785, 54364, 51452, 44032, 32, 45824, 48708, 32,
                  51200, 54217, 44032, 32, 51333, 47785, 32, 50508, 47548]"

definition GEON :: nat where "GEON = 44148"

definition mk_title :: "jstring \<Rightarrow> nat \<Rightarrow> jstring" where
  "mk_title timestamp n =
     str ''['' @ timestamp @ str ''] '' @ TITLE_LABEL @ str '' ('' @ show_nat n @ [GEON] @ str '')''"

text \<open>
  \<open>k\<close> numbers the call within the run, for the clock and the Slack oracle. The body text
  of the attachment lists the candidates of \<open>stocks\<close>; the message keeps them as \<open>items\<close>.
\<close>

definition sendSlackNotification :: "world \<Rightarrow> nat \<Rightarrow> candidate list \<Rightarrow> state \<Rightarrow> exn option \<times> state" where
  "sendSlackNotification w k stocks s =
     (case (env w ''SLACK_TOKEN'', env w ''SLACK_CHANNEL_ID'') of
        (Some token, Some chan) \<Rightarrow>
          if token = [] \<or> chan = [] \<or> length stocks = 0 then (None, s)
          else
            let s' = emit (PostMessage \<lparr>channel = chan,
                                        title = mk_title (getKSTTimestamp w k) (length stocks),
                                        items = stocks\<rparr>) s
            in if postMessage_ok w k then (None, s') else (Some SlackError, s')
      | _ \<Rightarrow> (None, s))"

section \<open>\<open>scrapeStockData\<close> (lines 83-288)\<close>

definition SKIP_LINE :: "jstring \<Rightarrow> jstring" where
  "SKIP_LINE c = c @ [NEWLINE]"

definition isFirstMonday :: "world \<Rightarrow> bool" where
  "isFirstMonday w = (getDay w = 1 \<and> getDate w \<le> 7)"

text \<open>Lines 91-99: the monthly reset.\<close>

definition reset_skip_list :: "world \<Rightarrow> state \<Rightarrow> exn option \<times> state" where
  "reset_skip_list w s =
     (if isFirstMonday w then
        (case unlink_result w of
           None \<Rightarrow> (None, emit Unlink s)
         | Some c \<Rightarrow> if c \<noteq> ''ENOENT'' then (Some (FsError c), emit Unlink s)
                     else (None, emit Unlink s))
      else (None, s))"

text \<open>Lines 102-110: loading the skip list.\<close>

definition load_skip_codes :: "world \<Rightarrow> exn + jstring set" where
  "load_skip_codes w =
     (case readFile_result w of
        Inr skipData \<Rightarrow> Inr (set (filter (\<lambda>c. trim c \<noteq> []) (split_on NEWLINE skipData)))
      | Inl c \<Rightarrow> if c \<noteq> ''ENOENT'' then Inl (FsError c) else Inr {})"

definition error_row :: "jstring \<Rightarrow> row" where
  "error_row c = \<lparr>name = ERROR_SENTINEL, currentPrice = ERROR_SENTINEL,
                  targetPrice = ERROR_SENTINEL, marketCap = ERROR_SENTINEL, code = c\<rparr>"

text \<open>The \<open>catch\<close> block (lines 244-248) and the \<open>finally\<close> block (lines 249-258).\<close>

definition catch_item :: "jstring \<Rightarrow> state \<Rightarrow> state" where
  "catch_item c s = s\<lparr>results := results s @ [error_row c]\<rparr>"

definition finally_item :: "world \<Rightarrow> nat \<Rightarrow> bool \<Rightarrow> state \<Rightarrow> exn option \<times> state" where
  "finally_item w index page s =
     (if page then
        (if page_close_ok w index then (None, emit (Sleep (getRandomDelay w index)) (emit ClosePage s))
         else (Some BrowserError, emit ClosePage s))
      else (None, emit (Sleep (getRandomDelay w index)) s))"

text \<open>One iteration of the loop of line 140.\<close>

definition process_item :: "world \<Rightarrow> nat \<Rightarrow> jstring \<Rightarrow> state \<Rightarrow> exn option \<times> state" where
  "process_item w index c s0 =
     (let s1 = emit (Fetch c) s0 in
      case fetch w index c of
        NewPageFailed \<Rightarrow> finally_item w index False (catch_item c s1)
      | PageFailed \<Rightarrow> finally_item w index True (catch_item c s1)
      | Extracted d \<Rightarrow>
          let s2 = s1\<lparr>results := results s1 @ [mk_row c d]\<rparr>;
              analysed = (\<lambda>s. s\<lparr>notificationBatch := analyse (env w) c d (notificationBatch s)\<rparr>)
          in if targetPrice d = TARGET_UNAVAILABLE then
               (case appendFile_result w index of
                  Some e \<Rightarrow> finally_item w index True (catch_item c (emit (AppendFile (SKIP_LINE c)) s2))
                | None \<Rightarrow> finally_item w index True (analysed (emit (AppendFile (SKIP_LINE c)) s2)))
             else finally_item w index True (analysed s2))"

fun scrape_loop :: "world \<Rightarrow> nat \<Rightarrow> jstring list \<Rightarrow> state \<Rightarrow> exn option \<times> state" where
  "scrape_loop w index [] s = (None, s)"
| "scrape_loop w index (c # rest) s =
     (case process_item w index c s of
        (Some e, s') \<Rightarrow> (Some e, s')
      | (None, s') \<Rightarrow> scrape_loop w (Suc index) rest s')"

subsection \<open>Dispatch (lines 273-287)\<close>

definition BATCH_SIZE :: nat where "BATCH_SIZE = 5"

definition compare_gap :: "candidate \<Rightarrow> candidate \<Rightarrow> jsnum" where
  "compare_gap a b = js_sub (gap a) (gap b)"

text \<open>
  \<open>Array.prototype.sort\<close> is stable, and with a consistent comparator its result is the
  stable sorted arrangement, which insertion from the right computes: an element goes
  behind those it compares greater than.
\<close>

fun insert_by :: "('a \<Rightarrow> 'a \<Rightarrow> jsnum) \<Rightarrow> 'a \<Rightarrow> 'a list \<Rightarrow> 'a list" where
  "insert_by cmp x [] = [x]"
| "insert_by cmp x (y # ys) =
     (if js_gt (cmp x y) (Fin 0) then y # insert_by cmp x ys else x # y # ys)"

definition sort_by :: "('a \<Rightarrow> 'a \<Rightarrow> jsnum) \<Rightarrow> 'a list \<Rightarrow> 'a list" where
  "sort_by cmp xs = foldr (insert_by cmp) xs []"

function dispatch_loop :: "world \<Rightarrow> nat \<Rightarrow> candidate list \<Rightarrow> state \<Rightarrow> exn option \<times> state" where
  "dispatch_loop w i batch s =
     (if i < length batch then
        (case sendSlackNotification w (i div BATCH_SIZE) (take BATCH_SIZE (drop i batch)) s of
           (Some e, s') \<Rightarrow> (Some e, s')
         | (None, s') \<Rightarrow>
             dispatch_loop w (i + BATCH_SIZE) batch
               (if i + BATCH_SIZE < length batch then emit (Sleep 1000) s' else s'))
      else (None, s))"
  by pat_completeness auto
termination
  by (relation "measure (\<lambda>(w, i, batch, s). length batch - i)") (auto simp: BATCH_SIZE_def)

declare dispatch_loop.simps [simp del]

definition dispatch :: "world \<Rightarrow> state \<Rightarrow> exn option \<times> state" where
  "dispatch w s =
     (if length (notificationBatch s) > 0 then
        let sorted = sort_by compare_gap (notificationBatch s)
        in dispatch_loop w 0 sorted (s\<lparr>notificationBatch := sorted\<rparr>)
      else (None, s))"

subsection \<open>The run\<close>

text \<open>From line 114 on, for the universe \<open>allStockCodes\<close> and the loaded \<open>skipCodes\<close>.\<close>

definition run_codes :: "world \<Rightarrow> jstring list \<Rightarrow> jstring set \<Rightarrow> state \<Rightarrow> exn option \<times> state" where
  "run_codes w allStockCodes skipCodes s =
     (let stockCodes = filter (\<lambda>c. c \<notin> skipCodes) allStockCodes in
      if length allStockCodes = 0 then (None, s)
      else if \<not> launch_ok w then (Some BrowserError, emit Launch s)
      else
        (case scrape_loop w 0 stockCodes (emit Launch s) of
           (Some e, s') \<Rightarrow> (Some e, s')
         | (None, s') \<Rightarrow>
             if \<not> browser_close_ok w then (Some BrowserError, emit CloseBrowser s')
             else dispatch w (emit CloseBrowser s')))"

definition scrapeStockData :: "world \<Rightarrow> exn option \<times> state" where
  "scrapeStockData w =
     (case reset_skip_list w init_state of
        (Some e, s) \<Rightarrow> (Some e, s)
      | (None, s) \<Rightarrow>
          (case load_skip_codes w of
             Inl e \<Rightarrow> (Some e, emit ReadFile s)
           | Inr skipCodes \<Rightarrow>
               (case env w ''STOCK_CODES'' of
                  None \<Rightarrow> (Some TypeError, emit ReadFile s)
                | Some v \<Rightarrow> run_codes w (split_on COMMA v) skipCodes (emit ReadFile s))))"

section \<open>The scheduler (lines 291-315)\<close>

datatype log_entry = LogStart | LogSkip | LogError exn | LogDone

record scheduler =
  isScraping :: bool
  console :: "log_entry list"
  started :: nat
  running :: nat

definition scheduler_init :: scheduler where
  "scheduler_init = \<lparr>isScraping = False, console = [], started = 0, running = 0\<rparr>"

definition log :: "log_entry \<Rightarrow> scheduler \<Rightarrow> scheduler" where
  "log l s = s\<lparr>console := console s @ [l]\<rparr>"

text \<open>
  The callback of line 298 runs in two uninterrupted pieces of the event loop. The first,
  \<open>on_trigger\<close>, is from the firing of the schedule to the \<open>await\<close> of line 308: it counts
  a call of \<open>scrapeStockData\<close> in \<open>started\<close> and a run in flight in \<open>running\<close>. The second,
  \<open>on_settled\<close>, is the \<open>catch\<close> and \<open>finally\<close> blocks, run when the promise of that call
  settles, rejected with \<open>Some e\<close> or fulfilled.
\<close>

definition on_trigger :: "scheduler \<Rightarrow> scheduler" where
  "on_trigger s0 =
     (let s = log LogStart s0 in
      if isScraping s then log LogSkip s
      else s\<lparr>isScraping := True, started := started s + 1, running := running s + 1\<rparr>)"

definition on_settled :: "exn option \<Rightarrow> scheduler \<Rightarrow> scheduler" where
  "on_settled r s0 =
     (let s = s0\<lparr>running := running s0 - 1\<rparr>;
          s1 = (case r of Some e \<Rightarrow> log (LogError e) s | None \<Rightarrow> s)
      in log LogDone (s1\<lparr>isScraping := False\<rparr>))"

datatype sched_event = Trigger | Settled "exn option"

text \<open>A promise settles only for a run in flight.\<close>

fun sched_step :: "scheduler \<Rightarrow> sched_event \<Rightarrow> scheduler" where
  "sched_step s Trigger = on_trigger s"
| "sched_step s (Settled r) = (if running s = 0 then s else on_settled r s)"

definition sched_run :: "sched_event list \<Rightarrow> scheduler" where
  "sched_run evs = foldl sched_step scheduler_init evs"

section \<open>Vocabulary of the statements\<close>

text \<open>
  A number as the page prints it: decimal digits with grouping commas, at least one digit.
  Its value is read after the commas are removed.
\<close>

definition grouped_number :: "jstring \<Rightarrow> bool" where
  "grouped_number a = ((\<forall>c \<in> set a. is_digit c \<or> c = COMMA) \<and> (\<exists>c \<in> set a. is_digit c))"

definition number_value :: "jstring \<Rightarrow> nat" where
  "number_value a = digits_val (replace_all COMMA a)"

text \<open>What a trace holds: the codes fetched, the lines appended, the messages posted.\<close>

definition fetched :: "event list \<Rightarrow> jstring list" where
  "fetched tr = concat (map (\<lambda>e. case e of Fetch c \<Rightarrow> [c] | _ \<Rightarrow> []) tr)"

definition appended :: "event list \<Rightarrow> jstring list" where
  "appended tr = concat (map (\<lambda>e. case e of AppendFile l \<Rightarrow> [l] | _ \<Rightarrow> []) tr)"

definition posted :: "event list \<Rightarrow> message list" where
  "posted tr = concat (map (\<lambda>e. case e of PostMessage m \<Rightarrow> [m] | _ \<Rightarrow> []) tr)"

text \<open>The events a step added to the trace of the state it started from.\<close>

definition added :: "state \<Rightarrow> state \<Rightarrow> event list" where
  "added s s' = drop (length (trace s)) (trace s')"

text \<open>The two outcomes of a fetch that the claims tell apart.\<close>

definition target_unavailable :: "world \<Rightarrow> nat \<Rightarrow> jstring \<Rightarrow> bool" where
  "target_unavailable w i c =
     (case fetch w i c of Extracted d \<Rightarrow> targetPrice d = TARGET_UNAVAILABLE | _ \<Rightarrow> False)"

definition fetch_failed :: "world \<Rightarrow> nat \<Rightarrow> jstring \<Rightarrow> bool" where
  "fetch_failed w i c = (case fetch w i c of Extracted d \<Rightarrow> False | _ \<Rightarrow> True)"

text \<open>The entries one iteration leaves in \<open>results\<close>.\<close>

definition item_rows :: "world \<Rightarrow> nat \<Rightarrow> jstring \<Rightarrow> row list" where
  "item_rows w i c =
     (case fetch w i c of Extracted d \<Rightarrow> [mk_row c d] | _ \<Rightarrow> [])
     @ (if fetch_failed w i c \<or> (target_unavailable w i c \<and> appendFile_result w i \<noteq> None)
        then [error_row c] else [])"

text \<open>The lines appended for the codes of a list, numbered from \<open>i\<close>.\<close>

definition skip_lines :: "world \<Rightarrow> nat \<Rightarrow> jstring list \<Rightarrow> jstring list" where
  "skip_lines w i cs =
     map (\<lambda>(j, c). SKIP_LINE c) (filter (\<lambda>(j, c). target_unavailable w j c) (enumerate i cs))"

text \<open>The browser session stays usable: pages close, as far as they are opened.\<close>

definition pages_close :: "world \<Rightarrow> bool" where
  "pages_close w = (\<forall>i. page_close_ok w i)"

text \<open>The Slack channel is configured and accepts every message.\<close>

definition slack_ready :: "world \<Rightarrow> bool" where
  "slack_ready w =
     (\<not> falsy (env w ''SLACK_TOKEN'') \<and> \<not> falsy (env w ''SLACK_CHANNEL_ID'')
      \<and> (\<forall>k. postMessage_ok w k))"

text \<open>
  The batches of the dispatch as the specification words them: the \<open>k\<close>-th batch of a list,
  the number of batches, the message that carries a batch, and a separator put between
  consecutive elements.
\<close>

definition batch_no :: "nat \<Rightarrow> 'a list \<Rightarrow> 'a list" where
  "batch_no k xs = take BATCH_SIZE (drop (k * BATCH_SIZE) xs)"

definition batch_count :: "'a list \<Rightarrow> nat" where
  "batch_count xs = (length xs + BATCH_SIZE - 1) div BATCH_SIZE"

definition batch_message :: "world \<Rightarrow> nat \<Rightarrow> candidate list \<Rightarrow> message" where
  "batch_message w k xs =
     \<lparr>channel = to_string (env w ''SLACK_CHANNEL_ID''),
      title = mk_title (getKSTTimestamp w k) (length (batch_no k xs)),
      items = batch_no k xs\<rparr>"

fun intersperse :: "'a \<Rightarrow> 'a list \<Rightarrow> 'a list" where
  "intersperse sep [] = []"
| "intersperse sep [x] = [x]"
| "intersperse sep (x # y # zs) = x # sep # intersperse sep (y # zs)"

text \<open>A message shows the number of its own candidates, a slice of at most \<open>BATCH_SIZE\<close>.\<close>

definition own_count :: "world \<Rightarrow> candidate list \<Rightarrow> message \<Rightarrow> bool" where
  "own_count w xs m = (\<exists>j. items m = take BATCH_SIZE (drop j xs) \<and> items m \<noteq> []
      \<and> title m = mk_title (getKSTTimestamp w (j div BATCH_SIZE)) (length (items m)))"

text \<open>Every gap of a batch is a double other than \<open>NaN\<close>.\<close>

definition gaps_ok :: "candidate list \<Rightarrow> bool" where
  "gaps_ok xs = (\<forall>x \<in> set xs. wf_num (gap x) \<and> gap x \<noteq> NaN)"

definition gap_le :: "candidate \<Rightarrow> candidate \<Rightarrow> bool" where
  "gap_le a b = js_le (gap a) (gap b)"

section \<open>Sample inputs\<close>

text \<open>Concrete inputs at which the statements below are instantiated.\<close>

definition sample_env :: "string \<Rightarrow> environment" where
  "sample_env thr =
     (\<lambda>k. if k = ''PRICE_GAP_PERCENTAGE'' then Some (str thr)
          else if k = ''MIN_MARKET_CAP_BILLIONS'' then Some (str ''0'')
          else if k = ''SLACK_TOKEN'' then Some (str ''xoxb-1'')
          else if k = ''SLACK_CHANNEL_ID'' then Some (str ''C01'')
          else if k = ''STOCK_CODES'' then Some (str ''A,B,C'')
          else None)"

definition sample_data :: stockData where
  "sample_data = \<lparr>name = str ''Alpha'', currentPrice = str ''8,000'',
                   targetPrice = str ''10,000'', marketCap = str ''2'' @ [JO] @ str ''4,674'' @ [EOK]\<rparr>"

text \<open>
  A world on a Tuesday: the skip list holds \<open>B\<close>, the page of \<open>A\<close> has every field, the
  page of \<open>C\<close> has no target price, every other page fails to load.
\<close>

definition sample_fetch :: "nat \<Rightarrow> jstring \<Rightarrow> fetch_result" where
  "sample_fetch i c =
     (if c = str ''A'' then Extracted sample_data
      else if c = str ''C'' then Extracted (sample_data\<lparr>targetPrice := TARGET_UNAVAILABLE\<rparr>)
      else PageFailed)"

definition sample_world :: world where
  "sample_world =
     \<lparr>getDay = 2, getDate = 7, env = sample_env ''15'', unlink_result = None,
      readFile_result = Inr (str ''B'' @ [NEWLINE]), launch_ok = True, fetch = sample_fetch,
      appendFile_result = (\<lambda>i. None), page_close_ok = (\<lambda>i. True),
      getRandomDelay = (\<lambda>i. 2000 + 1000 * (i mod 4)), browser_close_ok = True,
      getKSTTimestamp = (\<lambda>k. str ''2025-01-07 07:00''), postMessage_ok = (\<lambda>k. True)\<rparr>"

text \<open>A batch of \<open>n\<close> candidates with the gaps \<open>20 + n - 1\<close> down to 20, in that order.\<close>

definition sample_batch :: "nat \<Rightarrow> candidate list" where
  "sample_batch n = map (\<lambda>k. mk_candidate (str ''A'') sample_data (Fin (of_nat (20 + k)))) (rev [0..<n])"

text \<open>
  The sample world with the universe \<open>C,A\<close> and a skip list that cannot be written: every
  \<open>appendFile\<close> is rejected with \<open>EACCES\<close>.
\<close>

definition failing_append_world :: world where
  "failing_append_world =
     sample_world\<lparr>env := (sample_env ''15'')(''STOCK_CODES'' \<mapsto> str ''C,A''),
                  appendFile_result := (\<lambda>i. Some ''EACCES'')\<rparr>"

text \<open>
  The sample world without a skip list, so that \<open>A\<close>, \<open>B\<close> and \<open>C\<close> are all processed, in which
  the page of the second item cannot be closed: \<open>page.close()\<close> is rejected for it.
\<close>

definition failing_close_world :: world where
  "failing_close_world =
     sample_world\<lparr>readFile_result := Inl ''ENOENT'', page_close_ok := (\<lambda>i. i \<noteq> 1)\<rparr>"

section \<open>Facts about the number model\<close>

lemma quotient_of_pos:
  assumes "0 < (a::rat)"
  obtains n d where "quotient_of a = (n, d)" "0 < n" "0 < d" "a = of_int n / of_int d"
proof -
  obtain n d where nd: "quotient_of a = (n, d)" by (cases "quotient_of a")
  have d: "0 < d" using nd quotient_of_denom_pos by blast
  have a: "a = of_int n / of_int d" using nd quotient_of_div by blast
  have "0 < n" using assms a d by (simp add: zero_less_divide_iff)
  then show ?thesis using that nd d a by blast
qed

lemma binary_exponent_bounds:
  assumes "0 < (a::rat)"
  shows "2 powi (binary_exponent a) \<le> a \<and> a < 2 powi (binary_exponent a + 1)"
proof -
  define k where "k = bitlen (fst (quotient_of a)) - bitlen (snd (quotient_of a))"
  have e: "binary_exponent a = (if 2 powi k \<le> a then k else k - 1)"
    by (simp add: binary_exponent_def k_def Let_def)
  obtain n d where nd: "quotient_of a = (n, d)" "0 < n" "0 < d" "a = of_int n / of_int d"
    using quotient_of_pos [OF assms(1)] by blast
  have bn: "2 ^ nat (bitlen n - 1) \<le> n" "n < 2 ^ nat (bitlen n)"
    using bitlen_bounds [OF nd(2)] by auto
  have bd: "2 ^ nat (bitlen d - 1) \<le> d" "d < 2 ^ nat (bitlen d)"
    using bitlen_bounds [OF nd(3)] by auto
  have pn: "0 < bitlen n" "0 < bitlen d"
    using nd(2,3) bitlen_eq_zero_iff [of n] bitlen_eq_zero_iff [of d] bitlen_nonneg [of n] bitlen_nonneg [of d] by linarith+
  have k: "k = bitlen n - bitlen d" using k_def nd(1) by simp
  have n_lo: "(2::rat) powi (bitlen n - 1) \<le> of_int n"
  proof -
    have "(2::rat) powi (bitlen n - 1) = of_int (2 ^ nat (bitlen n - 1))"
      using pn by (simp add: power_int_nonneg_exp)
    also have "\<dots> \<le> of_int n" using bn(1) by (simp only: of_int_le_iff)
    finally show ?thesis .
  qed
  have n_hi: "of_int n < (2::rat) powi (bitlen n)"
  proof -
    have "(of_int n :: rat) < of_int (2 ^ nat (bitlen n))" using bn(2) by (simp only: of_int_less_iff)
    also have "\<dots> = (2::rat) powi (bitlen n)" using pn by (simp add: power_int_nonneg_exp)
    finally show ?thesis .
  qed
  have d_lo: "(2::rat) powi (bitlen d - 1) \<le> of_int d"
  proof -
    have "(2::rat) powi (bitlen d - 1) = of_int (2 ^ nat (bitlen d - 1))"
      using pn by (simp add: power_int_nonneg_exp)
    also have "\<dots> \<le> of_int d" using bd(1) by (simp only: of_int_le_iff)
    finally show ?thesis .
  qed
  have d_hi: "of_int d < (2::rat) powi (bitlen d)"
  proof -
    have "(of_int d :: rat) < of_int (2 ^ nat (bitlen d))" using bd(2) by (simp only: of_int_less_iff)
    also have "\<dots> = (2::rat) powi (bitlen d)" using pn by (simp add: power_int_nonneg_exp)
    finally show ?thesis .
  qed
  have hi: "a < 2 powi (k + 1)"
  proof -
    have "a < 2 powi (bitlen n) / 2 powi (bitlen d - 1)"
      unfolding nd(4) using n_hi d_lo nd(2,3) by (intro frac_less) auto
    also have "\<dots> = 2 powi (bitlen n - (bitlen d - 1))" by (simp add: power_int_diff)
    also have "bitlen n - (bitlen d - 1) = k + 1" using k by simp
    finally show ?thesis .
  qed
  have lo: "2 powi (k - 1) < a"
  proof -
    have "k - 1 = (bitlen n - 1) - bitlen d" using k by simp
    then have "(2::rat) powi (k - 1) = 2 powi ((bitlen n - 1) - bitlen d)" by (rule arg_cong)
    also have "\<dots> = 2 powi (bitlen n - 1) / 2 powi (bitlen d)" by (simp add: power_int_diff)
    also have "\<dots> < a"
      unfolding nd(4) using n_lo d_hi nd(2,3) by (intro frac_less2) auto
    finally show ?thesis .
  qed
  show ?thesis
  proof (cases "2 powi k \<le> a")
    case True then show ?thesis using hi e by simp
  next
    case False then show ?thesis using lo e by simp
  qed
qed

lemma round_half_even_of_int: "round_half_even (of_int m) = m"
  by (simp add: round_half_even_def)

lemma round_half_even_ge_1: "1 \<le> x \<Longrightarrow> 1 \<le> round_half_even x"
proof -
  assume "1 \<le> x"
  then have "1 \<le> \<lfloor>x\<rfloor>" by (simp add: le_floor_iff)
  then show ?thesis by (auto simp: round_half_even_def Let_def)
qed

lemma pow2_less_imp_less:
  assumes "(2::rat) powi m < 2 powi n"
  shows "m < n"
proof (rule ccontr)
  assume "\<not> m < n"
  then have "n \<le> m" by simp
  then have "(2::rat) powi n \<le> 2 powi m" by (intro power_int_increasing) auto
  then show False using assms by simp
qed

lemma binary_exponent_eq:
  assumes "0 < a" "2 powi e \<le> a" "a < 2 powi (e + 1)"
  shows "binary_exponent a = e"
proof -
  let ?b = "binary_exponent a"
  have b: "2 powi ?b \<le> a" "a < 2 powi (?b + 1)"
    using binary_exponent_bounds [OF assms(1)] by auto
  have "(2::rat) powi e < 2 powi (?b + 1)" using assms(2) b(2) by simp
  then have 1: "e < ?b + 1" by (rule pow2_less_imp_less)
  have "(2::rat) powi ?b < 2 powi (e + 1)" using assms(3) b(1) by simp
  then have 2: "?b < e + 1" by (rule pow2_less_imp_less)
  show ?thesis using 1 2 by simp
qed

lemma fl_neg: "fl (- q) = js_neg (fl q)"
  by (simp add: fl_def Let_def del: power_int_numeral)

lemma round_at_exact:
  assumes "a = of_int m * 2 powi j" "max (e - 52) (- 1074) \<le> j"
  shows "round_at e a = a"
proof -
  let ?u = "max (e - 52) (- 1074)"
  have "a / 2 powi ?u = of_int m * 2 powi (j - ?u)"
    using assms(1) by (simp add: power_int_diff)
  also have "\<dots> = of_int m * 2 ^ nat (j - ?u)"
    using assms(2) by (simp add: power_int_nonneg_exp)
  also have "\<dots> = of_int (m * 2 ^ nat (j - ?u))" by simp
  finally have q: "a / 2 powi ?u = of_int (m * 2 ^ nat (j - ?u))" .
  have "round_at e a = of_int (m * 2 ^ nat (j - ?u)) * 2 powi ?u"
    unfolding round_at_def Let_def q round_half_even_of_int ..
  also have "\<dots> = a / 2 powi ?u * 2 powi ?u" using q by simp
  also have "\<dots> = a" by simp
  finally show ?thesis .
qed

lemma fl_int_pos:
  assumes "0 < n" "n \<le> 2 ^ 53"
  shows "fl (of_int n) = Fin (of_int n)"
proof -
  let ?a = "of_int n :: rat"
  let ?e = "binary_exponent ?a"
  have pos: "0 < ?a" using assms(1) by simp
  have b: "2 powi ?e \<le> ?a" "?a < 2 powi (?e + 1)"
    using binary_exponent_bounds [OF pos] by auto
  have "?a \<le> of_int (2 ^ 53)" using assms(2) by (simp only: of_int_le_iff)
  also have "\<dots> = 2 powi 53" by simp
  finally have le: "?a \<le> 2 powi 53" .
  have "(2::rat) powi 53 < 2 powi 54" by simp
  then have "(2::rat) powi ?e < 2 powi 54" using b(1) le by linarith
  then have e: "?e < 54" by (rule pow2_less_imp_less)
  have r: "round_at ?e ?a = ?a"
  proof (cases "?e = 53")
    case True
    then have "?a = 2 powi 53" using b(1) le by simp
    then have "?a = of_int 1 * 2 powi 53" by simp
    then show ?thesis using True by (intro round_at_exact [where m = 1 and j = 53]) auto
  next
    case False
    then have "?e \<le> 52" using e by simp
    moreover have "?a = of_int n * 2 powi 0" by simp
    ultimately show ?thesis by (intro round_at_exact [where m = n and j = 0]) auto
  qed
  have "\<not> 2 powi 1024 \<le> ?a" using le by simp
  then show ?thesis using pos r unfolding fl_def Let_def
    by (simp del: power_int_numeral)
qed

lemma fl_int:
  assumes "\<bar>n\<bar> \<le> 2 ^ 53"
  shows "fl (of_int n) = Fin (of_int n)"
proof -
  consider "n = 0" | "0 < n" | "n < 0" by linarith
  then show ?thesis
  proof cases
    case 1 then show ?thesis by (simp add: fl_def)
  next
    case 2 then show ?thesis using assms fl_int_pos by simp
  next
    case 3
    then have "fl (of_int (- n)) = Fin (of_int (- n))" using assms by (intro fl_int_pos) auto
    then have "js_neg (fl (of_int n)) = Fin (- of_int n)" using fl_neg [of "of_int n"] by simp
    then show ?thesis by (cases "fl (of_int n)") auto
  qed
qed

lemma fl_nat: "n \<le> 2 ^ 53 \<Longrightarrow> fl (of_nat n) = Fin (of_nat n)"
  using fl_int [of "int n"] by simp

lemma on_grid_iff: "on_grid x \<longleftrightarrow> (\<exists>m::int. x = of_int m * 2 powi (- 1074))"
proof
  assume "on_grid x"
  then obtain n :: int where "x * 2 powi 1074 = of_int n"
    unfolding on_grid_def of_int_floor_cancel by blast
  then have "x = of_int n / 2 powi 1074"
    by (metis nonzero_mult_div_cancel_right power_int_eq_0_iff zero_neq_numeral)
  then have "x = of_int n * 2 powi (- 1074)"
    by (simp only: power_int_minus_divide times_divide_eq_right mult_1_right)
  then show "\<exists>m::int. x = of_int m * 2 powi (- 1074)" by blast
next
  assume "\<exists>m::int. x = of_int m * 2 powi (- 1074)"
  then obtain m :: int where m: "x = of_int m * 2 powi (- 1074)" by blast
  have "(2::rat) powi (- 1074) * 2 powi 1074 = 2 powi (- 1074 + 1074)"
    by (subst power_int_add) auto
  then have "(2::rat) powi (- 1074) * 2 powi 1074 = 1" by simp
  then have "x * 2 powi 1074 = of_int m" unfolding m by (simp only: mult.assoc mult_1_right)
  then show "on_grid x" unfolding on_grid_def by (simp only: floor_of_int)
qed

lemma on_grid_scaled:
  assumes "- 1074 \<le> j"
  shows "on_grid (of_int m * 2 powi j)"
proof -
  have "(2::rat) powi j = 2 powi ((j + 1074) + (- 1074))" by simp
  also have "\<dots> = 2 powi (j + 1074) * 2 powi (- 1074)" by (subst power_int_add) auto
  also have "(2::rat) powi (j + 1074) = of_int (2 ^ nat (j + 1074))"
    using assms by (simp add: power_int_nonneg_exp)
  finally have "of_int m * (2::rat) powi j = of_int (m * 2 ^ nat (j + 1074)) * 2 powi (- 1074)"
    by (simp only: of_int_mult mult.assoc)
  then show ?thesis unfolding on_grid_iff by blast
qed

lemma on_grid_of_int: "on_grid (of_int n)"
  using on_grid_scaled [of 0 n] by simp

lemma on_grid_minus: "on_grid x \<Longrightarrow> on_grid (- x)"
  unfolding on_grid_iff by (metis mult_minus_left of_int_minus)

lemma round_at_grid: "on_grid (round_at e a)"
  unfolding round_at_def Let_def by (rule on_grid_scaled) simp

lemma wf_fl: "wf_num (fl q)"
  unfolding fl_def Let_def wf_num_def
  by (auto simp del: power_int_numeral simp: on_grid_of_int [of 0, simplified] round_at_grid on_grid_minus)

lemma grid_gap:
  assumes "on_grid x" "on_grid y" "y < x"
  shows "2 powi (- 1074) \<le> x - y"
proof -
  obtain m n :: int where m: "x = of_int m * 2 powi (- 1074)" and n: "y = of_int n * 2 powi (- 1074)"
    using assms(1,2) unfolding on_grid_iff by blast
  have "of_int n * (2::rat) powi (- 1074) < of_int m * 2 powi (- 1074)" using assms(3) m n by simp
  then have "(of_int n :: rat) < of_int m" by (simp only: mult_less_cancel_right_pos zero_less_power_int zero_less_numeral)
  then have "n + 1 \<le> m" by simp
  then have "(1::rat) \<le> of_int m - of_int n" by (metis add.commute le_diff_eq of_int_1 of_int_add of_int_le_iff)
  then have "1 * (2::rat) powi (- 1074) \<le> (of_int m - of_int n) * 2 powi (- 1074)"
    by (intro mult_right_mono) auto
  then show ?thesis unfolding m n by (simp only: left_diff_distrib mult_1_left)
qed

lemma round_at_pos:
  assumes "2 powi (- 1074) \<le> a" "2 powi e \<le> a"
  shows "0 < round_at e a"
proof -
  let ?j = "max (e - 52) (- 1074)"
  have u: "(2::rat) powi ?j \<le> a"
  proof (cases "e - 52 \<le> - 1074")
    case True then show ?thesis using assms(1) by (simp add: max_def del: power_int_numeral_neg_numeral)
  next
    case False
    have "(2::rat) powi (e - 52) \<le> 2 powi e" by (intro power_int_increasing) auto
    then show ?thesis using False assms(2) by (simp add: max_def)
  qed
  have "1 \<le> a / 2 powi ?j" using u by (simp add: le_divide_eq del: power_int_numeral_neg_numeral)
  then have "1 \<le> round_half_even (a / 2 powi ?j)" by (rule round_half_even_ge_1)
  then have "(0::rat) < of_int (round_half_even (a / 2 powi ?j))" by simp
  then show ?thesis unfolding round_at_def Let_def by (intro mult_pos_pos) auto
qed

lemma fl_pos_sign:
  assumes "2 powi (- 1074) \<le> a"
  shows "fl a = PInf \<or> (\<exists>r. fl a = Fin r \<and> 0 < r)"
proof -
  have "(0::rat) < 2 powi (- 1074)" by (intro zero_less_power_int) simp
  then have pos: "0 < a" using assms by linarith
  have "0 < round_at (binary_exponent a) a"
    using round_at_pos [OF assms] binary_exponent_bounds [OF pos] by blast
  then show ?thesis using pos unfolding fl_def Let_def by (simp del: power_int_numeral power_int_numeral_neg_numeral)
qed

lemma fl_neg_sign:
  assumes "2 powi (- 1074) \<le> a"
  shows "fl (- a) = NInf \<or> (\<exists>r. fl (- a) = Fin r \<and> r < 0)"
  using fl_pos_sign [OF assms] unfolding fl_neg by auto

lemma fl_diff_gt0:
  assumes "on_grid x" "on_grid y"
  shows "js_gt (fl (x - y)) (Fin 0) \<longleftrightarrow> y < x"
proof -
  consider "y < x" | "x = y" | "x < y" by linarith
  then show ?thesis
  proof cases
    case 1
    then show ?thesis using fl_pos_sign [OF grid_gap [OF assms 1]]
      by (auto simp: js_gt_def js_lt_def)
  next
    case 2 then show ?thesis by (simp add: fl_def js_gt_def js_lt_def)
  next
    case 3
    have "fl (x - y) = fl (- (y - x))" by simp
    then show ?thesis using 3 fl_neg_sign [OF grid_gap [OF assms(2,1) 3]]
      by (auto simp: js_gt_def js_lt_def)
  qed
qed

lemma js_sub_gt0:
  assumes "wf_num a" "wf_num b" "a \<noteq> NaN" "b \<noteq> NaN"
  shows "js_gt (js_sub a b) (Fin 0) \<longleftrightarrow> js_lt b a"
proof (cases a; cases b)
  fix x y assume "a = Fin x" "b = Fin y"
  then show ?thesis using assms fl_diff_gt0 [of x y]
    by (auto simp: js_sub_def wf_num_def js_lt_def)
qed (use assms in \<open>auto simp: js_sub_def js_gt_def js_lt_def\<close>)

lemma wf_js_mul: "wf_num (js_mul a b)"
  by (cases a; cases b) (auto simp: wf_fl, auto simp: wf_num_def)

lemma js_le_refl: "a \<noteq> NaN \<Longrightarrow> js_le a a"
  by (cases a) auto

lemma js_le_trans: "js_le a b \<Longrightarrow> js_le b c \<Longrightarrow> js_le a c"
  by (cases a; cases b; cases c) auto

lemma js_le_total: "a \<noteq> NaN \<Longrightarrow> b \<noteq> NaN \<Longrightarrow> js_le a b \<or> js_le b a"
  by (cases a; cases b) auto

lemma not_js_lt: "a \<noteq> NaN \<Longrightarrow> b \<noteq> NaN \<Longrightarrow> \<not> js_lt b a \<longleftrightarrow> js_le a b"
  by (cases a; cases b) (auto simp: js_lt_def)

lemma round_half_even_le:
  assumes "x \<le> of_int n"
  shows "round_half_even x \<le> n"
proof -
  have f: "\<lfloor>x\<rfloor> \<le> n" using assms by (simp add: floor_le_iff)
  show ?thesis
  proof (cases "\<lfloor>x\<rfloor> = n")
    case True
    then have "x = of_int n" using assms by (metis of_int_floor_le order_antisym)
    then show ?thesis by (simp add: round_half_even_of_int)
  next
    case False
    then have "\<lfloor>x\<rfloor> + 1 \<le> n" using f by simp
    then show ?thesis using f by (auto simp: round_half_even_def Let_def)
  qed
qed

lemma fl_eval:
  assumes "0 < a" "2 powi e \<le> a" "a < 2 powi (e + 1)" "- 1022 \<le> e" "e < 1023"
  shows "fl a = Fin (of_int (round_half_even (a / 2 powi (e - 52))) * 2 powi (e - 52))"
proof -
  let ?u = "(2::rat) powi (e - 52)"
  let ?m = "round_half_even (a / ?u)"
  have be: "binary_exponent a = e" using binary_exponent_eq [OF assms(1,2,3)] .
  have mx: "max (e - 52) (- 1074) = e - 52" using assms(4) by simp
  have r: "round_at e a = of_int ?m * ?u" unfolding round_at_def Let_def mx ..
  have upos: "0 < ?u" by (intro zero_less_power_int) simp
  have "a / ?u < 2 powi (e + 1) / ?u" using assms(3) upos by (simp add: divide_strict_right_mono)
  also have "\<dots> = 2 powi ((e + 1) - (e - 52))" by (subst power_int_diff) auto
  also have "\<dots> = of_int (2 ^ 53)" by simp
  finally have "?m \<le> 2 ^ 53" by (intro round_half_even_le) simp
  then have "(of_int ?m :: rat) \<le> of_int (2 ^ 53)" by (simp only: of_int_le_iff)
  then have "of_int ?m * ?u \<le> of_int (2 ^ 53) * ?u" using upos by (intro mult_right_mono) auto
  also have "of_int (2 ^ 53) * ?u = 2 powi 53 * ?u" by simp
  also have "\<dots> = 2 powi (53 + (e - 52))" by (subst power_int_add) auto
  also have "\<dots> = 2 powi (e + 1)" by (simp add: algebra_simps)
  also have "\<dots> < 2 powi 1024" using assms(5) by (intro power_int_strict_increasing) auto
  finally have "\<not> 2 powi 1024 \<le> round_at e a" unfolding r by simp
  then show ?thesis using assms(1) unfolding fl_def Let_def
    by (simp add: be r del: power_int_numeral)
qed

lemma round_half_even_frac:
  assumes "0 < d"
  shows "round_half_even (of_int n / of_int d) =
           (if 2 * (n mod d) < d then n div d
            else if d < 2 * (n mod d) then n div d + 1
            else if even (n div d) then n div d else n div d + 1)"
proof -
  let ?x = "of_int n / of_int d :: rat"
  have f: "\<lfloor>?x\<rfloor> = n div d" by (simp add: floor_divide_of_int_eq)
  have dpos: "(0::rat) < of_int d" using assms by simp
  have "of_int n = (of_int (n div d) * of_int d + of_int (n mod d) :: rat)"
    by (metis of_int_add of_int_mult div_mult_mod_eq)
  then have "?x = of_int (n div d) + of_int (n mod d) / of_int d"
    using dpos by (simp add: field_simps)
  then have fr: "?x - of_int (n div d) = of_int (n mod d) / of_int d" by simp
  have lt: "of_int (n mod d) / (of_int d :: rat) < 1 / 2 \<longleftrightarrow> 2 * (n mod d) < d"
  proof -
    have "of_int (n mod d) / (of_int d :: rat) < 1 / 2 \<longleftrightarrow> (of_int (2 * (n mod d)) :: rat) < of_int d"
      using dpos by (simp add: field_simps)
    then show ?thesis by (simp only: of_int_less_iff)
  qed
  have gt: "1 / 2 < of_int (n mod d) / (of_int d :: rat) \<longleftrightarrow> d < 2 * (n mod d)"
  proof -
    have "1 / 2 < of_int (n mod d) / (of_int d :: rat) \<longleftrightarrow> (of_int d :: rat) < of_int (2 * (n mod d))"
      using dpos by (simp add: field_simps)
    then show ?thesis by (simp only: of_int_less_iff)
  qed
  show ?thesis unfolding round_half_even_def Let_def f fr lt gt ..
qed

lemma fl_one_fifth: "fl (1 / 5) = Fin (3602879701896397 / 18014398509481984)"
proof -
  have "round_half_even (36028797018963968 / 5) = 7205759403792794"
    using round_half_even_frac [of 5 36028797018963968] by simp
  then show ?thesis by (subst fl_eval [where e = "- 3"]) simp_all
qed

lemma gap_example: "gap_of (Fin 8000) (Fin 10000) = Fin 20"
proof -
  have 1: "js_sub (Fin 10000) (Fin 8000) = Fin 2000"
    using fl_int [of 2000] by (simp add: js_sub_def)
  have 2: "js_div (Fin 2000) (Fin 10000) = Fin (3602879701896397 / 18014398509481984)"
    using fl_one_fifth by simp
  have r: "round_half_even (90071992547409925 / 16) = 5629499534213120"
    using round_half_even_frac [of 16 90071992547409925] by simp
  have 3: "js_mul (Fin (3602879701896397 / 18014398509481984)) (Fin 100) = Fin 20"
    using r by (simp, subst fl_eval [where e = 4]) simp_all
  show ?thesis unfolding gap_of_def 1 2 3 ..
qed

section \<open>Facts about the strings and the market-capitalisation parser\<close>

lemma split_on_no_sep: "sep \<notin> set xs \<Longrightarrow> split_on sep xs = [xs]"
  by (induction xs) auto

lemma split_on_append:
  "sep \<notin> set xs \<Longrightarrow> split_on sep (xs @ sep # ys) = xs # split_on sep ys"
  by (induction xs) auto

lemma split_on_nonempty: "split_on sep xs \<noteq> []"
  by (induction xs) (auto split: list.splits)

lemma hd_split_on: "hd (split_on sep xs) = takeWhile (\<lambda>c. c \<noteq> sep) xs"
  by (induction xs) (auto split: list.splits simp: split_on_nonempty)

lemma digit_not_ws: "is_digit c \<Longrightarrow> \<not> is_ws c"
  by (auto simp: is_digit_def is_ws_def)

lemma parseInt_digits:
  assumes "ds \<noteq> []" "\<forall>c \<in> set ds. is_digit c"
  shows "parseInt ds = fl (of_nat (digits_val ds))"
proof -
  obtain c cs where ds: "ds = c # cs" using assms(1) by (cases ds) auto
  have c: "is_digit c" using assms(2) ds by simp
  have 1: "dropWhile is_ws ds = ds" using ds digit_not_ws [OF c] by simp
  have 2: "hd ds \<noteq> 43" "hd ds \<noteq> 45" using c ds by (auto simp: is_digit_def)
  have 3: "takeWhile is_digit ds = ds" using assms(2) by (simp add: takeWhile_eq_all_conv)
  show ?thesis unfolding parseInt_def Let_def 1 using assms(1) by (simp add: 2 3)
qed

lemma grouped_digits:
  assumes "grouped_number a"
  shows "replace_all COMMA a \<noteq> []" "\<forall>c \<in> set (replace_all COMMA a). is_digit c"
    "JO \<notin> set (replace_all COMMA a)" "EOK \<notin> set (replace_all COMMA a)"
    "JO \<notin> set a" "EOK \<notin> set a" "a \<noteq> []"
proof -
  obtain c where c: "c \<in> set a" "is_digit c" using assms by (auto simp: grouped_number_def)
  then have "c \<noteq> COMMA" by (auto simp: is_digit_def COMMA_def)
  then have "c \<in> set (replace_all COMMA a)" using c by (simp add: replace_all_def)
  then show "replace_all COMMA a \<noteq> []" by auto
  show "a \<noteq> []" using c by auto
  show "\<forall>c \<in> set (replace_all COMMA a). is_digit c"
    using assms by (auto simp: grouped_number_def replace_all_def)
  show "JO \<notin> set a" "EOK \<notin> set a"
    using assms by (auto simp: grouped_number_def is_digit_def COMMA_def JO_def EOK_def)
  then show "JO \<notin> set (replace_all COMMA a)" "EOK \<notin> set (replace_all COMMA a)"
    by (auto simp: replace_all_def)
qed

lemma parseInt_grouped:
  assumes "grouped_number a" "number_value a \<le> 2 ^ 53"
  shows "parseInt (replace_all COMMA a) = Fin (of_nat (number_value a))"
  using parseInt_digits [OF grouped_digits(1,2) [OF assms(1)]] fl_nat [OF assms(2)]
  by (simp add: number_value_def)

lemma js_add_zero:
  "js_add (Fin 0) a = (case a of Fin x \<Rightarrow> fl x | _ \<Rightarrow> a)"
  by (cases a) auto

lemma replace_all_append: "replace_all c (xs @ ys) = replace_all c xs @ replace_all c ys"
  by (simp add: replace_all_def)

lemma replace_all_Cons:
  "replace_all c (x # xs) = (if x = c then replace_all c xs else x # replace_all c xs)"
  "replace_all c [] = []"
  by (simp_all add: replace_all_def)

lemma units_not_comma [simp]: "JO \<noteq> COMMA" "EOK \<noteq> COMMA"
  by (simp_all add: COMMA_def JO_def EOK_def)

lemma JO_neq_EOK [simp]: "JO \<noteq> EOK" "EOK \<noteq> JO"
  by (simp_all add: JO_def EOK_def)

lemma replace_first_end: "c \<notin> set xs \<Longrightarrow> replace_first c (xs @ [c]) = xs"
  by (simp add: replace_first_def remove1_append)

lemma market_cap_combined:
  assumes "grouped_number a" "grouped_number b"
    and "10000 * number_value a + number_value b \<le> 2 ^ 53"
  shows "parseMarketCapToBillions (JString (a @ [JO] @ b @ [EOK]))
           = Fin (of_nat (10000 * number_value a + number_value b))"
proof -
  let ?da = "replace_all COMMA a" and ?db = "replace_all COMMA b"
  note ga = grouped_digits [OF assms(1)] and gb = grouped_digits [OF assms(2)]
  have s: "replace_all COMMA (a @ JO # b @ [EOK]) = ?da @ JO # ?db @ [EOK]"
    by (simp add: replace_all_append replace_all_Cons)
  have parts: "split_on JO (?da @ JO # ?db @ [EOK]) = [?da, ?db @ [EOK]]"
    using ga(3) gb(3) by (simp add: split_on_append split_on_no_sep)
  have va: "number_value a \<le> 2 ^ 53" and vb: "number_value b \<le> 2 ^ 53"
    and va4: "number_value a * 10000 \<le> 2 ^ 53"
    using assms(3) by simp_all
  have pa: "parseInt ?da = Fin (of_nat (number_value a))" using parseInt_grouped [OF assms(1) va] .
  have pb: "parseInt ?db = Fin (of_nat (number_value b))" using parseInt_grouped [OF assms(2) vb] .
  have m: "fl (of_nat (number_value a) * 10000) = Fin (of_nat (number_value a) * 10000)"
    using fl_nat [OF va4] by simp
  have "number_value a * 10000 + number_value b \<le> 2 ^ 53" using assms(3) by simp
  then have r: "fl (of_nat (number_value a) * 10000 + of_nat (number_value b))
               = Fin (of_nat (number_value a) * 10000 + of_nat (number_value b))"
    using fl_nat [of "number_value a * 10000 + number_value b"] by simp
  have "parseMarketCapToBillions (JString (a @ [JO] @ b @ [EOK]))
          = Fin (of_nat (number_value a) * 10000 + of_nat (number_value b))"
    unfolding parseMarketCapToBillions_def using ga(7)
    by (simp add: s parts str_includes_def Let_def replace_first_end gb(4) pa pb m r)
  then show ?thesis by (simp add: mult.commute)
qed

lemma market_cap_large:
  assumes "grouped_number a" "10000 * number_value a \<le> 2 ^ 53"
  shows "parseMarketCapToBillions (JString (a @ [JO])) = Fin (of_nat (10000 * number_value a))"
proof -
  let ?da = "replace_all COMMA a"
  note ga = grouped_digits [OF assms(1)]
  have s: "replace_all COMMA (a @ [JO]) = ?da @ JO # []" by (simp add: replace_all_append replace_all_Cons)
  have parts: "split_on JO (?da @ JO # []) = [?da, []]"
    using ga(3) by (simp add: split_on_append)
  have va: "number_value a \<le> 2 ^ 53" and va4: "number_value a * 10000 \<le> 2 ^ 53"
    using assms(2) by simp_all
  have pa: "parseInt ?da = Fin (of_nat (number_value a))" using parseInt_grouped [OF assms(1) va] .
  have m: "fl (of_nat (number_value a) * 10000) = Fin (of_nat (number_value a) * 10000)"
    using fl_nat [OF va4] by simp
  have "parseMarketCapToBillions (JString (a @ [JO])) = Fin (of_nat (number_value a) * 10000)"
    unfolding parseMarketCapToBillions_def using ga(7)
    by (simp add: s parts str_includes_def Let_def pa m)
  then show ?thesis by (simp add: mult.commute)
qed

lemma market_cap_small:
  assumes "grouped_number b" "number_value b \<le> 2 ^ 53"
  shows "parseMarketCapToBillions (JString (b @ [EOK])) = Fin (of_nat (number_value b))"
proof -
  let ?db = "replace_all COMMA b"
  note gb = grouped_digits [OF assms(1)]
  have s: "replace_all COMMA (b @ [EOK]) = ?db @ [EOK]" by (simp add: replace_all_append replace_all_Cons)
  have pb: "parseInt ?db = Fin (of_nat (number_value b))" using parseInt_grouped [OF assms] .
  show ?thesis
    unfolding parseMarketCapToBillions_def using gb(7) gb(3)
    by (simp add: s str_includes_def Let_def replace_first_end gb(4) pb fl_nat [OF assms(2)])
qed

lemma market_cap_neither:
  assumes "JO \<notin> set s" "EOK \<notin> set s"
  shows "parseMarketCapToBillions (JString s) = Fin 0"
  using assms by (simp add: parseMarketCapToBillions_def str_includes_def replace_all_def Let_def)

lemma market_cap_non_string:
  assumes "\<forall>m. v \<noteq> JString m"
  shows "parseMarketCapToBillions v = Fin 0"
  using assms by (cases v) (simp_all add: parseMarketCapToBillions_def)

lemma js_add_NaN [simp]: "js_add a NaN = NaN" "js_add NaN a = NaN"
  by (cases a; simp)+

lemma js_mul_NaN [simp]: "js_mul a NaN = NaN" "js_mul NaN a = NaN"
  by (cases a; simp)+

lemma market_cap_small_NaN:
  assumes "JO \<notin> set s" "EOK \<in> set s"
    and "parseInt (replace_first EOK (replace_all COMMA s)) = NaN"
  shows "parseMarketCapToBillions (JString s) = NaN"
proof -
  have "s \<noteq> []" using assms(2) by auto
  moreover have "JO \<notin> set (replace_all COMMA s)" using assms(1) by (simp add: replace_all_def)
  moreover have "EOK \<in> set (replace_all COMMA s)"
    using assms(2) by (simp add: replace_all_def EOK_def COMMA_def)
  ultimately show ?thesis
    by (simp add: parseMarketCapToBillions_def str_includes_def Let_def assms(3))
qed

lemma market_cap_large_NaN:
  assumes "JO \<in> set s"
    and "parseInt (takeWhile (\<lambda>c. c \<noteq> JO) (replace_all COMMA s)) = NaN"
  shows "parseMarketCapToBillions (JString s) = NaN"
proof -
  have "s \<noteq> []" using assms(1) by auto
  moreover have "JO \<in> set (replace_all COMMA s)"
    using assms(1) by (simp add: replace_all_def JO_def COMMA_def)
  moreover have "split_on JO (replace_all COMMA s) ! 0 = takeWhile (\<lambda>c. c \<noteq> JO) (replace_all COMMA s)"
    using hd_split_on [of JO "replace_all COMMA s"] split_on_nonempty [of JO "replace_all COMMA s"]
    by (simp add: hd_conv_nth)
  ultimately show ?thesis
    by (simp add: parseMarketCapToBillions_def str_includes_def Let_def assms(2))
qed

lemma fl_above_2_53: "fl 9007199254740993 = Fin 9007199254740992"
proof -
  have "round_half_even (9007199254740993 / 2) = 4503599627370496"
    using round_half_even_frac [of 2 9007199254740993] by simp
  then show ?thesis by (subst fl_eval [where e = 53]) simp_all
qed

lemma fl_numeral: "(numeral k :: int) \<le> 2 ^ 53 \<Longrightarrow> fl (numeral k) = Fin (numeral k)"
  using fl_int [of "numeral k"] by simp

lemma fl_zero [simp]: "fl 0 = Fin 0"
  by (simp add: fl_def)

lemma market_cap_combined_NaN:
  assumes "JO \<in> set s"
    and "EOK \<in> set (split_on JO (replace_all COMMA s) ! 1)"
    and "parseInt (replace_first EOK (split_on JO (replace_all COMMA s) ! 1)) = NaN"
  shows "parseMarketCapToBillions (JString s) = NaN"
proof -
  have "s \<noteq> []" using assms(1) by auto
  moreover have "JO \<in> set (replace_all COMMA s)"
    using assms(1) by (simp add: replace_all_def JO_def COMMA_def)
  moreover have "split_on JO (replace_all COMMA s) ! 1 \<noteq> []" using assms(2) by auto
  ultimately show ?thesis
    using assms(2,3)
    by (simp add: parseMarketCapToBillions_def str_includes_def Let_def)
qed

lemma unreadable_small_examples:
  "split_on JO (replace_all COMMA (str ''2'' @ [JO] @ str ''abc'' @ [EOK])) ! 1 = str ''abc'' @ [EOK]"
  "parseInt (replace_first EOK (str ''abc'' @ [EOK])) = NaN"
  "split_on JO (replace_all COMMA (str ''2'' @ [JO, EOK])) ! 1 = [EOK]"
  "parseInt (replace_first EOK [EOK]) = NaN"
  "parseInt (takeWhile (\<lambda>c. c \<noteq> JO) (replace_all COMMA (str ''2'' @ [JO] @ str ''abc'' @ [EOK]))) = Fin 2"
  by (simp_all add: str_def is_ws_def is_digit_def COMMA_def JO_def EOK_def replace_all_def
        replace_first_def digits_val_def parseInt_def Let_def fl_numeral)

section \<open>Facts about the gap analysis\<close>

lemmas js_eval = str_def is_ws_def is_digit_def COMMA_def JO_def EOK_def NEWLINE_def
  replace_all_def replace_first_def str_includes_def digits_val_def parseInt_def
  parseFloat_def exponent_part_def to_string_def or_zero_def isNaN_def Let_def
  js_ge_def js_gt_def js_lt_def js_sub_def fl_numeral

lemma js_ge_NaN [simp]: "js_ge a NaN = False" "js_ge NaN a = False"
  by (cases a; simp add: js_ge_def)+

lemma analyse_unfold:
  "analyse ev c d batch =
     (let current = parseInt (replace_all COMMA (currentPrice d));
          target = parseInt (replace_all COMMA (targetPrice d));
          threshold = parseFloat (to_string (ev ''PRICE_GAP_PERCENTAGE''))
      in if current \<noteq> NaN \<and> target \<noteq> NaN \<and> js_gt target (Fin 0)
            \<and> js_ge (gap_of current target) threshold
            \<and> js_ge (parseMarketCapToBillions (JString (marketCap d)))
                     (or_zero (parseInt (to_string (ev ''MIN_MARKET_CAP_BILLIONS''))))
         then batch @ [mk_candidate c d (gap_of current target)]
         else batch)"
  by (cases "parseFloat (to_string (ev ''PRICE_GAP_PERCENTAGE''))")
     (simp_all add: analyse_def Let_def isNaN_def)

lemma parse_8000: "parseInt (replace_all COMMA (str ''8000'')) = Fin 8000"
  by (simp add: js_eval)

lemma parse_10000: "parseInt (replace_all COMMA (str ''10000'')) = Fin 10000"
  by (simp add: js_eval)

lemma parse_thresholds:
  "parseFloat (str ''15'') = Fin 15" "parseFloat (str ''25'') = Fin 25"
  by (simp_all add: js_eval)

lemma parse_zero: "or_zero (parseInt (str ''0'')) = Fin 0"
  by (simp add: js_eval)

lemma sample_threshold:
  "parseFloat (to_string (sample_env thr ''PRICE_GAP_PERCENTAGE'')) = parseFloat (str thr)"
  by (simp add: sample_env_def to_string_def)

lemma sample_min:
  "or_zero (parseInt (to_string (sample_env thr ''MIN_MARKET_CAP_BILLIONS''))) = Fin 0"
  by (simp add: sample_env_def to_string_def parse_zero)

lemma unset_min: "parseInt (to_string None) = NaN" "or_zero NaN = Fin 0"
  by (simp_all add: js_eval)

lemma sample_data_parsed:
  "parseMarketCapToBillions (JString (marketCap sample_data)) = Fin 24674"
  "parseInt (replace_all COMMA (currentPrice sample_data)) = Fin 8000"
  "parseInt (replace_all COMMA (targetPrice sample_data)) = Fin 10000"
  by (simp_all add: sample_data_def parseMarketCapToBillions_def js_eval)

lemma gap_example_unfolded:
  "js_mul (js_div (js_sub (Fin 10000) (Fin 8000)) (Fin 10000)) (Fin 100) = Fin 20"
  using gap_example by (simp add: gap_of_def)

lemma or_zero_unfold: "or_zero a = (if a = NaN then Fin 0 else a)"
  by (simp add: or_zero_def)

lemma configured_minimum:
  assumes "m \<noteq> []" "\<forall>ch \<in> set m. is_digit ch" "digits_val m \<le> 2 ^ 53"
  shows "or_zero (parseInt (to_string (Some m))) = Fin (of_nat (digits_val m))"
  using parseInt_digits [OF assms(1,2)] fl_nat [OF assms(3)]
  by (simp add: to_string_def or_zero_def)

lemma parse_minimums:
  "or_zero (parseInt (str ''20000'')) = Fin 20000" "or_zero (parseInt (str ''30000'')) = Fin 30000"
  "or_zero (parseInt (str ''24674'')) = Fin 24674"
  by (simp_all add: js_eval)

lemma cap_24674:
  "parseMarketCapToBillions (JString (str ''2'' @ [JO] @ str ''4,674'' @ [EOK])) = Fin 24674"
  using sample_data_parsed(1) by (simp add: sample_data_def)

section \<open>Facts about the run\<close>

subsection \<open>One iteration and the loop\<close>

lemma fetched_simps [simp]:
  "fetched [] = []" "fetched (tr @ tr') = fetched tr @ fetched tr'"
  "fetched (Fetch c # tr) = c # fetched tr"
  "fetched (Unlink # tr) = fetched tr" "fetched (ReadFile # tr) = fetched tr"
  "fetched (Launch # tr) = fetched tr" "fetched (AppendFile l # tr) = fetched tr"
  "fetched (ClosePage # tr) = fetched tr" "fetched (Sleep n # tr) = fetched tr"
  "fetched (CloseBrowser # tr) = fetched tr" "fetched (PostMessage m # tr) = fetched tr"
  by (simp_all add: fetched_def)

lemma appended_simps [simp]:
  "appended [] = []" "appended (tr @ tr') = appended tr @ appended tr'"
  "appended (AppendFile l # tr) = l # appended tr"
  "appended (Unlink # tr) = appended tr" "appended (ReadFile # tr) = appended tr"
  "appended (Launch # tr) = appended tr" "appended (Fetch c # tr) = appended tr"
  "appended (ClosePage # tr) = appended tr" "appended (Sleep n # tr) = appended tr"
  "appended (CloseBrowser # tr) = appended tr" "appended (PostMessage m # tr) = appended tr"
  by (simp_all add: appended_def)

lemma posted_simps [simp]:
  "posted [] = []" "posted (tr @ tr') = posted tr @ posted tr'"
  "posted (PostMessage m # tr) = m # posted tr"
  "posted (Unlink # tr) = posted tr" "posted (ReadFile # tr) = posted tr"
  "posted (Launch # tr) = posted tr" "posted (Fetch c # tr) = posted tr"
  "posted (ClosePage # tr) = posted tr" "posted (Sleep n # tr) = posted tr"
  "posted (CloseBrowser # tr) = posted tr" "posted (AppendFile l # tr) = posted tr"
  by (simp_all add: posted_def)

lemma added_append: "trace s' = trace s @ evs \<Longrightarrow> added s s' = evs"
  by (simp add: added_def)

lemma trace_emit [simp]: "trace (emit e s) = trace s @ [e]"
  "results (emit e s) = results s" "notificationBatch (emit e s) = notificationBatch s"
  by (simp_all add: emit_def)

text \<open>What one iteration adds to the trace, to \<open>results\<close> and to the batch.\<close>

lemma process_item_trace:
  "trace (snd (process_item w i c s)) =
     trace s @ [Fetch c]
       @ (if target_unavailable w i c then [AppendFile (SKIP_LINE c)] else [])
       @ (if fetch w i c = NewPageFailed then [] else [ClosePage])
       @ (if fetch w i c = NewPageFailed \<or> page_close_ok w i then [Sleep (getRandomDelay w i)] else [])"
  by (simp add: process_item_def finally_item_def catch_item_def target_unavailable_def Let_def
           split: fetch_result.splits option.splits)

lemma process_item_outcome:
  "fst (process_item w i c s) =
     (if fetch w i c = NewPageFailed \<or> page_close_ok w i then None else Some BrowserError)"
  by (simp add: process_item_def finally_item_def catch_item_def Let_def
           split: fetch_result.splits option.splits)

lemma process_item_results:
  "results (snd (process_item w i c s)) = results s @ item_rows w i c"
  by (auto simp add: process_item_def finally_item_def catch_item_def target_unavailable_def
           fetch_failed_def item_rows_def Let_def
           split: fetch_result.splits option.splits)

lemma process_item_batch:
  "notificationBatch (snd (process_item w i c s)) =
     (case fetch w i c of
        Extracted d \<Rightarrow>
          if targetPrice d = TARGET_UNAVAILABLE \<and> appendFile_result w i \<noteq> None
          then notificationBatch s
          else analyse (env w) c d (notificationBatch s)
      | _ \<Rightarrow> notificationBatch s)"
  by (auto simp add: process_item_def finally_item_def catch_item_def Let_def
           split: fetch_result.splits option.splits)

lemma skip_lines_simps [simp]:
  "skip_lines w i [] = []"
  "skip_lines w i (c # cs) =
     (if target_unavailable w i c then [SKIP_LINE c] else []) @ skip_lines w (Suc i) cs"
  by (simp_all add: skip_lines_def enumerate_simps)

lemma scrape_loop_trace:
  "\<exists>n evs. n \<le> length codes
     \<and> trace (snd (scrape_loop w i codes s)) = trace s @ evs
     \<and> fetched evs = take n codes
     \<and> appended evs = skip_lines w i (take n codes)
     \<and> posted evs = []
     \<and> results (snd (scrape_loop w i codes s))
         = results s @ concat (map (\<lambda>(j, c). item_rows w j c) (enumerate i (take n codes)))
     \<and> (fst (scrape_loop w i codes s) = None \<longrightarrow> n = length codes)"
proof (induction codes arbitrary: i s)
  case Nil
  show ?case by (intro exI [of _ 0] exI [of _ "[]"]) simp
next
  case (Cons c rest)
  obtain r s1 where p: "process_item w i c s = (r, s1)" by (cases "process_item w i c s")
  let ?item = "[Fetch c]
       @ (if target_unavailable w i c then [AppendFile (SKIP_LINE c)] else [])
       @ (if fetch w i c = NewPageFailed then [] else [ClosePage])
       @ (if fetch w i c = NewPageFailed \<or> page_close_ok w i then [Sleep (getRandomDelay w i)] else [])"
  have t1: "trace s1 = trace s @ ?item" using process_item_trace [of w i c s] p by simp
  have r1: "results s1 = results s @ item_rows w i c" using process_item_results [of w i c s] p by simp
  show ?case
  proof (cases r)
    case (Some e)
    then have "scrape_loop w i (c # rest) s = (Some e, s1)" using p by simp
    then show ?thesis using t1 r1
      by (intro exI [of _ 1] exI [of _ ?item]) (simp add: enumerate_simps)
  next
    case None
    then have l: "scrape_loop w i (c # rest) s = scrape_loop w (Suc i) rest s1" using p by simp
    from Cons.IH [of "Suc i" s1] obtain n evs where ih0: "n \<le> length rest
      \<and> trace (snd (scrape_loop w (Suc i) rest s1)) = trace s1 @ evs
      \<and> fetched evs = take n rest \<and> appended evs = skip_lines w (Suc i) (take n rest)
      \<and> posted evs = []
      \<and> results (snd (scrape_loop w (Suc i) rest s1))
         = results s1 @ concat (map (\<lambda>(j, c). item_rows w j c) (enumerate (Suc i) (take n rest)))
      \<and> (fst (scrape_loop w (Suc i) rest s1) = None \<longrightarrow> n = length rest)"
      by (elim exE)
    note ih = ih0 [THEN conjunct1] ih0 [THEN conjunct2, THEN conjunct1]
      ih0 [THEN conjunct2, THEN conjunct2, THEN conjunct1]
      ih0 [THEN conjunct2, THEN conjunct2, THEN conjunct2, THEN conjunct1]
      ih0 [THEN conjunct2, THEN conjunct2, THEN conjunct2, THEN conjunct2, THEN conjunct1]
      ih0 [THEN conjunct2, THEN conjunct2, THEN conjunct2, THEN conjunct2, THEN conjunct2, THEN conjunct1]
      ih0 [THEN conjunct2, THEN conjunct2, THEN conjunct2, THEN conjunct2, THEN conjunct2, THEN conjunct2]
    show ?thesis unfolding l using ih t1 r1
      by (intro exI [of _ "Suc n"] exI [of _ "?item @ evs"]) (simp add: enumerate_simps)
  qed
qed

lemma scrape_loop_complete:
  "pages_close w \<Longrightarrow> fst (scrape_loop w i codes s) = None"
proof (induction codes arbitrary: i s)
  case Nil then show ?case by simp
next
  case (Cons c rest)
  obtain r s1 where p: "process_item w i c s = (r, s1)" by (cases "process_item w i c s")
  have "r = None" using process_item_outcome [of w i c s] p Cons.prems by (simp add: pages_close_def)
  then show ?case using p Cons by simp
qed

lemma analyse_no_threshold:
  "isNaN (parseFloat (to_string (ev ''PRICE_GAP_PERCENTAGE''))) \<Longrightarrow> analyse ev c d batch = batch"
  by (simp add: analyse_def)

lemma scrape_loop_no_threshold:
  assumes "isNaN (parseFloat (to_string (env w ''PRICE_GAP_PERCENTAGE'')))"
  shows "notificationBatch (snd (scrape_loop w i codes s)) = notificationBatch s"
proof (induction codes arbitrary: i s)
  case Nil then show ?case by simp
next
  case (Cons c rest)
  obtain r s1 where p: "process_item w i c s = (r, s1)" by (cases "process_item w i c s")
  have "notificationBatch s1 = notificationBatch s"
    using process_item_batch [of w i c s] p assms
    by (simp add: analyse_no_threshold split: fetch_result.splits)
  then show ?case using p Cons by (cases r) simp_all
qed

subsection \<open>Sorting by gap\<close>

lemma mset_insert_by: "mset (insert_by cmp x ys) = add_mset x (mset ys)"
  by (induction ys) auto

lemma set_insert_by: "set (insert_by cmp x ys) = insert x (set ys)"
  by (induction ys) auto

lemma mset_sort_by: "mset (sort_by cmp xs) = mset xs"
  by (induction xs) (auto simp: sort_by_def mset_insert_by)

lemma set_sort_by: "set (sort_by cmp xs) = set xs"
  by (induction xs) (auto simp: sort_by_def set_insert_by)

lemma length_sort_by: "length (sort_by cmp xs) = length xs"
  using mset_sort_by [of cmp xs] by (metis size_mset)

lemma compare_gap_gt0:
  assumes "wf_num (gap x)" "gap x \<noteq> NaN" "wf_num (gap y)" "gap y \<noteq> NaN"
  shows "js_gt (compare_gap x y) (Fin 0) \<longleftrightarrow> js_lt (gap y) (gap x)"
  unfolding compare_gap_def using js_sub_gt0 [OF assms(1,3,2,4)] .

lemma sorted_insert_by:
  assumes "sorted_wrt gap_le ys" "gaps_ok (x # ys)"
  shows "sorted_wrt gap_le (insert_by compare_gap x ys)"
  using assms
proof (induction ys)
  case Nil then show ?case by simp
next
  case (Cons y ys)
  have ok: "wf_num (gap x)" "gap x \<noteq> NaN" "wf_num (gap y)" "gap y \<noteq> NaN"
    using Cons.prems(2) by (auto simp: gaps_ok_def)
  show ?case
  proof (cases "js_gt (compare_gap x y) (Fin 0)")
    case True
    then have "js_lt (gap y) (gap x)" using compare_gap_gt0 [OF ok] by simp
    then have yx: "gap_le y x" by (simp add: js_lt_def gap_le_def)
    have "sorted_wrt gap_le (insert_by compare_gap x ys)"
      using Cons by (auto simp: gaps_ok_def)
    then show ?thesis using True yx Cons.prems(1) by (auto simp: set_insert_by)
  next
    case False
    then have "\<not> js_lt (gap y) (gap x)" using compare_gap_gt0 [OF ok] by simp
    then have xy: "gap_le x y" using not_js_lt [OF ok(2,4)] by (simp add: gap_le_def)
    have "\<forall>z \<in> set ys. gap_le x z"
      using xy Cons.prems(1) js_le_trans by (auto simp: gap_le_def)
    then show ?thesis using False xy Cons.prems(1) by auto
  qed
qed

lemma sorted_sort_by:
  assumes "gaps_ok xs"
  shows "sorted_wrt gap_le (sort_by compare_gap xs)"
  using assms
proof (induction xs)
  case Nil then show ?case by (simp add: sort_by_def)
next
  case (Cons x xs)
  have "sorted_wrt gap_le (sort_by compare_gap xs)" using Cons by (simp add: gaps_ok_def)
  moreover have "gaps_ok (x # sort_by compare_gap xs)"
    using Cons.prems by (simp add: gaps_ok_def set_sort_by)
  ultimately have "sorted_wrt gap_le (insert_by compare_gap x (sort_by compare_gap xs))"
    by (rule sorted_insert_by)
  then show ?case by (simp add: sort_by_def)
qed

lemma analyse_gaps_ok:
  assumes "gaps_ok batch"
  shows "gaps_ok (analyse ev c d batch)"
proof -
  let ?g = "gap_of (parseInt (replace_all COMMA (currentPrice d)))
                   (parseInt (replace_all COMMA (targetPrice d)))"
  have "wf_num ?g" unfolding gap_of_def by (rule wf_js_mul)
  moreover have "js_ge ?g t \<Longrightarrow> ?g \<noteq> NaN" for t by (cases ?g) auto
  ultimately show ?thesis using assms
    by (auto simp: analyse_unfold Let_def gaps_ok_def mk_candidate_def)
qed

lemma scrape_loop_gaps_ok:
  assumes "gaps_ok (notificationBatch s)"
  shows "gaps_ok (notificationBatch (snd (scrape_loop w i codes s)))"
  using assms
proof (induction codes arbitrary: i s)
  case Nil then show ?case by simp
next
  case (Cons c rest)
  obtain r s1 where p: "process_item w i c s = (r, s1)" by (cases "process_item w i c s")
  have "gaps_ok (notificationBatch s1)"
    using process_item_batch [of w i c s] p Cons.prems
    by (auto simp: analyse_gaps_ok split: fetch_result.splits)
  then show ?case using p Cons.IH by (cases r) simp_all
qed

subsection \<open>The dispatch loop\<close>

lemma batch_count_less: "k < batch_count xs \<longleftrightarrow> k * BATCH_SIZE < length xs"
  unfolding batch_count_def BATCH_SIZE_def by (simp add: less_eq_div_iff_mult_less_eq less_Suc_eq_le [symmetric]) arith

lemma batch_no_nonempty: "k < batch_count xs \<Longrightarrow> batch_no k xs \<noteq> []"
  unfolding batch_count_less by (simp add: batch_no_def BATCH_SIZE_def)

lemma length_batch_no: "length (batch_no k xs) = min BATCH_SIZE (length xs - k * BATCH_SIZE)"
  by (simp add: batch_no_def)

lemma intersperse_Cons_ne:
  "ys \<noteq> [] \<Longrightarrow> intersperse sep (x # ys) = x # sep # intersperse sep ys"
  by (cases ys) simp_all

lemma send_ready:
  assumes "slack_ready w" "stocks \<noteq> []"
  shows "sendSlackNotification w k stocks s
           = (None, emit (PostMessage \<lparr>channel = to_string (env w ''SLACK_CHANNEL_ID''),
                                        title = mk_title (getKSTTimestamp w k) (length stocks),
                                        items = stocks\<rparr>) s)"
  using assms
  by (auto simp: sendSlackNotification_def slack_ready_def falsy_def to_string_def Let_def
           split: option.splits)

lemma dispatch_loop_ready:
  assumes "slack_ready w"
  shows "dispatch_loop w (k * BATCH_SIZE) xs s =
           (None, s\<lparr>trace := trace s
               @ intersperse (Sleep 1000)
                   (map (\<lambda>j. PostMessage (batch_message w j xs)) [k..<batch_count xs])\<rparr>)"
proof (induction "batch_count xs - k" arbitrary: k s)
  case 0
  then have "\<not> k < batch_count xs" by simp
  then have nl: "\<not> k * BATCH_SIZE < length xs" and e: "[k..<batch_count xs] = []"
    by (simp_all add: batch_count_less [symmetric])
  show ?case by (subst dispatch_loop.simps) (simp add: nl e)
next
  case (Suc n)
  then have k: "k < batch_count xs" by simp
  then have lt: "k * BATCH_SIZE < length xs" by (simp add: batch_count_less)
  have d: "k * BATCH_SIZE div BATCH_SIZE = k" by (simp add: BATCH_SIZE_def)
  let ?m = "PostMessage (batch_message w k xs)"
  have send: "sendSlackNotification w k (take BATCH_SIZE (drop (k * BATCH_SIZE) xs)) s = (None, emit ?m s)"
    using send_ready [OF assms batch_no_nonempty [OF k], of k s]
    by (simp add: batch_message_def batch_no_def)
  have nxt: "k * BATCH_SIZE + BATCH_SIZE = Suc k * BATCH_SIZE" by simp
  have more: "k * BATCH_SIZE + BATCH_SIZE < length xs \<longleftrightarrow> Suc k < batch_count xs"
    unfolding nxt batch_count_less ..
  have n: "n = batch_count xs - Suc k" using Suc.hyps(2) by simp
  have up: "[k..<batch_count xs] = k # [Suc k..<batch_count xs]" using k by (simp add: upt_conv_Cons)
  show ?case
  proof (cases "Suc k < batch_count xs")
    case True
    then have ne: "map (\<lambda>j. PostMessage (batch_message w j xs)) [Suc k..<batch_count xs] \<noteq> []" by simp
    have cond: "k * BATCH_SIZE + BATCH_SIZE < length xs" using True more by simp
    show ?thesis
      apply (subst dispatch_loop.simps)
      apply (simp only: lt if_True d send prod.case option.case cond)
      apply (simp only: nxt)
      apply (subst Suc.hyps(1) [OF n])
      apply (simp add: up intersperse_Cons_ne [OF ne] emit_def)
      done
  next
    case False
    then have e: "[Suc k..<batch_count xs] = []" by simp
    have cond: "\<not> k * BATCH_SIZE + BATCH_SIZE < length xs" using False more by simp
    show ?thesis
      apply (subst dispatch_loop.simps)
      apply (simp only: lt if_True d send prod.case option.case cond if_False)
      apply (simp only: nxt)
      apply (subst Suc.hyps(1) [OF n])
      apply (simp add: up e emit_def)
      done
  qed
qed

lemma send_frame:
  assumes "sendSlackNotification w k stocks s = (r, s')"
  shows "results s' = results s \<and> notificationBatch s' = notificationBatch s
     \<and> (trace s' = trace s
        \<or> (stocks \<noteq> [] \<and> trace s' = trace s @ [PostMessage
              \<lparr>channel = to_string (env w ''SLACK_CHANNEL_ID''),
               title = mk_title (getKSTTimestamp w k) (length stocks),
               items = stocks\<rparr>]))"
  using assms
  by (auto simp: sendSlackNotification_def to_string_def Let_def
           split: option.splits if_splits)

lemma dispatch_loop_frame:
  "\<exists>evs. trace (snd (dispatch_loop w i xs s)) = trace s @ evs
     \<and> fetched evs = [] \<and> appended evs = []
     \<and> (\<forall>m \<in> set (posted evs). own_count w xs m)
     \<and> results (snd (dispatch_loop w i xs s)) = results s
     \<and> notificationBatch (snd (dispatch_loop w i xs s)) = notificationBatch s"
proof (induction w i xs s rule: dispatch_loop.induct)
  case (1 w i xs s)
  show ?case
  proof (cases "i < length xs")
    case False
    then show ?thesis by (subst (1 2 3) dispatch_loop.simps) simp
  next
    case True
    let ?chunk = "take BATCH_SIZE (drop i xs)"
    obtain r s1 where send: "sendSlackNotification w (i div BATCH_SIZE) ?chunk s = (r, s1)"
      by (cases "sendSlackNotification w (i div BATCH_SIZE) ?chunk s")
    note fr = send_frame [OF send]
    let ?m = "\<lparr>channel = to_string (env w ''SLACK_CHANNEL_ID''),
               title = mk_title (getKSTTimestamp w (i div BATCH_SIZE)) (length ?chunk),
               items = ?chunk\<rparr>"
    have own: "?chunk \<noteq> [] \<Longrightarrow> own_count w xs ?m"
      unfolding own_count_def by (intro exI [of _ i]) simp
    obtain ev1 where ev1: "trace s1 = trace s @ ev1" "fetched ev1 = []" "appended ev1 = []"
      "\<forall>m \<in> set (posted ev1). own_count w xs m"
    proof (cases "trace s1 = trace s")
      case True then show ?thesis using that [of "[]"] by simp
    next
      case False
      then have "?chunk \<noteq> []" "trace s1 = trace s @ [PostMessage ?m]" using fr by auto
      then show ?thesis using that [of "[PostMessage ?m]"] own by simp
    qed
    show ?thesis
    proof (cases r)
      case (Some e)
      then have "dispatch_loop w i xs s = (Some e, s1)"
        using True send by (subst dispatch_loop.simps) simp
      then show ?thesis using ev1 fr by (intro exI [of _ ev1]) simp
    next
      case None
      let ?s2 = "if i + BATCH_SIZE < length xs then emit (Sleep 1000) s1 else s1"
      have l: "dispatch_loop w i xs s = dispatch_loop w (i + BATCH_SIZE) xs ?s2"
        using True send None by (subst dispatch_loop.simps) simp
      from "1.IH" [OF True send [symmetric] None]
      obtain ev2 where ih0: "trace (snd (dispatch_loop w (i + BATCH_SIZE) xs ?s2)) = trace ?s2 @ ev2
         \<and> fetched ev2 = [] \<and> appended ev2 = []
         \<and> (\<forall>m \<in> set (posted ev2). own_count w xs m)
         \<and> results (snd (dispatch_loop w (i + BATCH_SIZE) xs ?s2)) = results ?s2
         \<and> notificationBatch (snd (dispatch_loop w (i + BATCH_SIZE) xs ?s2)) = notificationBatch ?s2"
        by (elim exE)
      let ?d = "if i + BATCH_SIZE < length xs then [Sleep 1000] else []"
      have t2: "trace ?s2 = trace s1 @ ?d" "results ?s2 = results s1"
        "notificationBatch ?s2 = notificationBatch s1" by simp_all
      show ?thesis unfolding l using ih0 ev1 fr t2
        by (intro exI [of _ "ev1 @ ?d @ ev2"]) auto
    qed
  qed
qed

lemma sort_by_Nil [simp]: "sort_by cmp [] = []"
  by (simp add: sort_by_def)

lemma sort_by_eq_Nil [simp]: "sort_by cmp xs = [] \<longleftrightarrow> xs = []"
  using length_sort_by [of cmp xs] by (metis length_0_conv)

lemma batch_count_Nil [simp]: "batch_count [] = 0"
  by (simp add: batch_count_def BATCH_SIZE_def)

lemma dispatch_frame:
  "\<exists>evs. trace (snd (dispatch w s)) = trace s @ evs
     \<and> fetched evs = [] \<and> appended evs = []
     \<and> (\<forall>m \<in> set (posted evs). own_count w (sort_by compare_gap (notificationBatch s)) m)
     \<and> results (snd (dispatch w s)) = results s
     \<and> notificationBatch (snd (dispatch w s)) = sort_by compare_gap (notificationBatch s)
     \<and> (notificationBatch s = [] \<longrightarrow> evs = [])"
proof (cases "notificationBatch s = []")
  case True
  then show ?thesis by (intro exI [of _ "[]"]) (simp add: dispatch_def)
next
  case False
  let ?xs = "sort_by compare_gap (notificationBatch s)"
  let ?s = "s\<lparr>notificationBatch := ?xs\<rparr>"
  have d: "dispatch w s = dispatch_loop w 0 ?xs ?s" using False by (simp add: dispatch_def Let_def)
  from dispatch_loop_frame [of w 0 ?xs ?s]
  obtain evs where "trace (snd (dispatch_loop w 0 ?xs ?s)) = trace ?s @ evs
     \<and> fetched evs = [] \<and> appended evs = []
     \<and> (\<forall>m \<in> set (posted evs). own_count w ?xs m)
     \<and> results (snd (dispatch_loop w 0 ?xs ?s)) = results ?s
     \<and> notificationBatch (snd (dispatch_loop w 0 ?xs ?s)) = notificationBatch ?s"
    by (elim exE)
  then show ?thesis unfolding d using False by (intro exI [of _ evs]) simp
qed

lemma dispatch_ready:
  assumes "slack_ready w"
  shows "dispatch w s =
           (None, s\<lparr>notificationBatch := sort_by compare_gap (notificationBatch s),
                    trace := trace s @ intersperse (Sleep 1000)
                       (map (\<lambda>j. PostMessage (batch_message w j (sort_by compare_gap (notificationBatch s))))
                            [0..<batch_count (sort_by compare_gap (notificationBatch s))])\<rparr>)"
proof (cases "notificationBatch s = []")
  case True
  then show ?thesis by (simp add: dispatch_def)
next
  case False
  then show ?thesis
    using dispatch_loop_ready [OF assms, of 0 "sort_by compare_gap (notificationBatch s)"]
    by (simp add: dispatch_def Let_def)
qed

subsection \<open>The whole run\<close>

lemma run_codes_trace:
  "\<exists>n evs. n \<le> length (filter (\<lambda>c. c \<notin> skipCodes) allStockCodes)
     \<and> trace (snd (run_codes w allStockCodes skipCodes s)) = trace s @ evs
     \<and> fetched evs = take n (filter (\<lambda>c. c \<notin> skipCodes) allStockCodes)
     \<and> appended evs = skip_lines w 0 (take n (filter (\<lambda>c. c \<notin> skipCodes) allStockCodes))
     \<and> (launch_ok w \<and> pages_close w \<longrightarrow> n = length (filter (\<lambda>c. c \<notin> skipCodes) allStockCodes))"
proof -
  let ?codes = "filter (\<lambda>c. c \<notin> skipCodes) allStockCodes"
  let ?s0 = "emit Launch s"
  consider (empty) "allStockCodes = []" | (nolaunch) "allStockCodes \<noteq> []" "\<not> launch_ok w"
    | (run) "allStockCodes \<noteq> []" "launch_ok w" by blast
  then show ?thesis
  proof cases
    case empty
    then show ?thesis by (intro exI [of _ 0] exI [of _ "[]"]) (simp add: run_codes_def)
  next
    case nolaunch
    then show ?thesis by (intro exI [of _ 0] exI [of _ "[Launch]"]) (simp add: run_codes_def)
  next
    case run
    from scrape_loop_trace [of ?codes w 0 ?s0]
    obtain n evs where l0: "n \<le> length ?codes
     \<and> trace (snd (scrape_loop w 0 ?codes ?s0)) = trace ?s0 @ evs
     \<and> fetched evs = take n ?codes
     \<and> appended evs = skip_lines w 0 (take n ?codes)
     \<and> posted evs = []
     \<and> results (snd (scrape_loop w 0 ?codes ?s0))
         = results ?s0 @ concat (map (\<lambda>(j, c). item_rows w j c) (enumerate 0 (take n ?codes)))
     \<and> (fst (scrape_loop w 0 ?codes ?s0) = None \<longrightarrow> n = length ?codes)"
      by (elim exE)
    obtain r s1 where sl: "scrape_loop w 0 ?codes ?s0 = (r, s1)" by (cases "scrape_loop w 0 ?codes ?s0")
    have t1: "trace s1 = trace s @ Launch # evs" using l0 sl by simp
    have comp: "pages_close w \<longrightarrow> r = None" using scrape_loop_complete [of w 0 ?codes ?s0] sl by simp
    show ?thesis
    proof (cases r)
      case (Some e)
      then have "run_codes w allStockCodes skipCodes s = (Some e, s1)"
        using run sl by (simp add: run_codes_def)
      then show ?thesis using l0 t1 comp Some
        by (intro exI [of _ n] exI [of _ "Launch # evs"]) simp
    next
      case None
      then have n: "n = length ?codes" using l0 sl by simp
      show ?thesis
      proof (cases "browser_close_ok w")
        case False
        then have "run_codes w allStockCodes skipCodes s = (Some BrowserError, emit CloseBrowser s1)"
          using run sl None by (simp add: run_codes_def)
        then show ?thesis using l0 t1 n
          by (intro exI [of _ n] exI [of _ "Launch # evs @ [CloseBrowser]"]) simp
      next
        case True
        then have rc: "run_codes w allStockCodes skipCodes s = dispatch w (emit CloseBrowser s1)"
          using run sl None by (simp add: run_codes_def)
        from dispatch_frame [of w "emit CloseBrowser s1"]
        obtain ev2 where "trace (snd (dispatch w (emit CloseBrowser s1))) = trace (emit CloseBrowser s1) @ ev2
           \<and> fetched ev2 = [] \<and> appended ev2 = []" by blast
        then show ?thesis unfolding rc using l0 t1 n
          by (intro exI [of _ n] exI [of _ "Launch # evs @ [CloseBrowser] @ ev2"]) simp
      qed
    qed
  qed
qed

lemma skip_lines_take_prefix: "prefix (skip_lines w i (take n cs)) (skip_lines w i cs)"
proof (induction cs arbitrary: i n)
  case Nil then show ?case by simp
next
  case (Cons c cs)
  show ?case by (cases n) (simp_all add: Cons.IH)
qed

lemma sample_world_simps [simp]:
  "launch_ok sample_world" "pages_close sample_world" "browser_close_ok sample_world"
  "slack_ready sample_world" "env sample_world = sample_env ''15''"
  "fetch sample_world = sample_fetch" "appendFile_result sample_world i = None"
  "getKSTTimestamp sample_world k = str ''2025-01-07 07:00''"
  by (simp_all add: sample_world_def pages_close_def slack_ready_def falsy_def sample_env_def str_def)

lemma sentinels_distinct:
  "ERROR_SENTINEL \<noteq> NAME_UNAVAILABLE" "ERROR_SENTINEL \<noteq> CURRENT_UNAVAILABLE"
  "ERROR_SENTINEL \<noteq> TARGET_UNAVAILABLE" "ERROR_SENTINEL \<noteq> MARKETCAP_UNAVAILABLE"
  by (simp_all add: ERROR_SENTINEL_def NAME_UNAVAILABLE_def CURRENT_UNAVAILABLE_def
        TARGET_UNAVAILABLE_def MARKETCAP_UNAVAILABLE_def)

lemma process_item_appended:
  "appended (added s (snd (process_item w i c s)))
     = (if target_unavailable w i c then [SKIP_LINE c] else [])"
proof -
  have "added s (snd (process_item w i c s)) = [Fetch c]
       @ (if target_unavailable w i c then [AppendFile (SKIP_LINE c)] else [])
       @ (if fetch w i c = NewPageFailed then [] else [ClosePage])
       @ (if fetch w i c = NewPageFailed \<or> page_close_ok w i then [Sleep (getRandomDelay w i)] else [])"
    by (rule added_append) (simp add: process_item_trace)
  then show ?thesis by simp
qed

lemma sample_unavailable:
  "target_unavailable sample_world i c \<longleftrightarrow> c = str ''C''"
  "fetch_failed sample_world i c \<longleftrightarrow> c \<noteq> str ''A'' \<and> c \<noteq> str ''C''"
  by (auto simp: target_unavailable_def fetch_failed_def sample_fetch_def sample_data_def
        TARGET_UNAVAILABLE_def str_def)

lemma scrape_loop_all:
  assumes "pages_close w"
  shows "fst (scrape_loop w i codes s) = None"
    and "fetched (added s (snd (scrape_loop w i codes s))) = codes"
    and "results (snd (scrape_loop w i codes s))
           = results s @ concat (map (\<lambda>(j, c). item_rows w j c) (enumerate i codes))"
proof -
  show c: "fst (scrape_loop w i codes s) = None" using assms by (rule scrape_loop_complete)
  from scrape_loop_trace [of codes w i s]
  obtain n evs where t: "n \<le> length codes
     \<and> trace (snd (scrape_loop w i codes s)) = trace s @ evs
     \<and> fetched evs = take n codes
     \<and> appended evs = skip_lines w i (take n codes)
     \<and> posted evs = []
     \<and> results (snd (scrape_loop w i codes s))
         = results s @ concat (map (\<lambda>(j, c). item_rows w j c) (enumerate i (take n codes)))
     \<and> (fst (scrape_loop w i codes s) = None \<longrightarrow> n = length codes)"
    by (elim exE)
  have n: "n = length codes" using t c by simp
  have "added s (snd (scrape_loop w i codes s)) = evs" using t by (intro added_append) simp
  then show "fetched (added s (snd (scrape_loop w i codes s))) = codes" using t n by simp
  show "results (snd (scrape_loop w i codes s))
           = results s @ concat (map (\<lambda>(j, c). item_rows w j c) (enumerate i codes))"
    using t n by simp
qed

lemma error_row_recorded:
  assumes "pages_close w" "j < length codes" "fetch_failed w (i + j) (codes ! j)"
  shows "error_row (codes ! j) \<in> set (results (snd (scrape_loop w i codes s)))"
proof -
  have "(i + j, codes ! j) \<in> set (enumerate i codes)"
    using assms(2) by (auto simp: in_set_enumerate_eq)
  moreover have "error_row (codes ! j) \<in> set (item_rows w (i + j) (codes ! j))"
    using assms(3) by (simp add: item_rows_def)
  ultimately show ?thesis unfolding scrape_loop_all(3) [OF assms(1)] by fastforce
qed

lemma run_codes_complete:
  assumes "launch_ok w" "pages_close w" "browser_close_ok w" "slack_ready w"
  shows "fst (run_codes w allStockCodes skipCodes s) = None"
proof -
  let ?codes = "filter (\<lambda>c. c \<notin> skipCodes) allStockCodes"
  obtain r s1 where sl: "scrape_loop w 0 ?codes (emit Launch s) = (r, s1)"
    by (cases "scrape_loop w 0 ?codes (emit Launch s)")
  have "r = None" using scrape_loop_complete [OF assms(2), of 0 ?codes "emit Launch s"] sl by simp
  then show ?thesis using assms sl by (simp add: run_codes_def dispatch_ready)
qed

lemma sample_world_oracles [simp]:
  "page_close_ok sample_world i" "postMessage_ok sample_world k"
  by (simp_all add: sample_world_def)

lemma run_codes_posted:
  "\<exists>xs. (\<forall>m \<in> set (posted (added s (snd (run_codes w allStockCodes skipCodes s)))). own_count w xs m)
     \<and> (xs = [] \<longrightarrow> posted (added s (snd (run_codes w allStockCodes skipCodes s))) = [])
     \<and> (notificationBatch s = []
          \<and> isNaN (parseFloat (to_string (env w ''PRICE_GAP_PERCENTAGE''))) \<longrightarrow>
         xs = [] \<and> notificationBatch (snd (run_codes w allStockCodes skipCodes s)) = [])"
proof -
  let ?codes = "filter (\<lambda>c. c \<notin> skipCodes) allStockCodes"
  let ?s0 = "emit Launch s"
  let ?nothr = "isNaN (parseFloat (to_string (env w ''PRICE_GAP_PERCENTAGE'')))"
  consider (empty) "allStockCodes = []" | (nolaunch) "allStockCodes \<noteq> []" "\<not> launch_ok w"
    | (run) "allStockCodes \<noteq> []" "launch_ok w" by blast
  then show ?thesis
  proof cases
    case empty
    then show ?thesis by (intro exI [of _ "[]"]) (simp add: run_codes_def added_def)
  next
    case nolaunch
    then show ?thesis by (intro exI [of _ "[]"]) (simp add: run_codes_def added_def)
  next
    case run
    from scrape_loop_trace [of ?codes w 0 ?s0]
    obtain n evs where l0: "n \<le> length ?codes
     \<and> trace (snd (scrape_loop w 0 ?codes ?s0)) = trace ?s0 @ evs
     \<and> fetched evs = take n ?codes
     \<and> appended evs = skip_lines w 0 (take n ?codes)
     \<and> posted evs = []
     \<and> results (snd (scrape_loop w 0 ?codes ?s0))
         = results ?s0 @ concat (map (\<lambda>(j, c). item_rows w j c) (enumerate 0 (take n ?codes)))
     \<and> (fst (scrape_loop w 0 ?codes ?s0) = None \<longrightarrow> n = length ?codes)"
      by (elim exE)
    obtain r s1 where sl: "scrape_loop w 0 ?codes ?s0 = (r, s1)" by (cases "scrape_loop w 0 ?codes ?s0")
    have t1: "trace s1 = trace s @ Launch # evs" and p1: "posted evs = []" using l0 sl by simp_all
    have b1: "?nothr \<Longrightarrow> notificationBatch s1 = notificationBatch s"
      using scrape_loop_no_threshold [of w 0 ?codes ?s0] sl by simp
    show ?thesis
    proof (cases "r = None \<and> browser_close_ok w")
      case False
      then have "\<exists>e. run_codes w allStockCodes skipCodes s = (Some e, s1)
                   \<or> run_codes w allStockCodes skipCodes s = (Some e, emit CloseBrowser s1)"
        using run sl by (cases r) (auto simp: run_codes_def)
      then have "posted (added s (snd (run_codes w allStockCodes skipCodes s))) = []"
        "notificationBatch (snd (run_codes w allStockCodes skipCodes s)) = notificationBatch s1"
        using t1 p1 by (auto simp: added_def)
      then show ?thesis using b1 by (intro exI [of _ "[]"]) simp
    next
      case True
      let ?s2 = "emit CloseBrowser s1"
      let ?xs = "sort_by compare_gap (notificationBatch s1)"
      have rc: "run_codes w allStockCodes skipCodes s = dispatch w ?s2"
        using run sl True by (simp add: run_codes_def)
      from dispatch_frame [of w ?s2]
      obtain ev2 where d: "trace (snd (dispatch w ?s2)) = trace ?s2 @ ev2
         \<and> fetched ev2 = [] \<and> appended ev2 = []
         \<and> (\<forall>m \<in> set (posted ev2). own_count w (sort_by compare_gap (notificationBatch ?s2)) m)
         \<and> results (snd (dispatch w ?s2)) = results ?s2
         \<and> notificationBatch (snd (dispatch w ?s2)) = sort_by compare_gap (notificationBatch ?s2)
         \<and> (notificationBatch ?s2 = [] \<longrightarrow> ev2 = [])"
        by (elim exE)
      have "added s (snd (dispatch w ?s2)) = Launch # evs @ [CloseBrowser] @ ev2"
        using d t1 by (intro added_append) simp
      then have p: "posted (added s (snd (run_codes w allStockCodes skipCodes s))) = posted ev2"
        unfolding rc using p1 by simp
      show ?thesis unfolding p
        using d b1 unfolding rc by (intro exI [of _ ?xs]) auto
    qed
  qed
qed

lemma scrapeStockData_cases:
  "(\<exists>e s. scrapeStockData w = (Some e, s) \<and> fetched (trace s) = [] \<and> posted (trace s) = []
           \<and> appended (trace s) = [] \<and> notificationBatch s = [])
   \<or> (\<exists>v skipCodes. env w ''STOCK_CODES'' = Some v \<and> load_skip_codes w = Inr skipCodes
         \<and> fst (reset_skip_list w init_state) = None
         \<and> scrapeStockData w
             = run_codes w (split_on COMMA v) skipCodes (emit ReadFile (snd (reset_skip_list w init_state))))"
  by (auto simp: scrapeStockData_def reset_skip_list_def init_state_def
           split: option.splits sum.splits prod.splits)

lemma reset_frame:
  "fetched (trace (snd (reset_skip_list w init_state))) = []"
  "posted (trace (snd (reset_skip_list w init_state))) = []"
  "appended (trace (snd (reset_skip_list w init_state))) = []"
  "notificationBatch (snd (reset_skip_list w init_state)) = []"
  by (simp_all add: reset_skip_list_def init_state_def split: option.splits)

lemma added_posted:
  assumes "posted (trace s) = []" "\<exists>evs. trace s' = trace s @ evs"
  shows "posted (trace s') = posted (added s s')"
  using assms by (auto simp: added_def)

lemma run_codes_extends: "\<exists>evs. trace (snd (run_codes w a k s)) = trace s @ evs"
  using run_codes_trace [of k a w s] by blast

lemma parseFloat_undefined: "parseFloat (to_string None) = NaN"
  by (simp add: js_eval)

lemma scrapeStockData_no_threshold:
  assumes "isNaN (parseFloat (to_string (env w ''PRICE_GAP_PERCENTAGE'')))"
  shows "notificationBatch (snd (scrapeStockData w)) = []"
    and "posted (trace (snd (scrapeStockData w))) = []"
proof -
  let ?s0 = "emit ReadFile (snd (reset_skip_list w init_state))"
  have s0: "posted (trace ?s0) = []" "notificationBatch ?s0 = []" by (simp_all add: reset_frame)
  have "notificationBatch (snd (scrapeStockData w)) = [] \<and> posted (trace (snd (scrapeStockData w))) = []"
    using scrapeStockData_cases [of w]
  proof (elim disjE exE conjE)
    fix e s assume "scrapeStockData w = (Some e, s)" "posted (trace s) = []" "notificationBatch s = []"
    then show ?thesis by simp
  next
    fix v skipCodes
    assume r: "scrapeStockData w = run_codes w (split_on COMMA v) skipCodes ?s0"
    from run_codes_posted [of ?s0 w "split_on COMMA v" skipCodes]
    obtain xs where x: "(xs = [] \<longrightarrow> posted (added ?s0 (snd (run_codes w (split_on COMMA v) skipCodes ?s0))) = [])
       \<and> (notificationBatch ?s0 = [] \<and> isNaN (parseFloat (to_string (env w ''PRICE_GAP_PERCENTAGE''))) \<longrightarrow>
         xs = [] \<and> notificationBatch (snd (run_codes w (split_on COMMA v) skipCodes ?s0)) = [])"
      by blast
    have "posted (trace (snd (run_codes w (split_on COMMA v) skipCodes ?s0)))
            = posted (added ?s0 (snd (run_codes w (split_on COMMA v) skipCodes ?s0)))"
      using s0(1) run_codes_extends by (rule added_posted)
    then show ?thesis unfolding r using x s0(2) assms by simp
  qed
  then show "notificationBatch (snd (scrapeStockData w)) = []"
    and "posted (trace (snd (scrapeStockData w))) = []" by simp_all
qed

subsection \<open>Blank lines of the skip list\<close>

lemma dropWhile_has: "(\<exists>c \<in> set (dropWhile P xs). \<not> P c) \<longleftrightarrow> (\<exists>c \<in> set xs. \<not> P c)"
  by (induction xs) auto

lemma trim_nonempty: "trim l \<noteq> [] \<longleftrightarrow> (\<exists>c \<in> set l. \<not> is_ws c)"
proof -
  have "trim l \<noteq> [] \<longleftrightarrow> dropWhile is_ws (rev (dropWhile is_ws l)) \<noteq> []"
    by (simp add: trim_def)
  also have "\<dots> \<longleftrightarrow> (\<exists>c \<in> set (rev (dropWhile is_ws l)). \<not> is_ws c)"
    by (simp add: dropWhile_eq_Nil_conv)
  also have "\<dots> \<longleftrightarrow> (\<exists>c \<in> set l. \<not> is_ws c)" by (simp add: dropWhile_has)
  finally show ?thesis .
qed

lemma sample_world_calendar [simp]:
  "getDay sample_world = 2" "getDate sample_world = 7" "unlink_result sample_world = None"
  "readFile_result sample_world = Inr (str ''B'' @ [NEWLINE])"
  by (simp_all add: sample_world_def)

subsection \<open>The run once the skip list is loaded\<close>

lemma scrapeStockData_loaded:
  assumes "fst (reset_skip_list w init_state) = None" "load_skip_codes w = Inr skipCodes"
    "env w ''STOCK_CODES'' = Some v"
  shows "scrapeStockData w
           = run_codes w (split_on COMMA v) skipCodes (emit ReadFile (snd (reset_skip_list w init_state)))"
  using assms by (auto simp: scrapeStockData_def split: prod.splits option.splits)

lemma scrapeStockData_complete:
  assumes "fst (reset_skip_list w init_state) = None" "load_skip_codes w = Inr skipCodes"
    "env w ''STOCK_CODES'' = Some v"
    "launch_ok w" "pages_close w" "browser_close_ok w" "slack_ready w"
  shows "fst (scrapeStockData w) = None"
    and "fetched (trace (snd (scrapeStockData w))) = filter (\<lambda>c. c \<notin> skipCodes) (split_on COMMA v)"
    and "appended (trace (snd (scrapeStockData w)))
           = skip_lines w 0 (filter (\<lambda>c. c \<notin> skipCodes) (split_on COMMA v))"
proof -
  let ?s0 = "emit ReadFile (snd (reset_skip_list w init_state))"
  let ?codes = "filter (\<lambda>c. c \<notin> skipCodes) (split_on COMMA v)"
  have r: "scrapeStockData w = run_codes w (split_on COMMA v) skipCodes ?s0"
    using assms(1-3) by (rule scrapeStockData_loaded)
  show "fst (scrapeStockData w) = None"
    unfolding r using assms(4-7) by (rule run_codes_complete)
  from run_codes_trace [of skipCodes "split_on COMMA v" w ?s0]
  obtain n evs where t: "n \<le> length ?codes
     \<and> trace (snd (run_codes w (split_on COMMA v) skipCodes ?s0)) = trace ?s0 @ evs
     \<and> fetched evs = take n ?codes
     \<and> appended evs = skip_lines w 0 (take n ?codes)
     \<and> (launch_ok w \<and> pages_close w \<longrightarrow> n = length ?codes)"
    by (elim exE)
  have n: "n = length ?codes" using t assms(4,5) by simp
  have f0: "fetched (trace ?s0) = []" "appended (trace ?s0) = []"
    by (simp_all add: reset_frame)
  show "fetched (trace (snd (scrapeStockData w))) = ?codes"
    unfolding r using t n f0 by simp
  show "appended (trace (snd (scrapeStockData w))) = skip_lines w 0 ?codes"
    unfolding r using t n f0 by simp
qed

lemma failing_append_world_simps:
  "fst (reset_skip_list failing_append_world init_state) = None"
  "load_skip_codes failing_append_world = Inr {str ''B''}"
  "env failing_append_world ''STOCK_CODES'' = Some (str ''C,A'')"
  "launch_ok failing_append_world" "pages_close failing_append_world"
  "browser_close_ok failing_append_world" "slack_ready failing_append_world"
  "appendFile_result failing_append_world i = Some ''EACCES''"
  "split_on COMMA (str ''C,A'') = [str ''C'', str ''A'']"
  "target_unavailable failing_append_world i c \<longleftrightarrow> c = str ''C''"
proof -
  show "fst (reset_skip_list failing_append_world init_state) = None"
    by (simp add: failing_append_world_def reset_skip_list_def isFirstMonday_def)
  show "load_skip_codes failing_append_world = Inr {str ''B''}"
    by (auto simp: failing_append_world_def load_skip_codes_def str_def NEWLINE_def is_ws_def
          trim_nonempty)
  show "env failing_append_world ''STOCK_CODES'' = Some (str ''C,A'')"
    by (simp add: failing_append_world_def)
  show "launch_ok failing_append_world" "browser_close_ok failing_append_world"
    "appendFile_result failing_append_world i = Some ''EACCES''"
    by (simp_all add: failing_append_world_def)
  show "pages_close failing_append_world"
    by (simp add: failing_append_world_def pages_close_def)
  show "slack_ready failing_append_world"
    by (simp add: failing_append_world_def slack_ready_def falsy_def sample_env_def str_def)
  show "split_on COMMA (str ''C,A'') = [str ''C'', str ''A'']"
    by (simp add: str_def COMMA_def)
  show "target_unavailable failing_append_world i c \<longleftrightarrow> c = str ''C''"
    using sample_unavailable(1) [of i c]
    by (simp add: failing_append_world_def target_unavailable_def)
qed

subsection \<open>A page that cannot be closed\<close>

lemma scrape_loop_abort:
  assumes "\<forall>k < length pre. fetch w (i + k) (pre ! k) = NewPageFailed \<or> page_close_ok w (i + k)"
    and "fetch w (i + length pre) c \<noteq> NewPageFailed" "\<not> page_close_ok w (i + length pre)"
  shows "fst (scrape_loop w i (pre @ c # rest) s) = Some BrowserError
     \<and> (\<exists>evs. trace (snd (scrape_loop w i (pre @ c # rest) s)) = trace s @ evs
            \<and> fetched evs = pre @ [c] \<and> posted evs = [])"
  using assms
proof (induction pre arbitrary: i s)
  case Nil
  obtain r s1 where p: "process_item w i c s = (r, s1)" by (cases "process_item w i c s")
  have r: "r = Some BrowserError" using process_item_outcome [of w i c s] p Nil.prems by simp
  have t: "trace s1 = trace s @ [Fetch c]
       @ (if target_unavailable w i c then [AppendFile (SKIP_LINE c)] else [])
       @ (if fetch w i c = NewPageFailed then [] else [ClosePage])
       @ (if fetch w i c = NewPageFailed \<or> page_close_ok w i then [Sleep (getRandomDelay w i)] else [])"
    using process_item_trace [of w i c s] p by simp
  have l: "scrape_loop w i (c # rest) s = (Some BrowserError, s1)" using p r by simp
  show ?case unfolding append_Nil l using t by simp
next
  case (Cons p ps)
  obtain r s1 where pi: "process_item w i p s = (r, s1)" by (cases "process_item w i p s")
  have "fetch w i p = NewPageFailed \<or> page_close_ok w i" using Cons.prems(1) by fastforce
  then have r: "r = None" using process_item_outcome [of w i p s] pi by simp
  have t: "trace s1 = trace s @ [Fetch p]
       @ (if target_unavailable w i p then [AppendFile (SKIP_LINE p)] else [])
       @ (if fetch w i p = NewPageFailed then [] else [ClosePage])
       @ (if fetch w i p = NewPageFailed \<or> page_close_ok w i then [Sleep (getRandomDelay w i)] else [])"
    using process_item_trace [of w i p s] pi by simp
  have l: "scrape_loop w i ((p # ps) @ c # rest) s = scrape_loop w (Suc i) (ps @ c # rest) s1"
    using pi r by simp
  have h1: "\<forall>k < length ps. fetch w (Suc i + k) (ps ! k) = NewPageFailed \<or> page_close_ok w (Suc i + k)"
  proof (intro allI impI)
    fix k assume "k < length ps"
    then have "Suc k < length (p # ps)" by simp
    from Cons.prems(1) [rule_format, OF this] show
      "fetch w (Suc i + k) (ps ! k) = NewPageFailed \<or> page_close_ok w (Suc i + k)" by simp
  qed
  have h2: "fetch w (Suc i + length ps) c \<noteq> NewPageFailed" "\<not> page_close_ok w (Suc i + length ps)"
    using Cons.prems(2,3) by simp_all
  from Cons.IH [OF h1 h2, of s1]
  obtain evs where e: "fst (scrape_loop w (Suc i) (ps @ c # rest) s1) = Some BrowserError
      \<and> trace (snd (scrape_loop w (Suc i) (ps @ c # rest) s1)) = trace s1 @ evs
      \<and> fetched evs = ps @ [c] \<and> posted evs = []"
    by blast
  show ?case unfolding l using e t by simp
qed

lemma run_codes_abort:
  assumes "launch_ok w" "filter (\<lambda>x. x \<notin> skipCodes) allStockCodes = pre @ c # rest"
    and "\<forall>k < length pre. fetch w k (pre ! k) = NewPageFailed \<or> page_close_ok w k"
    and "fetch w (length pre) c \<noteq> NewPageFailed" "\<not> page_close_ok w (length pre)"
  shows "fst (run_codes w allStockCodes skipCodes s) = Some BrowserError"
    and "\<exists>evs. trace (snd (run_codes w allStockCodes skipCodes s)) = trace s @ evs
            \<and> fetched evs = pre @ [c] \<and> posted evs = []"
proof -
  let ?s0 = "emit Launch s"
  have ne: "allStockCodes \<noteq> []" using assms(2) by auto
  from scrape_loop_abort [of pre w 0 c rest ?s0] assms(3,4,5)
  obtain evs where e: "fst (scrape_loop w 0 (pre @ c # rest) ?s0) = Some BrowserError
      \<and> trace (snd (scrape_loop w 0 (pre @ c # rest) ?s0)) = trace ?s0 @ evs
      \<and> fetched evs = pre @ [c] \<and> posted evs = []"
    by auto
  obtain s1 where l: "scrape_loop w 0 (pre @ c # rest) ?s0 = (Some BrowserError, s1)"
    using e by (cases "scrape_loop w 0 (pre @ c # rest) ?s0") simp
  have r: "run_codes w allStockCodes skipCodes s = (Some BrowserError, s1)"
    using ne assms(1,2) l by (simp add: run_codes_def)
  show "fst (run_codes w allStockCodes skipCodes s) = Some BrowserError" using r by simp
  have "trace s1 = trace s @ (Launch # evs)" using e l by simp
  then show "\<exists>evs. trace (snd (run_codes w allStockCodes skipCodes s)) = trace s @ evs
            \<and> fetched evs = pre @ [c] \<and> posted evs = []"
    unfolding r using e by (intro exI [of _ "Launch # evs"]) simp
qed

lemma failing_close_world_simps:
  "fst (reset_skip_list failing_close_world init_state) = None"
  "load_skip_codes failing_close_world = Inr {}"
  "env failing_close_world ''STOCK_CODES'' = Some (str ''A,B,C'')"
  "launch_ok failing_close_world"
  "split_on COMMA (str ''A,B,C'') = [str ''A'', str ''B'', str ''C'']"
  "fetch failing_close_world i (str ''B'') = PageFailed"
  "page_close_ok failing_close_world i \<longleftrightarrow> i \<noteq> 1"
  "fetch_failed failing_close_world i (str ''B'')"
proof -
  show "fst (reset_skip_list failing_close_world init_state) = None"
    by (simp add: failing_close_world_def reset_skip_list_def isFirstMonday_def)
  show "load_skip_codes failing_close_world = Inr {}"
    by (simp add: failing_close_world_def load_skip_codes_def)
  show "env failing_close_world ''STOCK_CODES'' = Some (str ''A,B,C'')"
    by (simp add: failing_close_world_def sample_env_def)
  show "launch_ok failing_close_world" "page_close_ok failing_close_world i \<longleftrightarrow> i \<noteq> 1"
    by (simp_all add: failing_close_world_def)
  show "split_on COMMA (str ''A,B,C'') = [str ''A'', str ''B'', str ''C'']"
    by (simp add: str_def COMMA_def)
  show f: "fetch failing_close_world i (str ''B'') = PageFailed"
    by (simp add: failing_close_world_def sample_fetch_def str_def)
  show "fetch_failed failing_close_world i (str ''B'')" using f by (simp add: fetch_failed_def)
qed

lemma failing_close_world_run:
  "fst (scrapeStockData failing_close_world) = Some BrowserError"
  "fetched (trace (snd (scrapeStockData failing_close_world))) = [str ''A'', str ''B'']"
  "posted (trace (snd (scrapeStockData failing_close_world))) = []"
proof -
  let ?w = failing_close_world
  let ?s0 = "emit ReadFile (snd (reset_skip_list ?w init_state))"
  let ?codes = "[str ''A'', str ''B'', str ''C'']"
  have r: "scrapeStockData ?w = run_codes ?w ?codes {} ?s0"
    using scrapeStockData_loaded [OF failing_close_world_simps(1,2,3)]
    by (simp add: failing_close_world_simps(5))
  have f: "filter (\<lambda>x. x \<notin> {}) ?codes = [str ''A''] @ str ''B'' # [str ''C'']" by simp
  have p: "\<forall>k < length [str ''A'']. fetch ?w k ([str ''A''] ! k) = NewPageFailed \<or> page_close_ok ?w k"
    by (simp add: failing_close_world_simps(7))
  have c: "fetch ?w (length [str ''A'']) (str ''B'') \<noteq> NewPageFailed"
    "\<not> page_close_ok ?w (length [str ''A''])"
    by (simp_all add: failing_close_world_simps(6,7))
  note a = run_codes_abort [where s = ?s0, OF failing_close_world_simps(4) f p c]
  show "fst (scrapeStockData ?w) = Some BrowserError" unfolding r by (rule a(1))
  from a(2) obtain evs where e: "trace (snd (run_codes ?w ?codes {} ?s0)) = trace ?s0 @ evs
      \<and> fetched evs = [str ''A''] @ [str ''B''] \<and> posted evs = []"
    by blast
  have f0: "fetched (trace ?s0) = []" "posted (trace ?s0) = []" by (simp_all add: reset_frame)
  show "fetched (trace (snd (scrapeStockData ?w))) = [str ''A'', str ''B'']"
    unfolding r using e f0 by simp
  show "posted (trace (snd (scrapeStockData ?w))) = []"
    unfolding r using e f0 by simp
qed

subsection \<open>Batches and titles\<close>

lemma concat_batches_take:
  "concat (map (\<lambda>k. batch_no k xs) [0..<n]) = take (n * BATCH_SIZE) xs"
proof (induction n)
  case 0 then show ?case by simp
next
  case (Suc n)
  have "take (n * BATCH_SIZE) xs @ take BATCH_SIZE (drop (n * BATCH_SIZE) xs)
          = take (n * BATCH_SIZE + BATCH_SIZE) xs"
    by (simp add: take_add)
  then show ?case using Suc by (simp add: batch_no_def add.commute)
qed

lemma length_le_batches: "length xs \<le> batch_count xs * BATCH_SIZE"
  unfolding batch_count_def BATCH_SIZE_def by arith

lemma concat_batches: "concat (map (\<lambda>k. batch_no k xs) [0..<batch_count xs]) = xs"
  by (simp add: concat_batches_take length_le_batches)

lemma posted_intersperse:
  "posted (intersperse (Sleep 1000) (map PostMessage ms)) = ms"
  by (induction ms rule: induct_list012) simp_all

lemma items_batch_message [simp]:
  "items (batch_message w k xs) = batch_no k xs"
  "title (batch_message w k xs) = mk_title (getKSTTimestamp w k) (length (batch_no k xs))"
  by (simp_all add: batch_message_def)

lemma dispatch_ready_posted:
  fixes w :: world and s :: state
  assumes "slack_ready w"
  defines "ordered \<equiv> sort_by compare_gap (notificationBatch s)"
  shows "added s (snd (dispatch w s))
           = intersperse (Sleep 1000) (map PostMessage (map (\<lambda>k. batch_message w k ordered) [0..<batch_count ordered]))"
    and "posted (added s (snd (dispatch w s))) = map (\<lambda>k. batch_message w k ordered) [0..<batch_count ordered]"
    and "notificationBatch (snd (dispatch w s)) = ordered"
    and "fst (dispatch w s) = None"
proof -
  show a: "added s (snd (dispatch w s))
           = intersperse (Sleep 1000) (map PostMessage (map (\<lambda>k. batch_message w k ordered) [0..<batch_count ordered]))"
    unfolding ordered_def by (rule added_append) (simp add: dispatch_ready [OF assms(1)] comp_def)
  show "posted (added s (snd (dispatch w s))) = map (\<lambda>k. batch_message w k ordered) [0..<batch_count ordered]"
    unfolding a by (rule posted_intersperse)
  show "notificationBatch (snd (dispatch w s)) = ordered" "fst (dispatch w s) = None"
    unfolding ordered_def by (simp_all add: dispatch_ready [OF assms(1)])
qed

lemma gaps_ok_sample: "gaps_ok (sample_batch n)"
  using on_grid_of_int [of "int (20 + k)" for k]
  by (auto simp: gaps_ok_def sample_batch_def mk_candidate_def wf_num_def)

lemma length_sample_batch [simp]: "length (sample_batch n) = n"
  by (simp add: sample_batch_def)

lemma batch_vocabulary:
  "batch_count xs = (length xs + 4) div 5" "batch_no k xs = take 5 (drop (k * 5) xs)"
  by (simp_all add: batch_count_def batch_no_def BATCH_SIZE_def)

lemma scrape_loop_from_empty_gaps_ok:
  "gaps_ok (notificationBatch (snd (scrape_loop w i codes init_state)))"
  by (rule scrape_loop_gaps_ok) (simp add: gaps_ok_def init_state_def)

lemma digits_val_snoc: "digits_val (xs @ [c]) = 10 * digits_val xs + (c - 48)"
  by (simp add: digits_val_def)

lemma digits_val_show_nat: "digits_val (show_nat n) = n"
proof (induction n rule: show_nat.induct)
  case (1 n)
  show ?case
  proof (cases "n < 10")
    case True
    then show ?thesis by (subst show_nat.simps) (simp add: digits_val_def)
  next
    case False
    then show ?thesis using 1 by (subst show_nat.simps) (simp add: digits_val_snoc)
  qed
qed

lemma show_nat_inj: "show_nat n = show_nat n' \<Longrightarrow> n = n'"
  by (metis digits_val_show_nat)

lemma mk_title_inj: "mk_title ts n = mk_title ts n' \<Longrightarrow> n = n'"
  by (auto simp: mk_title_def dest: show_nat_inj)

lemma own_count_title:
  assumes "own_count w xs m"
  shows "\<exists>k. title m = mk_title (getKSTTimestamp w k) (length (items m))
           \<and> 0 < length (items m) \<and> length (items m) \<le> BATCH_SIZE"
  using assms unfolding own_count_def by auto

lemma scrapeStockData_posted:
  assumes "m \<in> set (posted (trace (snd (scrapeStockData w))))"
  shows "\<exists>k. title m = mk_title (getKSTTimestamp w k) (length (items m))
           \<and> 0 < length (items m) \<and> length (items m) \<le> BATCH_SIZE"
  using scrapeStockData_cases [of w]
proof (elim disjE exE conjE)
  fix e s assume "scrapeStockData w = (Some e, s)" "posted (trace s) = []"
  then show ?thesis using assms by simp
next
  fix v skipCodes
  let ?s0 = "emit ReadFile (snd (reset_skip_list w init_state))"
  assume r: "scrapeStockData w = run_codes w (split_on COMMA v) skipCodes ?s0"
  have s0: "posted (trace ?s0) = []" by (simp add: reset_frame)
  have "posted (trace (snd (run_codes w (split_on COMMA v) skipCodes ?s0)))
            = posted (added ?s0 (snd (run_codes w (split_on COMMA v) skipCodes ?s0)))"
    using s0 run_codes_extends by (rule added_posted)
  then have "m \<in> set (posted (added ?s0 (snd (run_codes w (split_on COMMA v) skipCodes ?s0))))"
    using assms r by simp
  moreover from run_codes_posted [of ?s0 w "split_on COMMA v" skipCodes]
  obtain xs where "\<forall>m \<in> set (posted (added ?s0 (snd (run_codes w (split_on COMMA v) skipCodes ?s0)))).
       own_count w xs m" by blast
  ultimately have "own_count w xs m" by blast
  then show ?thesis by (rule own_count_title)
qed

lemma dispatch_posted:
  assumes "m \<in> set (posted (added s (snd (dispatch w s))))"
  shows "\<exists>k. title m = mk_title (getKSTTimestamp w k) (length (items m))
           \<and> 0 < length (items m) \<and> length (items m) \<le> BATCH_SIZE"
proof -
  from dispatch_frame [of w s]
  obtain evs where e: "trace (snd (dispatch w s)) = trace s @ evs"
    "\<forall>m \<in> set (posted evs). own_count w (sort_by compare_gap (notificationBatch s)) m"
    by blast
  have "added s (snd (dispatch w s)) = evs" using e(1) by (rule added_append)
  then have "own_count w (sort_by compare_gap (notificationBatch s)) m" using assms e(2) by simp
  then show ?thesis by (rule own_count_title)
qed

lemma dispatch_ready_titles:
  assumes "slack_ready w"
  shows "map title (posted (added s (snd (dispatch w s))))
     = map (\<lambda>k. mk_title (getKSTTimestamp w k)
                   (length (take 5 (drop (k * 5) (sort_by compare_gap (notificationBatch s))))))
           [0..<(length (notificationBatch s) + 4) div 5]"
  unfolding dispatch_ready_posted(2) [OF assms]
  by (simp add: comp_def batch_vocabulary length_sort_by)

lemma sample_six_posted:
  "posted (added (init_state\<lparr>notificationBatch := sample_batch 6\<rparr>)
      (snd (dispatch sample_world (init_state\<lparr>notificationBatch := sample_batch 6\<rparr>))))
   = [batch_message sample_world 0 (sort_by compare_gap (sample_batch 6)),
      batch_message sample_world 1 (sort_by compare_gap (sample_batch 6))]"
proof -
  have sr: "slack_ready sample_world" by simp
  have u: "[0..<2] = [0, 1]" by (simp add: upt_rec)
  show ?thesis
    unfolding dispatch_ready_posted(2) [OF sr]
    by (simp add: batch_vocabulary(1) length_sort_by u)
qed

lemma sample_six_titles:
  "title (batch_message sample_world 0 (sort_by compare_gap (sample_batch 6)))
     = mk_title (str ''2025-01-07 07:00'') 5"
  "title (batch_message sample_world 1 (sort_by compare_gap (sample_batch 6)))
     = mk_title (str ''2025-01-07 07:00'') 1"
  by (simp_all add: batch_vocabulary(2) length_sort_by)

section \<open>Facts about the scheduler\<close>

lemma sched_run_snoc: "sched_run (evs @ [e]) = sched_step (sched_run evs) e"
  by (simp add: sched_run_def)

lemma guard_invariant:
  "running (sched_run evs) \<le> 1 \<and> (isScraping (sched_run evs) \<longleftrightarrow> running (sched_run evs) = 1)"
proof (induction evs rule: rev_induct)
  case Nil
  show ?case by (simp add: sched_run_def scheduler_init_def)
next
  case (snoc e evs)
  show ?case
  proof (cases e)
    case Trigger
    then show ?thesis using snoc
      by (auto simp: sched_run_snoc on_trigger_def log_def Let_def)
  next
    case (Settled r)
    then show ?thesis using snoc
      by (auto simp: sched_run_snoc on_settled_def log_def Let_def split: option.splits)
  qed
qed

lemma sample_schedule:
  "sched_run [Trigger, Trigger, Settled (Some SlackError), Trigger]
     = \<lparr>isScraping = True,
        console = [LogStart, LogStart, LogSkip, LogError SlackError, LogDone, LogStart],
        started = 2, running = 1\<rparr>"
  "sched_run [Trigger] = \<lparr>isScraping = True, console = [LogStart], started = 1, running = 1\<rparr>"
  "sched_run [] = scheduler_init"
  by (simp_all add: sched_run_def scheduler_init_def on_trigger_def on_settled_def log_def Let_def)

section \<open>C1: production of an alert candidate\<close>



section \<open>C2: the run guard\<close>

text \<open>
  C2. The guard \<open>isScraping\<close> is one boolean of the scheduler. Whatever triggers and
  settlements have happened, at most one run is in flight, and the guard is set exactly
  when one is. A trigger that finds the guard set starts no run: it logs the skip and
  leaves the guard and the runs as they are. A trigger that finds it clear sets it and
  starts one run. When the run settles, fulfilled or rejected, the guard is cleared; a
  rejection is logged, and the next trigger starts a run again.
\<close>

theorem run_guard:
  fixes evs :: "sched_event list" and s :: scheduler and r :: "exn option" and e :: exn
  shows
    "running (sched_run evs) \<le> 1 \<and>
     (isScraping (sched_run evs) \<longleftrightarrow> running (sched_run evs) = 1) \<and>
     (isScraping s \<longrightarrow>
        started (on_trigger s) = started s \<and> running (on_trigger s) = running s
        \<and> isScraping (on_trigger s) = isScraping s
        \<and> console (on_trigger s) = console s @ [LogStart, LogSkip]) \<and>
     (\<not> isScraping s \<longrightarrow>
        isScraping (on_trigger s) \<and> started (on_trigger s) = started s + 1
        \<and> running (on_trigger s) = running s + 1
        \<and> console (on_trigger s) = console s @ [LogStart]) \<and>
     \<not> isScraping (on_settled r s) \<and> started (on_settled r s) = started s \<and>
     console (on_settled None s) = console s @ [LogDone] \<and>
     console (on_settled (Some e) s) = console s @ [LogError e, LogDone] \<and>
     (isScraping (on_trigger (on_settled (Some e) s))
        \<and> started (on_trigger (on_settled (Some e) s)) = started s + 1)"
  using guard_invariant [of evs]
  by (simp add: on_trigger_def on_settled_def log_def Let_def split: option.splits)

theorem run_guard_witness:
  "isScraping (sched_run [Trigger])
   \<and> started (on_trigger (sched_run [Trigger])) = 1
   \<and> console (on_trigger (sched_run [Trigger])) = [LogStart, LogStart, LogSkip]
   \<and> isScraping (on_trigger (sched_run [Trigger]))
   \<and> \<not> isScraping (sched_run [])
   \<and> isScraping (on_trigger (sched_run [])) \<and> started (on_trigger (sched_run [])) = 1
   \<and> running (sched_run [Trigger, Trigger, Settled (Some SlackError), Trigger]) = 1
   \<and> started (sched_run [Trigger, Trigger, Settled (Some SlackError), Trigger]) = 2"
proof -
  note A = run_guard [where evs = "[Trigger, Trigger, Settled (Some SlackError), Trigger]"
      and s = "sched_run [Trigger]" and r = None and e = SlackError]
  note B = run_guard [where evs = "[]" and s = "sched_run []" and r = None and e = SlackError]
  have g: "isScraping (sched_run [Trigger])" by (simp add: sample_schedule)
  have n: "\<not> isScraping (sched_run [])" by (simp add: sample_schedule scheduler_init_def)
  have 1: "started (on_trigger (sched_run [Trigger])) = 1
     \<and> console (on_trigger (sched_run [Trigger])) = [LogStart, LogStart, LogSkip]
     \<and> isScraping (on_trigger (sched_run [Trigger]))"
    using A [THEN conjunct2, THEN conjunct2, THEN conjunct1] g by (simp add: sample_schedule)
  have 2: "isScraping (on_trigger (sched_run [])) \<and> started (on_trigger (sched_run [])) = 1"
    using B [THEN conjunct2, THEN conjunct2, THEN conjunct2, THEN conjunct1] n
    by (simp add: sample_schedule scheduler_init_def)
  have 3: "running (sched_run [Trigger, Trigger, Settled (Some SlackError), Trigger]) = 1"
    using A [THEN conjunct2, THEN conjunct1] by (simp add: sample_schedule)
  show ?thesis using g n 1 2 3 by (simp add: sample_schedule)
qed

section \<open>C3: the universe without the exclusions\<close>

text \<open>
  C3. For every universe \<open>allStockCodes\<close> and every loaded exclusion set \<open>skipCodes\<close>, the
  codes the run fetches are, in universe order, codes of the universe that are not in the
  exclusion set: always a prefix of that list, and the whole list when the browser starts
  and its pages close. No excluded code is ever fetched. For the universe A, B, C and the
  exclusion set \<open>{B}\<close> the run fetches A and then C.
\<close>

theorem universe_filtering:
  fixes w :: world and allStockCodes :: "jstring list" and skipCodes :: "jstring set"
    and s :: state
  defines "evs \<equiv> added s (snd (run_codes w allStockCodes skipCodes s))"
  shows
    "prefix (fetched evs) (filter (\<lambda>c. c \<notin> skipCodes) allStockCodes) \<and>
     (launch_ok w \<and> pages_close w \<longrightarrow>
        fetched evs = filter (\<lambda>c. c \<notin> skipCodes) allStockCodes) \<and>
     (\<forall>c \<in> skipCodes. c \<notin> set (fetched evs)) \<and>
     (allStockCodes = [str ''A'', str ''B'', str ''C''] \<and> skipCodes = {str ''B''}
        \<and> launch_ok w \<and> pages_close w \<longrightarrow> fetched evs = [str ''A'', str ''C''])"
proof -
  let ?codes = "filter (\<lambda>c. c \<notin> skipCodes) allStockCodes"
  from run_codes_trace [of skipCodes allStockCodes w s]
  obtain n tr where t: "n \<le> length ?codes
     \<and> trace (snd (run_codes w allStockCodes skipCodes s)) = trace s @ tr
     \<and> fetched tr = take n ?codes
     \<and> appended tr = skip_lines w 0 (take n ?codes)
     \<and> (launch_ok w \<and> pages_close w \<longrightarrow> n = length ?codes)"
    by (elim exE)
  have evs: "evs = tr" unfolding evs_def using t by (intro added_append) simp
  have f: "fetched evs = take n ?codes" using t evs by simp
  have 1: "prefix (fetched evs) ?codes" unfolding f by (rule take_is_prefix)
  have 2: "launch_ok w \<and> pages_close w \<longrightarrow> fetched evs = ?codes" using t f by simp
  have 3: "\<forall>c \<in> skipCodes. c \<notin> set (fetched evs)"
    using 1 by (auto dest!: set_mono_prefix)
  have 4: "allStockCodes = [str ''A'', str ''B'', str ''C''] \<and> skipCodes = {str ''B''}
        \<and> launch_ok w \<and> pages_close w \<longrightarrow> fetched evs = [str ''A'', str ''C'']"
    using 2 by (auto simp: str_def)
  show ?thesis using 1 2 3 4 by blast
qed

theorem universe_filtering_witness:
  "launch_ok sample_world \<and> pages_close sample_world \<and> str ''B'' \<in> {str ''B''}
   \<and> fetched (added init_state
        (snd (run_codes sample_world [str ''A'', str ''B'', str ''C''] {str ''B''} init_state)))
       = [str ''A'', str ''C'']
   \<and> str ''B'' \<notin> set (fetched (added init_state
        (snd (run_codes sample_world [str ''A'', str ''B'', str ''C''] {str ''B''} init_state))))"
  using universe_filtering [where w = sample_world
      and allStockCodes = "[str ''A'', str ''B'', str ''C'']" and skipCodes = "{str ''B''}"
      and s = init_state]
  by (simp add: str_def)

section \<open>C4: the market-capitalisation parser\<close>

text \<open>
  C4, as the code has it. For numbers printed with digits and grouping commas,
  \<open>parseMarketCapToBillions\<close> returns ten thousand times the number before the large unit
  plus the number before the small unit, in the combined, the large-only and the
  small-only form, exactly as long as the quantity is at most \<open>2 ^ 53\<close>; a string with
  neither unit (the empty string among them) and a value that is not a string give 0.
  A form with a number that cannot be read gives \<open>NaN\<close>, not 0: the number before the
  small unit of the small-only form, the number before the large unit of any form with
  the large unit, and the number before the small unit of the combined form, whatever
  stands before the large unit. The function is total: no input raises.
\<close>

theorem parseMarketCapToBillions_forms:
  "(grouped_number a \<and> grouped_number b \<and> 10000 * number_value a + number_value b \<le> 2 ^ 53 \<longrightarrow>
      parseMarketCapToBillions (JString (a @ [JO] @ b @ [EOK]))
        = Fin (of_nat (10000 * number_value a + number_value b))) \<and>
   (grouped_number a \<and> 10000 * number_value a \<le> 2 ^ 53 \<longrightarrow>
      parseMarketCapToBillions (JString (a @ [JO])) = Fin (of_nat (10000 * number_value a))) \<and>
   (grouped_number b \<and> number_value b \<le> 2 ^ 53 \<longrightarrow>
      parseMarketCapToBillions (JString (b @ [EOK])) = Fin (of_nat (number_value b))) \<and>
   (JO \<notin> set s \<and> EOK \<notin> set s \<longrightarrow> parseMarketCapToBillions (JString s) = Fin 0) \<and>
   ((\<forall>m. v \<noteq> JString m) \<longrightarrow> parseMarketCapToBillions v = Fin 0) \<and>
   (JO \<notin> set t \<and> EOK \<in> set t \<and> parseInt (replace_first EOK (replace_all COMMA t)) = NaN \<longrightarrow>
      parseMarketCapToBillions (JString t) = NaN) \<and>
   (JO \<in> set t \<and> parseInt (takeWhile (\<lambda>c. c \<noteq> JO) (replace_all COMMA t)) = NaN \<longrightarrow>
      parseMarketCapToBillions (JString t) = NaN) \<and>
   (JO \<in> set t \<and> EOK \<in> set (split_on JO (replace_all COMMA t) ! 1)
      \<and> parseInt (replace_first EOK (split_on JO (replace_all COMMA t) ! 1)) = NaN \<longrightarrow>
      parseMarketCapToBillions (JString t) = NaN)"
  using market_cap_combined [of a b] market_cap_large [of a] market_cap_small [of b]
    market_cap_neither [of s] market_cap_non_string [of v]
    market_cap_small_NaN [of t] market_cap_large_NaN [of t] market_cap_combined_NaN [of t]
  by blast

theorem parseMarketCapToBillions_forms_witness:
  "grouped_number (str ''2'') \<and> grouped_number (str ''4,674'')
   \<and> 10000 * number_value (str ''2'') + number_value (str ''4,674'') \<le> 2 ^ 53
   \<and> parseMarketCapToBillions (JString (str ''2'' @ [JO] @ str ''4,674'' @ [EOK])) = Fin 24674
   \<and> parseMarketCapToBillions (JString (str ''2'' @ [JO])) = Fin 20000
   \<and> parseMarketCapToBillions (JString (str ''4,674'' @ [EOK])) = Fin 4674
   \<and> parseMarketCapToBillions (JString []) = Fin 0
   \<and> parseMarketCapToBillions JUndefined = Fin 0
   \<and> JO \<notin> set (str ''abc'' @ [EOK]) \<and> EOK \<in> set (str ''abc'' @ [EOK])
   \<and> parseInt (replace_first EOK (replace_all COMMA (str ''abc'' @ [EOK]))) = NaN
   \<and> parseMarketCapToBillions (JString (str ''abc'' @ [EOK])) = NaN
   \<and> JO \<in> set (str ''x'' @ [JO] @ str ''5'' @ [EOK])
   \<and> parseInt (takeWhile (\<lambda>c. c \<noteq> JO) (replace_all COMMA (str ''x'' @ [JO] @ str ''5'' @ [EOK]))) = NaN
   \<and> parseMarketCapToBillions (JString (str ''x'' @ [JO] @ str ''5'' @ [EOK])) = NaN
   \<and> JO \<in> set (str ''2'' @ [JO] @ str ''abc'' @ [EOK])
   \<and> parseInt (takeWhile (\<lambda>c. c \<noteq> JO) (replace_all COMMA (str ''2'' @ [JO] @ str ''abc'' @ [EOK]))) = Fin 2
   \<and> split_on JO (replace_all COMMA (str ''2'' @ [JO] @ str ''abc'' @ [EOK])) ! 1 = str ''abc'' @ [EOK]
   \<and> parseInt (replace_first EOK (str ''abc'' @ [EOK])) = NaN
   \<and> parseMarketCapToBillions (JString (str ''2'' @ [JO] @ str ''abc'' @ [EOK])) = NaN
   \<and> split_on JO (replace_all COMMA (str ''2'' @ [JO, EOK])) ! 1 = [EOK]
   \<and> parseMarketCapToBillions (JString (str ''2'' @ [JO, EOK])) = NaN"
proof -
  note A = parseMarketCapToBillions_forms
    [of "str ''2''" "str ''4,674''" "[]" JUndefined "str ''abc'' @ [EOK]"]
  note B = parseMarketCapToBillions_forms
    [of "str ''2''" "str ''4,674''" "[]" JUndefined "str ''x'' @ [JO] @ str ''5'' @ [EOK]"]
  note C = parseMarketCapToBillions_forms
    [of "str ''2''" "str ''4,674''" "[]" JUndefined "str ''2'' @ [JO] @ str ''abc'' @ [EOK]"]
  note D = parseMarketCapToBillions_forms
    [of "str ''2''" "str ''4,674''" "[]" JUndefined "str ''2'' @ [JO, EOK]"]
  have old: "grouped_number (str ''2'') \<and> grouped_number (str ''4,674'')
   \<and> 10000 * number_value (str ''2'') + number_value (str ''4,674'') \<le> 2 ^ 53
   \<and> parseMarketCapToBillions (JString (str ''2'' @ [JO] @ str ''4,674'' @ [EOK])) = Fin 24674
   \<and> parseMarketCapToBillions (JString (str ''2'' @ [JO])) = Fin 20000
   \<and> parseMarketCapToBillions (JString (str ''4,674'' @ [EOK])) = Fin 4674
   \<and> parseMarketCapToBillions (JString []) = Fin 0
   \<and> parseMarketCapToBillions JUndefined = Fin 0
   \<and> JO \<notin> set (str ''abc'' @ [EOK]) \<and> EOK \<in> set (str ''abc'' @ [EOK])
   \<and> parseInt (replace_first EOK (replace_all COMMA (str ''abc'' @ [EOK]))) = NaN
   \<and> parseMarketCapToBillions (JString (str ''abc'' @ [EOK])) = NaN
   \<and> JO \<in> set (str ''x'' @ [JO] @ str ''5'' @ [EOK])
   \<and> parseInt (takeWhile (\<lambda>c. c \<noteq> JO) (replace_all COMMA (str ''x'' @ [JO] @ str ''5'' @ [EOK]))) = NaN
   \<and> parseMarketCapToBillions (JString (str ''x'' @ [JO] @ str ''5'' @ [EOK])) = NaN"
    using A B
    by (simp add: grouped_number_def number_value_def str_def is_digit_def COMMA_def JO_def EOK_def
        replace_all_def replace_first_def digits_val_def parseInt_def is_ws_def)
  have j: "JO \<in> set (str ''2'' @ [JO] @ str ''abc'' @ [EOK])" "JO \<in> set (str ''2'' @ [JO, EOK])"
    by simp_all
  have c: "parseMarketCapToBillions (JString (str ''2'' @ [JO] @ str ''abc'' @ [EOK])) = NaN"
    using C [THEN conjunct2, THEN conjunct2, THEN conjunct2, THEN conjunct2, THEN conjunct2,
        THEN conjunct2, THEN conjunct2] j(1) unreadable_small_examples(1,2)
    by simp
  have d: "parseMarketCapToBillions (JString (str ''2'' @ [JO, EOK])) = NaN"
    using D [THEN conjunct2, THEN conjunct2, THEN conjunct2, THEN conjunct2, THEN conjunct2,
        THEN conjunct2, THEN conjunct2] j(2) unreadable_small_examples(3,4)
    by simp
  show ?thesis
    using old j(1) unreadable_small_examples(5,1,2,3) c d by (intro conjI) (simp_all only: simp_thms)
qed

theorem parseMarketCapToBillions_unparseable_counterexample:
  "parseMarketCapToBillions (JString (str ''abc'' @ [EOK])) \<noteq> Fin 0
   \<and> parseMarketCapToBillions (JString (str ''abc'' @ [EOK])) = NaN
   \<and> parseMarketCapToBillions (JString (str ''x'' @ [JO] @ str ''5'' @ [EOK])) \<noteq> Fin 5
   \<and> parseMarketCapToBillions (JString (str ''x'' @ [JO] @ str ''5'' @ [EOK])) = NaN
   \<and> parseMarketCapToBillions (JString (str ''9007199254740993'' @ [EOK])) = Fin 9007199254740992"
  by (simp add: parseMarketCapToBillions_def str_includes_def str_def COMMA_def JO_def EOK_def
        replace_all_def replace_first_def digits_val_def parseInt_def is_ws_def is_digit_def
        fl_above_2_53 fl_numeral Let_def)

section \<open>C5: ordered batches and the delays between them\<close>

text \<open>
  C5. With a configured Slack channel that accepts the messages, the dispatch sorts the
  accumulated candidates by gap in ascending order (the sorted batch is a rearrangement of
  the accumulated one) and posts it in consecutive slices of at most 5, one message per
  slice, in that order: the \<open>k\<close>-th message carries the candidates from position \<open>5 k\<close> on.
  Between two consecutive messages, and nowhere else, it sleeps once for 1000
  milliseconds, so no delay follows the last message. Twelve candidates give three messages of 5, 5 and 2 candidates. The
  gaps of the candidates that the loop accumulates are doubles other than \<open>NaN\<close>, as the
  ordering needs.
\<close>

theorem dispatch_batches:
  fixes w :: world and s :: state and i :: nat and codes :: "jstring list"
  assumes "slack_ready w" and "gaps_ok (notificationBatch s)"
  defines "ordered \<equiv> sort_by compare_gap (notificationBatch s)"
  defines "evs \<equiv> added s (snd (dispatch w s))"
  shows
    "sorted_wrt (\<lambda>a b. js_le (gap a) (gap b)) ordered
     \<and> mset ordered = mset (notificationBatch s)
     \<and> notificationBatch (snd (dispatch w s)) = ordered
     \<and> fst (dispatch w s) = None
     \<and> evs = intersperse (Sleep 1000) (map PostMessage (posted evs))
     \<and> map items (posted evs)
         = map (\<lambda>k. take 5 (drop (k * 5) ordered)) [0..<(length ordered + 4) div 5]
     \<and> concat (map items (posted evs)) = ordered
     \<and> (\<forall>m \<in> set (posted evs). length (items m) \<le> 5)
     \<and> (length (notificationBatch s) = 12 \<longrightarrow>
          map (\<lambda>m. length (items m)) (posted evs) = [5, 5, 2])
     \<and> gaps_ok (notificationBatch (snd (scrape_loop w i codes init_state)))"
proof -
  note d = dispatch_ready_posted [OF assms(1), of s, folded ordered_def evs_def]
  have 1: "sorted_wrt (\<lambda>a b. js_le (gap a) (gap b)) ordered"
    using sorted_sort_by [OF assms(2)] unfolding ordered_def gap_le_def .
  have 2: "mset ordered = mset (notificationBatch s)" unfolding ordered_def by (rule mset_sort_by)
  have 5: "evs = intersperse (Sleep 1000) (map PostMessage (posted evs))" using d(1,2) by simp
  have 6: "map items (posted evs)
         = map (\<lambda>k. take 5 (drop (k * 5) ordered)) [0..<(length ordered + 4) div 5]"
    unfolding d(2) by (simp add: comp_def batch_vocabulary)
  have 7: "concat (map items (posted evs)) = ordered"
    unfolding d(2) using concat_batches [of ordered] by (simp add: comp_def)
  have 8: "\<forall>m \<in> set (posted evs). length (items m) \<le> 5"
    unfolding d(2) by (auto simp: batch_vocabulary)
  have 9: "length (notificationBatch s) = 12 \<longrightarrow>
          map (\<lambda>m. length (items m)) (posted evs) = [5, 5, 2]"
  proof
    assume "length (notificationBatch s) = 12"
    then have l: "length ordered = 12" unfolding ordered_def by (simp add: length_sort_by)
    have u: "[0..<3] = [0, 1, 2]" by (simp add: upt_rec)
    show "map (\<lambda>m. length (items m)) (posted evs) = [5, 5, 2]"
      unfolding d(2) by (simp add: comp_def batch_vocabulary l u)
  qed
  show ?thesis using 1 2 d(3) d(4) 5 6 7 8 9 scrape_loop_from_empty_gaps_ok by simp
qed

theorem dispatch_batches_witness:
  "slack_ready sample_world
   \<and> gaps_ok (notificationBatch (init_state\<lparr>notificationBatch := sample_batch 12\<rparr>))
   \<and> length (notificationBatch (init_state\<lparr>notificationBatch := sample_batch 12\<rparr>)) = 12
   \<and> sorted_wrt (\<lambda>a b. js_le (gap a) (gap b)) (sort_by compare_gap (sample_batch 12))
   \<and> map (\<lambda>m. length (items m))
        (posted (added (init_state\<lparr>notificationBatch := sample_batch 12\<rparr>)
           (snd (dispatch sample_world (init_state\<lparr>notificationBatch := sample_batch 12\<rparr>)))))
       = [5, 5, 2]
   \<and> concat (map items
        (posted (added (init_state\<lparr>notificationBatch := sample_batch 12\<rparr>)
           (snd (dispatch sample_world (init_state\<lparr>notificationBatch := sample_batch 12\<rparr>))))))
       = sort_by compare_gap (sample_batch 12)"
proof -
  let ?s = "init_state\<lparr>notificationBatch := sample_batch 12\<rparr>"
  have g: "gaps_ok (notificationBatch ?s)" by (simp add: gaps_ok_sample)
  have sr: "slack_ready sample_world" by simp
  have n: "notificationBatch ?s = sample_batch 12" by simp
  note T = dispatch_batches [where w = sample_world and s = ?s and i = 0 and codes = "[]", OF sr g]
  have 1: "sorted_wrt (\<lambda>a b. js_le (gap a) (gap b)) (sort_by compare_gap (sample_batch 12))"
    using T [THEN conjunct1] unfolding n .
  have 2: "concat (map items (posted (added ?s (snd (dispatch sample_world ?s)))))
             = sort_by compare_gap (sample_batch 12)"
    using T [THEN conjunct2, THEN conjunct2, THEN conjunct2, THEN conjunct2, THEN conjunct2,
             THEN conjunct2, THEN conjunct1] unfolding n .
  have 3: "map (\<lambda>m. length (items m)) (posted (added ?s (snd (dispatch sample_world ?s)))) = [5, 5, 2]"
    using T [THEN conjunct2, THEN conjunct2, THEN conjunct2, THEN conjunct2, THEN conjunct2,
             THEN conjunct2, THEN conjunct2, THEN conjunct2, THEN conjunct1] by simp
  show ?thesis using sr g 1 2 3 by simp
qed

section \<open>C6: the count in the title of a message\<close>

text \<open>
  C6, as the code has it. The title of every message that a run or a dispatch posts is
  the bracketed time stamp taken when it is sent, the label, and in parentheses the number
  of candidates in that message, which is between 1 and 5: with a Slack channel that is
  ready, the \<open>k\<close>-th message shows the smaller of 5 and the number of candidates from
  position \<open>5 k\<close> on, not the size of the whole batch. Titles with different counts differ.
\<close>

theorem message_title_count:
  fixes w :: world and s :: state and m :: message and ts :: jstring and n n' :: nat
  shows
    "(m \<in> set (posted (trace (snd (scrapeStockData w))))
        \<or> m \<in> set (posted (added s (snd (dispatch w s)))) \<longrightarrow>
        (\<exists>k. title m = mk_title (getKSTTimestamp w k) (length (items m))
            \<and> 0 < length (items m) \<and> length (items m) \<le> 5)) \<and>
     mk_title ts n
       = str ''['' @ ts @ str ''] '' @ TITLE_LABEL @ str '' ('' @ show_nat n @ [GEON] @ str '')'' \<and>
     (mk_title ts n = mk_title ts n' \<longrightarrow> n = n') \<and>
     (slack_ready w \<longrightarrow>
        map title (posted (added s (snd (dispatch w s))))
          = map (\<lambda>k. mk_title (getKSTTimestamp w k) (min 5 (length (notificationBatch s) - k * 5)))
                [0..<(length (notificationBatch s) + 4) div 5])"
proof -
  have 1: "m \<in> set (posted (trace (snd (scrapeStockData w))))
        \<or> m \<in> set (posted (added s (snd (dispatch w s)))) \<longrightarrow>
        (\<exists>k. title m = mk_title (getKSTTimestamp w k) (length (items m))
            \<and> 0 < length (items m) \<and> length (items m) \<le> 5)"
    using scrapeStockData_posted [of m w] dispatch_posted [of m s w]
    by (auto simp: BATCH_SIZE_def)
  have 2: "mk_title ts n
       = str ''['' @ ts @ str ''] '' @ TITLE_LABEL @ str '' ('' @ show_nat n @ [GEON] @ str '')''"
    by (simp add: mk_title_def)
  have 3: "mk_title ts n = mk_title ts n' \<longrightarrow> n = n'" using mk_title_inj by blast
  have 4: "slack_ready w \<longrightarrow>
        map title (posted (added s (snd (dispatch w s))))
          = map (\<lambda>k. mk_title (getKSTTimestamp w k) (min 5 (length (notificationBatch s) - k * 5)))
                [0..<(length (notificationBatch s) + 4) div 5]"
    using dispatch_ready_titles [of w s] by (simp add: length_sort_by min.commute)
  show ?thesis using 1 2 3 4 by blast
qed

theorem message_title_count_witness:
  "batch_message sample_world 0 (sort_by compare_gap (sample_batch 6))
     \<in> set (posted (added (init_state\<lparr>notificationBatch := sample_batch 6\<rparr>)
          (snd (dispatch sample_world (init_state\<lparr>notificationBatch := sample_batch 6\<rparr>)))))
   \<and> (\<exists>k. title (batch_message sample_world 0 (sort_by compare_gap (sample_batch 6)))
            = mk_title (getKSTTimestamp sample_world k)
                (length (items (batch_message sample_world 0 (sort_by compare_gap (sample_batch 6))))))
   \<and> slack_ready sample_world
   \<and> map title (posted (added (init_state\<lparr>notificationBatch := sample_batch 6\<rparr>)
          (snd (dispatch sample_world (init_state\<lparr>notificationBatch := sample_batch 6\<rparr>)))))
       = [mk_title (str ''2025-01-07 07:00'') 5, mk_title (str ''2025-01-07 07:00'') 1]"
proof -
  let ?s = "init_state\<lparr>notificationBatch := sample_batch 6\<rparr>"
  let ?m = "batch_message sample_world 0 (sort_by compare_gap (sample_batch 6))"
  note T = message_title_count [where w = sample_world and s = ?s and m = ?m
      and ts = "[]" and n = 0 and n' = 0]
  have i: "?m \<in> set (posted (added ?s (snd (dispatch sample_world ?s))))"
    by (simp add: sample_six_posted)
  have 1: "\<exists>k. title ?m = mk_title (getKSTTimestamp sample_world k) (length (items ?m))"
    using T [THEN conjunct1] i by blast
  have u: "[0..<2] = [0, 1]" by (simp add: upt_rec)
  have 4: "map title (posted (added ?s (snd (dispatch sample_world ?s))))
       = [mk_title (str ''2025-01-07 07:00'') 5, mk_title (str ''2025-01-07 07:00'') 1]"
    using T [THEN conjunct2, THEN conjunct2, THEN conjunct2] by (simp add: u)
  show ?thesis using i 1 4 by simp
qed

theorem message_title_total_counterexample:
  "length (notificationBatch (init_state\<lparr>notificationBatch := sample_batch 6\<rparr>)) = 6
   \<and> map title (posted (added (init_state\<lparr>notificationBatch := sample_batch 6\<rparr>)
          (snd (dispatch sample_world (init_state\<lparr>notificationBatch := sample_batch 6\<rparr>)))))
       = [mk_title (str ''2025-01-07 07:00'') 5, mk_title (str ''2025-01-07 07:00'') 1]
   \<and> mk_title (str ''2025-01-07 07:00'') 5 \<noteq> mk_title (str ''2025-01-07 07:00'') 6
   \<and> mk_title (str ''2025-01-07 07:00'') 1 \<noteq> mk_title (str ''2025-01-07 07:00'') 6"
proof -
  let ?s = "init_state\<lparr>notificationBatch := sample_batch 6\<rparr>"
  have 1: "length (notificationBatch ?s) = 6" by simp
  have 2: "map title (posted (added ?s (snd (dispatch sample_world ?s))))
       = [mk_title (str ''2025-01-07 07:00'') 5, mk_title (str ''2025-01-07 07:00'') 1]"
    unfolding sample_six_posted list.map sample_six_titles ..
  have 3: "mk_title (str ''2025-01-07 07:00'') 5 \<noteq> mk_title (str ''2025-01-07 07:00'') 6"
    using mk_title_inj [of "str ''2025-01-07 07:00''" 5 6] by auto
  have 4: "mk_title (str ''2025-01-07 07:00'') 1 \<noteq> mk_title (str ''2025-01-07 07:00'') 6"
    using mk_title_inj [of "str ''2025-01-07 07:00''" 1 6] by auto
  show ?thesis using 1 2 3 4 by (intro conjI)
qed

section \<open>C7: appending to the exclusion list\<close>

text \<open>
  C7. One iteration appends the line of its code to \<open>skip-list.txt\<close> once when the fetched
  target price is the sentinel for a missing target price, and appends nothing otherwise;
  in particular nothing is appended when the fetch failed, whose placeholder carries the
  error sentinel, a different string. Over a run, the lines appended are those of the
  processed occurrences with a missing target price, one line each, in order: always a
  prefix of that list, and the whole list when the browser starts and its pages close.
\<close>

theorem exclusion_appends:
  fixes w :: world and allStockCodes :: "jstring list" and skipCodes :: "jstring set"
    and s :: state and i :: nat and c :: jstring
  defines "stockCodes \<equiv> filter (\<lambda>c. c \<notin> skipCodes) allStockCodes"
  defines "evs \<equiv> added s (snd (run_codes w allStockCodes skipCodes s))"
  defines "expected \<equiv> map (\<lambda>(j, c). c @ [NEWLINE])
                        (filter (\<lambda>(j, c). target_unavailable w j c) (enumerate 0 stockCodes))"
  shows
    "appended (added s (snd (process_item w i c s)))
       = (if target_unavailable w i c then [c @ [NEWLINE]] else []) \<and>
     (fetch_failed w i c \<longrightarrow> appended (added s (snd (process_item w i c s))) = []) \<and>
     TARGET_UNAVAILABLE \<noteq> ERROR_SENTINEL \<and>
     prefix (appended evs) expected \<and>
     (launch_ok w \<and> pages_close w \<longrightarrow> appended evs = expected)"
proof -
  from run_codes_trace [of skipCodes allStockCodes w s]
  obtain n tr where t: "n \<le> length stockCodes
     \<and> trace (snd (run_codes w allStockCodes skipCodes s)) = trace s @ tr
     \<and> fetched tr = take n stockCodes
     \<and> appended tr = skip_lines w 0 (take n stockCodes)
     \<and> (launch_ok w \<and> pages_close w \<longrightarrow> n = length stockCodes)"
    unfolding stockCodes_def by (elim exE)
  have evs: "evs = tr" unfolding evs_def using t by (intro added_append) simp
  have e: "expected = skip_lines w 0 stockCodes"
    by (simp add: expected_def skip_lines_def SKIP_LINE_def)
  have a: "appended evs = skip_lines w 0 (take n stockCodes)" using t evs by simp
  have 1: "appended (added s (snd (process_item w i c s)))
       = (if target_unavailable w i c then [c @ [NEWLINE]] else [])"
    by (simp add: process_item_appended SKIP_LINE_def)
  have 2: "fetch_failed w i c \<longrightarrow> appended (added s (snd (process_item w i c s))) = []"
    unfolding 1 by (auto simp: fetch_failed_def target_unavailable_def split: fetch_result.splits)
  have 4: "prefix (appended evs) expected" unfolding a e by (rule skip_lines_take_prefix)
  have 5: "launch_ok w \<and> pages_close w \<longrightarrow> appended evs = expected" using t a e by simp
  show ?thesis using 1 2 4 5 sentinels_distinct(3) by simp
qed

theorem exclusion_appends_witness:
  "fetch_failed sample_world 1 (str ''B'')
   \<and> appended (added init_state (snd (process_item sample_world 1 (str ''B'') init_state))) = []
   \<and> appended (added init_state (snd (process_item sample_world 1 (str ''C'') init_state)))
       = [str ''C'' @ [NEWLINE]]
   \<and> launch_ok sample_world \<and> pages_close sample_world
   \<and> appended (added init_state
        (snd (run_codes sample_world [str ''C'', str ''B'', str ''A'', str ''C''] {} init_state)))
       = [str ''C'' @ [NEWLINE], str ''C'' @ [NEWLINE]]"
  using exclusion_appends [where w = sample_world and i = 1 and c = "str ''B''" and s = init_state
      and allStockCodes = "[str ''C'', str ''B'', str ''A'', str ''C'']" and skipCodes = "{}"]
    exclusion_appends [where w = sample_world and i = 1 and c = "str ''C''" and s = init_state
      and allStockCodes = "[str ''C'', str ''B'', str ''A'', str ''C'']" and skipCodes = "{}"]
  by (simp add: sample_unavailable enumerate_simps) (simp add: str_def)

section \<open>C8: failures of the exclusion list\<close>

text \<open>
  C8. On a first Monday, deleting a skip list that does not exist (\<open>ENOENT\<close>) raises
  nothing and leaves the run as a successful deletion does. Loading a skip list that does
  not exist gives the empty set and raises nothing. Loading an existing one gives the
  lines between newlines that hold a character other than white space. Any other failure
  of the deletion or of the load ends the run with that error, before any code is fetched
  and any message is posted. A failure of an append, whatever its error code, is caught
  with its item: the iteration ends normally with the placeholder entry behind the entry
  of the extracted fields, and once the list is loaded a run with a working browser and
  Slack channel fetches every code that is not excluded and completes, whatever the
  appends return.
\<close>

theorem exclusion_store_io:
  fixes w :: world and s :: state and e skipData and i :: nat and c :: jstring
    and d :: stockData and skipCodes :: "jstring set" and v :: jstring
  shows
    "(isFirstMonday w \<and> unlink_result w = Some ''ENOENT'' \<longrightarrow>
        reset_skip_list w s = (None, emit Unlink s)
        \<and> reset_skip_list w s = reset_skip_list (w\<lparr>unlink_result := None\<rparr>) s) \<and>
     (readFile_result w = Inl ''ENOENT'' \<longrightarrow> load_skip_codes w = Inr {}) \<and>
     (readFile_result w = Inr skipData \<longrightarrow>
        load_skip_codes w
          = Inr {l \<in> set (split_on NEWLINE skipData). \<exists>c \<in> set l. \<not> is_ws c}) \<and>
     (isFirstMonday w \<and> unlink_result w = Some e \<and> e \<noteq> ''ENOENT'' \<longrightarrow>
        scrapeStockData w = (Some (FsError e), emit Unlink init_state)) \<and>
     (readFile_result w = Inl e \<and> e \<noteq> ''ENOENT''
        \<and> (isFirstMonday w \<longrightarrow> unlink_result w \<in> {None, Some ''ENOENT''}) \<longrightarrow>
        fst (scrapeStockData w) = Some (FsError e)
        \<and> fetched (trace (snd (scrapeStockData w))) = []
        \<and> posted (trace (snd (scrapeStockData w))) = []) \<and>
     (fetch w i c = Extracted d \<and> targetPrice d = TARGET_UNAVAILABLE
        \<and> appendFile_result w i = Some e \<and> page_close_ok w i \<longrightarrow>
        fst (process_item w i c s) = None
        \<and> results (snd (process_item w i c s)) = results s @ [mk_row c d, error_row c]) \<and>
     (fst (reset_skip_list w init_state) = None \<and> load_skip_codes w = Inr skipCodes
        \<and> env w ''STOCK_CODES'' = Some v
        \<and> launch_ok w \<and> pages_close w \<and> browser_close_ok w \<and> slack_ready w \<longrightarrow>
        fst (scrapeStockData w) = None
        \<and> fetched (trace (snd (scrapeStockData w)))
            = filter (\<lambda>c. c \<notin> skipCodes) (split_on COMMA v))"
proof -
  have 1: "isFirstMonday w \<and> unlink_result w = Some ''ENOENT'' \<longrightarrow>
        reset_skip_list w s = (None, emit Unlink s)
        \<and> reset_skip_list w s = reset_skip_list (w\<lparr>unlink_result := None\<rparr>) s"
    by (simp add: reset_skip_list_def isFirstMonday_def)
  have 2: "readFile_result w = Inl ''ENOENT'' \<longrightarrow> load_skip_codes w = Inr {}"
    by (simp add: load_skip_codes_def)
  have 3: "readFile_result w = Inr skipData \<longrightarrow>
        load_skip_codes w
          = Inr {l \<in> set (split_on NEWLINE skipData). \<exists>c \<in> set l. \<not> is_ws c}"
    by (auto simp: load_skip_codes_def trim_nonempty)
  have 4: "isFirstMonday w \<and> unlink_result w = Some e \<and> e \<noteq> ''ENOENT'' \<longrightarrow>
        scrapeStockData w = (Some (FsError e), emit Unlink init_state)"
    by (simp add: scrapeStockData_def reset_skip_list_def)
  have 5: "readFile_result w = Inl e \<and> e \<noteq> ''ENOENT''
        \<and> (isFirstMonday w \<longrightarrow> unlink_result w \<in> {None, Some ''ENOENT''}) \<longrightarrow>
        fst (scrapeStockData w) = Some (FsError e)
        \<and> fetched (trace (snd (scrapeStockData w))) = []
        \<and> posted (trace (snd (scrapeStockData w))) = []"
    by (auto simp: scrapeStockData_def reset_skip_list_def load_skip_codes_def init_state_def)
  have 6: "fetch w i c = Extracted d \<and> targetPrice d = TARGET_UNAVAILABLE
        \<and> appendFile_result w i = Some e \<and> page_close_ok w i \<longrightarrow>
        fst (process_item w i c s) = None
        \<and> results (snd (process_item w i c s)) = results s @ [mk_row c d, error_row c]"
    by (auto simp: process_item_outcome process_item_results item_rows_def
          fetch_failed_def target_unavailable_def)
  have 7: "fst (reset_skip_list w init_state) = None \<and> load_skip_codes w = Inr skipCodes
        \<and> env w ''STOCK_CODES'' = Some v
        \<and> launch_ok w \<and> pages_close w \<and> browser_close_ok w \<and> slack_ready w \<longrightarrow>
        fst (scrapeStockData w) = None
        \<and> fetched (trace (snd (scrapeStockData w)))
            = filter (\<lambda>c. c \<notin> skipCodes) (split_on COMMA v)"
    using scrapeStockData_complete(1,2) [of w skipCodes v] by blast
  show ?thesis using 1 2 3 4 5 6 7 by blast
qed

theorem exclusion_store_io_witness:
  "isFirstMonday (sample_world\<lparr>getDay := 1, unlink_result := Some ''ENOENT''\<rparr>)
   \<and> reset_skip_list (sample_world\<lparr>getDay := 1, unlink_result := Some ''ENOENT''\<rparr>) init_state
       = (None, emit Unlink init_state)
   \<and> load_skip_codes (sample_world\<lparr>readFile_result := Inl ''ENOENT''\<rparr>) = Inr {}
   \<and> load_skip_codes (sample_world\<lparr>readFile_result :=
        Inr (str ''A'' @ [NEWLINE, NEWLINE] @ str '' '' @ [NEWLINE] @ str ''B'' @ [NEWLINE])\<rparr>)
       = Inr {str ''A'', str ''B''}
   \<and> scrapeStockData (sample_world\<lparr>getDay := 1, unlink_result := Some ''EACCES''\<rparr>)
       = (Some (FsError ''EACCES''), emit Unlink init_state)
   \<and> fst (scrapeStockData (sample_world\<lparr>readFile_result := Inl ''EACCES''\<rparr>))
       = Some (FsError ''EACCES'')
   \<and> fetched (trace (snd (scrapeStockData (sample_world\<lparr>readFile_result := Inl ''EACCES''\<rparr>)))) = []
   \<and> appendFile_result failing_append_world 0 = Some ''EACCES''
   \<and> results (snd (process_item failing_append_world 0 (str ''C'') init_state))
       = [mk_row (str ''C'') (sample_data\<lparr>targetPrice := TARGET_UNAVAILABLE\<rparr>), error_row (str ''C'')]
   \<and> fst (scrapeStockData failing_append_world) = None
   \<and> fetched (trace (snd (scrapeStockData failing_append_world))) = [str ''C'', str ''A'']"
proof -
  let ?data = "str ''A'' @ [NEWLINE, NEWLINE] @ str '' '' @ [NEWLINE] @ str ''B'' @ [NEWLINE]"
  let ?w1 = "sample_world\<lparr>getDay := 1, unlink_result := Some ''ENOENT''\<rparr>"
  let ?w2 = "sample_world\<lparr>readFile_result := Inl ''ENOENT''\<rparr>"
  let ?w3 = "sample_world\<lparr>readFile_result := Inr ?data\<rparr>"
  let ?w4 = "sample_world\<lparr>getDay := 1, unlink_result := Some ''EACCES''\<rparr>"
  let ?w5 = "sample_world\<lparr>readFile_result := Inl ''EACCES''\<rparr>"
  let ?d = "sample_data\<lparr>targetPrice := TARGET_UNAVAILABLE\<rparr>"
  have m1: "isFirstMonday ?w1" and m4: "isFirstMonday ?w4" and m5: "\<not> isFirstMonday ?w5"
    by (simp_all add: isFirstMonday_def)
  have l: "{l \<in> set (split_on NEWLINE ?data). \<exists>c \<in> set l. \<not> is_ws c} = {str ''A'', str ''B''}"
    by (auto simp: str_def NEWLINE_def is_ws_def)
  have 1: "reset_skip_list ?w1 init_state = (None, emit Unlink init_state)"
    using exclusion_store_io [where w = ?w1 and s = init_state, THEN conjunct1] m1 by simp
  have 2: "load_skip_codes ?w2 = Inr {}"
    using exclusion_store_io [where w = ?w2, THEN conjunct2, THEN conjunct1] by simp
  have 3: "load_skip_codes ?w3 = Inr {str ''A'', str ''B''}"
    using exclusion_store_io [where w = ?w3 and skipData = ?data,
        THEN conjunct2, THEN conjunct2, THEN conjunct1] l by simp
  have 4: "scrapeStockData ?w4 = (Some (FsError ''EACCES''), emit Unlink init_state)"
    using exclusion_store_io [where w = ?w4 and e = "''EACCES''",
        THEN conjunct2, THEN conjunct2, THEN conjunct2, THEN conjunct1] m4 by simp
  have 5: "fst (scrapeStockData ?w5) = Some (FsError ''EACCES'')
           \<and> fetched (trace (snd (scrapeStockData ?w5))) = []
           \<and> posted (trace (snd (scrapeStockData ?w5))) = []"
    using exclusion_store_io [where w = ?w5 and e = "''EACCES''",
        THEN conjunct2, THEN conjunct2, THEN conjunct2, THEN conjunct2, THEN conjunct1] m5 by simp
  have fc: "fetch failing_append_world 0 (str ''C'') = Extracted ?d"
    by (simp add: failing_append_world_def sample_fetch_def str_def)
  have pc: "page_close_ok failing_append_world 0"
    using failing_append_world_simps(5) by (simp add: pages_close_def)
  have 6: "results (snd (process_item failing_append_world 0 (str ''C'') init_state))
       = [mk_row (str ''C'') ?d, error_row (str ''C'')]"
    using exclusion_store_io [where w = failing_append_world and i = 0 and c = "str ''C''"
        and d = ?d and e = "''EACCES''" and s = init_state,
        THEN conjunct2, THEN conjunct2, THEN conjunct2, THEN conjunct2, THEN conjunct2,
        THEN conjunct1] fc pc
    by (simp add: failing_append_world_simps init_state_def)
  have fl: "str ''C'' \<noteq> str ''B''" "str ''A'' \<noteq> str ''B''" by (simp_all add: str_def)
  have 7: "fst (scrapeStockData failing_append_world) = None
       \<and> fetched (trace (snd (scrapeStockData failing_append_world))) = [str ''C'', str ''A'']"
    using exclusion_store_io [where w = failing_append_world and skipCodes = "{str ''B''}"
        and v = "str ''C,A''",
        THEN conjunct2, THEN conjunct2, THEN conjunct2, THEN conjunct2, THEN conjunct2,
        THEN conjunct2]
    by (simp add: failing_append_world_simps fl)
  show ?thesis using m1 1 2 3 4 5 6 7 by (simp add: failing_append_world_simps)
qed

text \<open>
  In the world whose appends are rejected with \<open>EACCES\<close>, the append for \<open>C\<close> is attempted
  and fails, the run goes on to fetch \<open>A\<close> and ends normally.
\<close>

theorem exclusion_append_failure_counterexample:
  "appendFile_result failing_append_world 0 = Some ''EACCES''
   \<and> ''EACCES'' \<noteq> ''ENOENT''
   \<and> fst (scrapeStockData failing_append_world) = None
   \<and> fetched (trace (snd (scrapeStockData failing_append_world))) = [str ''C'', str ''A'']
   \<and> appended (trace (snd (scrapeStockData failing_append_world))) = [SKIP_LINE (str ''C'')]"
proof -
  note c = scrapeStockData_complete [where w = failing_append_world and skipCodes = "{str ''B''}"
      and v = "str ''C,A''", OF failing_append_world_simps(1-7)]
  have fl: "str ''C'' \<noteq> str ''B''" "str ''A'' \<noteq> str ''B''" by (simp_all add: str_def)
  have a: "str ''A'' \<noteq> str ''C''" by (simp add: str_def)
  have 1: "fst (scrapeStockData failing_append_world) = None" by (rule c(1))
  have 2: "fetched (trace (snd (scrapeStockData failing_append_world))) = [str ''C'', str ''A'']"
    using c(2) by (simp add: failing_append_world_simps(9) fl)
  have 3: "appended (trace (snd (scrapeStockData failing_append_world))) = [SKIP_LINE (str ''C'')]"
    using c(3) by (simp add: failing_append_world_simps(9,10) fl a)
  show ?thesis using 1 2 3 by (simp add: failing_append_world_simps(8))
qed

section \<open>C9: a failed fetch stays with its item\<close>

text \<open>
  C9, as the code has it. When the fetch of a code fails and its page, if one was opened,
  closes, the iteration ends normally: it adds to \<open>results\<close> one placeholder entry for the
  code, whose other fields all hold the error sentinel, and leaves the batch of
  candidates as it was. The same holds when the fields were extracted but the append to
  the skip list failed: the placeholder then follows the entry of the extracted fields.
  The error sentinel differs from each of the four sentinels for a missing field. As long
  as pages close, the loop fetches every code it was given whatever the fetches return,
  records the placeholder of every failed one, and ends normally; with a browser that
  starts and closes and a Slack channel that accepts the messages, the run completes.
  When the page of a code was opened and \<open>page.close()\<close> is rejected, the \<open>finally\<close> block
  of that iteration throws: the placeholder of a failed fetch is still recorded, but the
  loop ends with that error at the first such code, no later code is fetched, and the
  run ends with the error before any message is posted.
\<close>

theorem fetch_error_isolated:
  fixes w :: world and i j :: nat and c :: jstring and s :: state and d :: stockData
    and codes allStockCodes pre rest :: "jstring list" and skipCodes :: "jstring set"
  shows
    "(fetch_failed w i c \<and> (fetch w i c = NewPageFailed \<or> page_close_ok w i) \<longrightarrow>
        fst (process_item w i c s) = None
        \<and> results (snd (process_item w i c s)) = results s @ [error_row c]
        \<and> notificationBatch (snd (process_item w i c s)) = notificationBatch s) \<and>
     (fetch w i c = Extracted d \<and> targetPrice d = TARGET_UNAVAILABLE
        \<and> appendFile_result w i \<noteq> None \<and> page_close_ok w i \<longrightarrow>
        fst (process_item w i c s) = None
        \<and> results (snd (process_item w i c s)) = results s @ [mk_row c d, error_row c]
        \<and> notificationBatch (snd (process_item w i c s)) = notificationBatch s) \<and>
     (name (error_row c) = ERROR_SENTINEL \<and> currentPrice (error_row c) = ERROR_SENTINEL
        \<and> targetPrice (error_row c) = ERROR_SENTINEL \<and> marketCap (error_row c) = ERROR_SENTINEL
        \<and> code (error_row c) = c) \<and>
     ERROR_SENTINEL \<notin> {NAME_UNAVAILABLE, CURRENT_UNAVAILABLE, TARGET_UNAVAILABLE,
                          MARKETCAP_UNAVAILABLE} \<and>
     (pages_close w \<longrightarrow>
        fst (scrape_loop w i codes s) = None
        \<and> fetched (added s (snd (scrape_loop w i codes s))) = codes
        \<and> (j < length codes \<and> fetch_failed w (i + j) (codes ! j) \<longrightarrow>
             error_row (codes ! j) \<in> set (results (snd (scrape_loop w i codes s))))) \<and>
     (launch_ok w \<and> pages_close w \<and> browser_close_ok w \<and> slack_ready w \<longrightarrow>
        fst (run_codes w allStockCodes skipCodes s) = None) \<and>
     (fetch w i c = PageFailed \<and> \<not> page_close_ok w i \<longrightarrow>
        fst (process_item w i c s) = Some BrowserError
        \<and> results (snd (process_item w i c s)) = results s @ [error_row c]
        \<and> scrape_loop w i (c # rest) s = process_item w i c s) \<and>
     ((\<forall>k < length pre. fetch w (i + k) (pre ! k) = NewPageFailed \<or> page_close_ok w (i + k))
        \<and> fetch w (i + length pre) c \<noteq> NewPageFailed \<and> \<not> page_close_ok w (i + length pre) \<longrightarrow>
        fst (scrape_loop w i (pre @ c # rest) s) = Some BrowserError
        \<and> fetched (added s (snd (scrape_loop w i (pre @ c # rest) s))) = pre @ [c]) \<and>
     (launch_ok w \<and> filter (\<lambda>x. x \<notin> skipCodes) allStockCodes = pre @ c # rest
        \<and> (\<forall>k < length pre. fetch w k (pre ! k) = NewPageFailed \<or> page_close_ok w k)
        \<and> fetch w (length pre) c \<noteq> NewPageFailed \<and> \<not> page_close_ok w (length pre) \<longrightarrow>
        fst (run_codes w allStockCodes skipCodes s) = Some BrowserError
        \<and> fetched (added s (snd (run_codes w allStockCodes skipCodes s))) = pre @ [c]
        \<and> posted (added s (snd (run_codes w allStockCodes skipCodes s))) = [])"
proof -
  have 1: "fetch_failed w i c \<and> (fetch w i c = NewPageFailed \<or> page_close_ok w i) \<longrightarrow>
        fst (process_item w i c s) = None
        \<and> results (snd (process_item w i c s)) = results s @ [error_row c]
        \<and> notificationBatch (snd (process_item w i c s)) = notificationBatch s"
    by (auto simp: process_item_outcome process_item_results process_item_batch item_rows_def
          fetch_failed_def split: fetch_result.splits)
  have ap: "fetch w i c = Extracted d \<and> targetPrice d = TARGET_UNAVAILABLE
        \<and> appendFile_result w i \<noteq> None \<and> page_close_ok w i \<longrightarrow>
        fst (process_item w i c s) = None
        \<and> results (snd (process_item w i c s)) = results s @ [mk_row c d, error_row c]
        \<and> notificationBatch (snd (process_item w i c s)) = notificationBatch s"
    by (auto simp: process_item_outcome process_item_results process_item_batch item_rows_def
          fetch_failed_def target_unavailable_def)
  have 2: "name (error_row c) = ERROR_SENTINEL \<and> currentPrice (error_row c) = ERROR_SENTINEL
        \<and> targetPrice (error_row c) = ERROR_SENTINEL \<and> marketCap (error_row c) = ERROR_SENTINEL
        \<and> code (error_row c) = c"
    by (simp add: error_row_def)
  have 3: "ERROR_SENTINEL \<notin> {NAME_UNAVAILABLE, CURRENT_UNAVAILABLE, TARGET_UNAVAILABLE,
                          MARKETCAP_UNAVAILABLE}"
    using sentinels_distinct by simp
  have 4: "pages_close w \<longrightarrow>
        fst (scrape_loop w i codes s) = None
        \<and> fetched (added s (snd (scrape_loop w i codes s))) = codes
        \<and> (j < length codes \<and> fetch_failed w (i + j) (codes ! j) \<longrightarrow>
             error_row (codes ! j) \<in> set (results (snd (scrape_loop w i codes s))))"
    using scrape_loop_all(1,2) [where w = w and i = i and codes = codes and s = s] error_row_recorded [where w = w and j = j and codes = codes and i = i and s = s] by blast
  have 5: "launch_ok w \<and> pages_close w \<and> browser_close_ok w \<and> slack_ready w \<longrightarrow>
        fst (run_codes w allStockCodes skipCodes s) = None"
    using run_codes_complete by blast
  have 6: "fetch w i c = PageFailed \<and> \<not> page_close_ok w i \<longrightarrow>
        fst (process_item w i c s) = Some BrowserError
        \<and> results (snd (process_item w i c s)) = results s @ [error_row c]
        \<and> scrape_loop w i (c # rest) s = process_item w i c s"
  proof (intro impI)
    assume h: "fetch w i c = PageFailed \<and> \<not> page_close_ok w i"
    have o: "fst (process_item w i c s) = Some BrowserError"
      using h by (simp add: process_item_outcome)
    have r: "results (snd (process_item w i c s)) = results s @ [error_row c]"
      using h by (simp add: process_item_results item_rows_def fetch_failed_def)
    have l: "scrape_loop w i (c # rest) s = process_item w i c s"
      using o by (cases "process_item w i c s") simp
    show "fst (process_item w i c s) = Some BrowserError
        \<and> results (snd (process_item w i c s)) = results s @ [error_row c]
        \<and> scrape_loop w i (c # rest) s = process_item w i c s"
      using o r l by (intro conjI)
  qed
  have 7: "(\<forall>k < length pre. fetch w (i + k) (pre ! k) = NewPageFailed \<or> page_close_ok w (i + k))
        \<and> fetch w (i + length pre) c \<noteq> NewPageFailed \<and> \<not> page_close_ok w (i + length pre) \<longrightarrow>
        fst (scrape_loop w i (pre @ c # rest) s) = Some BrowserError
        \<and> fetched (added s (snd (scrape_loop w i (pre @ c # rest) s))) = pre @ [c]"
  proof (intro impI, elim conjE)
    assume h: "\<forall>k < length pre. fetch w (i + k) (pre ! k) = NewPageFailed \<or> page_close_ok w (i + k)"
      "fetch w (i + length pre) c \<noteq> NewPageFailed" "\<not> page_close_ok w (i + length pre)"
    from scrape_loop_abort [OF h, of rest s]
    obtain evs where e: "fst (scrape_loop w i (pre @ c # rest) s) = Some BrowserError
        \<and> trace (snd (scrape_loop w i (pre @ c # rest) s)) = trace s @ evs
        \<and> fetched evs = pre @ [c] \<and> posted evs = []"
      by blast
    have "added s (snd (scrape_loop w i (pre @ c # rest) s)) = evs"
      using e by (intro added_append) simp
    then show "fst (scrape_loop w i (pre @ c # rest) s) = Some BrowserError
        \<and> fetched (added s (snd (scrape_loop w i (pre @ c # rest) s))) = pre @ [c]"
      using e by simp
  qed
  have 8: "launch_ok w \<and> filter (\<lambda>x. x \<notin> skipCodes) allStockCodes = pre @ c # rest
        \<and> (\<forall>k < length pre. fetch w k (pre ! k) = NewPageFailed \<or> page_close_ok w k)
        \<and> fetch w (length pre) c \<noteq> NewPageFailed \<and> \<not> page_close_ok w (length pre) \<longrightarrow>
        fst (run_codes w allStockCodes skipCodes s) = Some BrowserError
        \<and> fetched (added s (snd (run_codes w allStockCodes skipCodes s))) = pre @ [c]
        \<and> posted (added s (snd (run_codes w allStockCodes skipCodes s))) = []"
  proof (intro impI, elim conjE)
    assume h: "launch_ok w" "filter (\<lambda>x. x \<notin> skipCodes) allStockCodes = pre @ c # rest"
      "\<forall>k < length pre. fetch w k (pre ! k) = NewPageFailed \<or> page_close_ok w k"
      "fetch w (length pre) c \<noteq> NewPageFailed" "\<not> page_close_ok w (length pre)"
    note a = run_codes_abort [OF h, of s]
    from a(2) obtain evs where e: "trace (snd (run_codes w allStockCodes skipCodes s)) = trace s @ evs
        \<and> fetched evs = pre @ [c] \<and> posted evs = []"
      by blast
    have "added s (snd (run_codes w allStockCodes skipCodes s)) = evs"
      using e by (intro added_append) simp
    then show "fst (run_codes w allStockCodes skipCodes s) = Some BrowserError
        \<and> fetched (added s (snd (run_codes w allStockCodes skipCodes s))) = pre @ [c]
        \<and> posted (added s (snd (run_codes w allStockCodes skipCodes s))) = []"
      using a(1) e by simp
  qed
  show ?thesis
    by (rule conjI [OF 1], rule conjI [OF ap], rule conjI [OF 2], rule conjI [OF 3],
        rule conjI [OF 4], rule conjI [OF 5], rule conjI [OF 6], rule conjI [OF 7 8])
qed

theorem fetch_error_isolated_witness:
  "fetch_failed sample_world 1 (str ''B'') \<and> page_close_ok sample_world 1
   \<and> fst (process_item sample_world 1 (str ''B'') init_state) = None
   \<and> results (snd (process_item sample_world 1 (str ''B'') init_state)) = [error_row (str ''B'')]
   \<and> appendFile_result (sample_world\<lparr>appendFile_result := \<lambda>i. Some ''ENOSPC''\<rparr>) 2 \<noteq> None
   \<and> results (snd (process_item (sample_world\<lparr>appendFile_result := \<lambda>i. Some ''ENOSPC''\<rparr>) 2
          (str ''C'') init_state))
       = [mk_row (str ''C'') (sample_data\<lparr>targetPrice := TARGET_UNAVAILABLE\<rparr>), error_row (str ''C'')]
   \<and> pages_close sample_world \<and> (1::nat) < length [str ''A'', str ''B'', str ''C'']
   \<and> fst (scrape_loop sample_world 0 [str ''A'', str ''B'', str ''C''] init_state) = None
   \<and> fetched (added init_state (snd (scrape_loop sample_world 0 [str ''A'', str ''B'', str ''C''] init_state)))
       = [str ''A'', str ''B'', str ''C'']
   \<and> error_row (str ''B'')
       \<in> set (results (snd (scrape_loop sample_world 0 [str ''A'', str ''B'', str ''C''] init_state)))
   \<and> launch_ok sample_world \<and> browser_close_ok sample_world \<and> slack_ready sample_world
   \<and> fst (run_codes sample_world [str ''A'', str ''B'', str ''C''] {} init_state) = None
   \<and> fetch failing_close_world 1 (str ''B'') = PageFailed \<and> \<not> page_close_ok failing_close_world 1
   \<and> page_close_ok failing_close_world 0
   \<and> fst (process_item failing_close_world 1 (str ''B'') init_state) = Some BrowserError
   \<and> results (snd (process_item failing_close_world 1 (str ''B'') init_state)) = [error_row (str ''B'')]
   \<and> fst (scrape_loop failing_close_world 0 [str ''A'', str ''B'', str ''C''] init_state)
       = Some BrowserError
   \<and> fetched (added init_state
        (snd (scrape_loop failing_close_world 0 [str ''A'', str ''B'', str ''C''] init_state)))
       = [str ''A'', str ''B'']
   \<and> launch_ok failing_close_world
   \<and> fst (run_codes failing_close_world [str ''A'', str ''B'', str ''C''] {} init_state)
       = Some BrowserError
   \<and> fetched (added init_state
        (snd (run_codes failing_close_world [str ''A'', str ''B'', str ''C''] {} init_state)))
       = [str ''A'', str ''B'']
   \<and> posted (added init_state
        (snd (run_codes failing_close_world [str ''A'', str ''B'', str ''C''] {} init_state))) = []"
proof -
  let ?codes = "[str ''A'', str ''B'', str ''C'']"
  let ?w' = "sample_world\<lparr>appendFile_result := \<lambda>i. Some ''ENOSPC''\<rparr>"
  let ?d = "sample_data\<lparr>targetPrice := TARGET_UNAVAILABLE\<rparr>"
  let ?f = failing_close_world
  note A = fetch_error_isolated [where w = sample_world and i = 1 and c = "str ''B''"
      and s = init_state and d = sample_data and j = 1 and codes = ?codes
      and allStockCodes = ?codes and skipCodes = "{}"]
  note B = fetch_error_isolated [where w = sample_world and i = 0 and c = "str ''B''"
      and s = init_state and d = sample_data and j = 1 and codes = ?codes
      and allStockCodes = ?codes and skipCodes = "{}"]
  note C = fetch_error_isolated [where w = ?w' and i = 2 and c = "str ''C''"
      and s = init_state and d = ?d and j = 1 and codes = ?codes
      and allStockCodes = ?codes and skipCodes = "{}"]
  note D = fetch_error_isolated [where w = ?f and i = 1 and c = "str ''B''"
      and s = init_state and rest = "[str ''C'']"]
  note E = fetch_error_isolated [where w = ?f and i = 0 and c = "str ''B''"
      and s = init_state and pre = "[str ''A'']" and rest = "[str ''C'']"
      and allStockCodes = ?codes and skipCodes = "{}"]
  have f: "fetch_failed sample_world 1 (str ''B'')" by (simp add: sample_unavailable str_def)
  have 1: "fst (process_item sample_world 1 (str ''B'') init_state) = None
     \<and> results (snd (process_item sample_world 1 (str ''B'') init_state)) = [error_row (str ''B'')]"
    using A [THEN conjunct1] f by (simp add: init_state_def)
  have fc: "fetch ?w' 2 (str ''C'') = Extracted ?d" by (simp add: sample_fetch_def str_def)
  have 2: "results (snd (process_item ?w' 2 (str ''C'') init_state)) = [mk_row (str ''C'') ?d, error_row (str ''C'')]"
    using C [THEN conjunct2, THEN conjunct1] fc by (simp add: init_state_def)
  have 4: "fst (scrape_loop sample_world 0 ?codes init_state) = None
     \<and> fetched (added init_state (snd (scrape_loop sample_world 0 ?codes init_state))) = ?codes
     \<and> error_row (str ''B'') \<in> set (results (snd (scrape_loop sample_world 0 ?codes init_state)))"
    using B [THEN conjunct2, THEN conjunct2, THEN conjunct2, THEN conjunct2, THEN conjunct1]
    by (simp add: sample_unavailable) (simp add: str_def)
  have 5: "fst (run_codes sample_world ?codes {} init_state) = None"
    using A [THEN conjunct2, THEN conjunct2, THEN conjunct2, THEN conjunct2, THEN conjunct2,
        THEN conjunct1]
    by simp
  have pf: "fetch ?f 1 (str ''B'') = PageFailed" "\<not> page_close_ok ?f 1" "page_close_ok ?f 0"
    "launch_ok ?f"
    by (simp_all add: failing_close_world_simps)
  have 6: "fst (process_item ?f 1 (str ''B'') init_state) = Some BrowserError
     \<and> results (snd (process_item ?f 1 (str ''B'') init_state)) = [error_row (str ''B'')]"
    using D [THEN conjunct2, THEN conjunct2, THEN conjunct2, THEN conjunct2, THEN conjunct2,
        THEN conjunct2, THEN conjunct1] pf
    by (simp add: init_state_def)
  have 7: "fst (scrape_loop ?f 0 ?codes init_state) = Some BrowserError
     \<and> fetched (added init_state (snd (scrape_loop ?f 0 ?codes init_state))) = [str ''A'', str ''B'']"
    using E [THEN conjunct2, THEN conjunct2, THEN conjunct2, THEN conjunct2, THEN conjunct2,
        THEN conjunct2, THEN conjunct2, THEN conjunct1] pf
    by simp
  have 8: "fst (run_codes ?f ?codes {} init_state) = Some BrowserError
     \<and> fetched (added init_state (snd (run_codes ?f ?codes {} init_state))) = [str ''A'', str ''B'']
     \<and> posted (added init_state (snd (run_codes ?f ?codes {} init_state))) = []"
    using E [THEN conjunct2, THEN conjunct2, THEN conjunct2, THEN conjunct2, THEN conjunct2,
        THEN conjunct2, THEN conjunct2, THEN conjunct2] pf
    by simp
  show ?thesis using f 1 2 4 5 pf 6 7 8 by simp
qed

text \<open>
  In the world whose second page cannot be closed, the fetch of \<open>B\<close> fails, \<open>C\<close> of the
  universe \<open>A,B,C\<close> is never fetched and the run ends with the error of the close.
\<close>

theorem fetch_error_close_failure_counterexample:
  "fetch_failed failing_close_world 1 (str ''B'')
   \<and> split_on COMMA (str ''A,B,C'') = [str ''A'', str ''B'', str ''C'']
   \<and> env failing_close_world ''STOCK_CODES'' = Some (str ''A,B,C'')
   \<and> fst (scrapeStockData failing_close_world) = Some BrowserError
   \<and> fetched (trace (snd (scrapeStockData failing_close_world))) = [str ''A'', str ''B'']
   \<and> posted (trace (snd (scrapeStockData failing_close_world))) = []"
  using failing_close_world_simps(8) [of 1] failing_close_world_simps(5,3) failing_close_world_run
  by (intro conjI)

section \<open>C10: no threshold, no analysis\<close>

text \<open>
  C10. When the gap threshold \<open>PRICE_GAP_PERCENTAGE\<close> is unset it parses to \<open>NaN\<close>, and
  whenever it parses to \<open>NaN\<close> the analysis adds no candidate for any instrument, whatever
  its prices and market capitalisation; the run then ends with an empty batch and posts
  no message.
\<close>

theorem no_threshold_no_analysis:
  fixes w :: world and c :: jstring and d :: stockData and batch :: "candidate list"
  shows
    "(env w ''PRICE_GAP_PERCENTAGE'' = None \<longrightarrow>
        parseFloat (to_string (env w ''PRICE_GAP_PERCENTAGE'')) = NaN) \<and>
     (parseFloat (to_string (env w ''PRICE_GAP_PERCENTAGE'')) = NaN \<longrightarrow>
        analyse (env w) c d batch = batch
        \<and> notificationBatch (snd (scrapeStockData w)) = []
        \<and> posted (trace (snd (scrapeStockData w))) = [])"
  using parseFloat_undefined analyse_no_threshold [of "env w" c d batch]
    scrapeStockData_no_threshold [of w]
  by (simp add: isNaN_def)

theorem no_threshold_no_analysis_witness:
  "env (sample_world\<lparr>env := (sample_env ''15'')(''PRICE_GAP_PERCENTAGE'' := None)\<rparr>)
       ''PRICE_GAP_PERCENTAGE'' = None
   \<and> parseFloat (to_string (env (sample_world\<lparr>env := sample_env ''high''\<rparr>)
       ''PRICE_GAP_PERCENTAGE'')) = NaN
   \<and> analyse (env (sample_world\<lparr>env := (sample_env ''15'')(''PRICE_GAP_PERCENTAGE'' := None)\<rparr>))
       (str ''A'') sample_data [] = []
   \<and> analyse (env (sample_world\<lparr>env := sample_env ''high''\<rparr>)) (str ''A'') sample_data [] = []
   \<and> notificationBatch (snd (scrapeStockData
        (sample_world\<lparr>env := (sample_env ''15'')(''PRICE_GAP_PERCENTAGE'' := None)\<rparr>))) = []
   \<and> posted (trace (snd (scrapeStockData
        (sample_world\<lparr>env := (sample_env ''15'')(''PRICE_GAP_PERCENTAGE'' := None)\<rparr>)))) = []
   \<and> posted (trace (snd (scrapeStockData (sample_world\<lparr>env := sample_env ''high''\<rparr>)))) = []"
proof -
  have h: "parseFloat (to_string (sample_env ''high'' ''PRICE_GAP_PERCENTAGE'')) = NaN"
    by (simp add: sample_env_def js_eval)
  show ?thesis
    using no_threshold_no_analysis [where
        w = "sample_world\<lparr>env := (sample_env ''15'')(''PRICE_GAP_PERCENTAGE'' := None)\<rparr>"
        and c = "str ''A''" and d = sample_data and batch = "[]"]
      no_threshold_no_analysis [where w = "sample_world\<lparr>env := sample_env ''high''\<rparr>"
        and c = "str ''A''" and d = sample_data and batch = "[]"]
    by (simp add: h)
qed

end
